(* ===== verification/Prelude.thy ===== *)
theory Prelude
  imports Main "HOL-Library.Word" "HOL-Library.AList" "HOL-Library.Char_ord"
    "HOL-Library.List_Lexorder"
begin

text \<open>
  Shared vocabulary of the development: bytes and Go strings, Go errors, the outcome of a call that
  may panic, Go maps as association lists, and the functions of Go's \<open>strings\<close> and \<open>strconv\<close>
  packages that the program calls.

  A Go \<open>string\<close> is a sequence of bytes; it is modelled by HOL's \<open>string\<close>, whose characters are
  bytes too, so that literals can be written down. A Go \<open>[]byte\<close> is a list of 8-bit words, on
  which shifts and masks are available. The conversions \<open>[]byte(s)\<close> and \<open>string(b)\<close> are
  \<open>bytes_of\<close> and \<open>string_of\<close>.

  A Go map is an association list with distinct keys. The order of the list is the order in which
  one particular \<open>range\<close> statement visits the map: Go leaves that order open, and a statement of
  the development that is proved for every such list holds for every order of visit.
\<close>

section \<open>Hint collections\<close>

named_theorems map_simps "lookup in a Go map after an update"
named_theorems str_simps "evaluation of the string functions"
named_theorems frame_simps "fields that an operation leaves alone"

section \<open>Bytes and strings\<close>

type_synonym byte = "8 word"
type_synonym bytes = "byte list"

definition byte_of :: "char \<Rightarrow> byte" where
  "byte_of c = of_char c"

definition char_of_byte :: "byte \<Rightarrow> char" where
  "char_of_byte b = char_of (unat b)"

definition bytes_of :: "string \<Rightarrow> bytes" where
  "bytes_of s = map byte_of s"

definition string_of :: "bytes \<Rightarrow> string" where
  "string_of b = map char_of_byte b"

lemma unat_byte_of [simp]: "unat (byte_of c) = of_char c"
proof -
  have "(of_char c :: nat) < 256" by simp
  moreover have "byte_of c = word_of_nat (of_char c)"
    by (simp add: byte_of_def of_nat_of_char)
  ultimately show ?thesis by (simp add: unat_of_nat)
qed

lemma char_of_byte_of [simp]: "char_of_byte (byte_of c) = c"
  by (simp add: char_of_byte_def)

lemma byte_of_char_of [simp]: "byte_of (char_of_byte b) = b"
proof -
  have "unat b < 256" using unsigned_less [of b] by simp
  then have "unat (byte_of (char_of_byte b)) = unat b"
    by (simp add: char_of_byte_def)
  then show ?thesis by (rule word_unat_eq_iff [THEN iffD2])
qed

lemma byte_of_inj [simp]: "byte_of c = byte_of d \<longleftrightarrow> c = d"
  by (metis char_of_byte_of)

lemma string_of_bytes_of [simp]: "string_of (bytes_of s) = s"
  by (simp add: string_of_def bytes_of_def comp_def)

lemma bytes_of_string_of [simp]: "bytes_of (string_of b) = b"
  by (simp add: string_of_def bytes_of_def comp_def)

lemma length_bytes_of [simp]: "length (bytes_of s) = length s"
  by (simp add: bytes_of_def)

lemma length_string_of [simp]: "length (string_of b) = length b"
  by (simp add: string_of_def)

lemma bytes_of_inj [simp]: "bytes_of s = bytes_of t \<longleftrightarrow> s = t"
  by (metis string_of_bytes_of)

lemma bytes_of_append [simp]: "bytes_of (s @ t) = bytes_of s @ bytes_of t"
  by (simp add: bytes_of_def)

lemma bytes_of_simps [simp]:
  "bytes_of [] = []" "bytes_of (c # s) = byte_of c # bytes_of s"
  by (simp_all add: bytes_of_def)

lemma string_of_simps [simp]:
  "string_of [] = []" "string_of (b # s) = char_of_byte b # string_of s"
  "string_of (s @ t) = string_of s @ string_of t"
  by (simp_all add: string_of_def)

lemma bytes_of_eq_Nil [simp]: "bytes_of s = [] \<longleftrightarrow> s = []"
  by (simp add: bytes_of_def)

lemma string_of_eq_Nil [simp]: "string_of s = [] \<longleftrightarrow> s = []"
  by (simp add: string_of_def)

text \<open>A statement about all bytes, or all numbers below a bound, is a finite check.\<close>

lemma all_less_upt: "(\<forall>n < k. P n) \<longleftrightarrow> list_all P [0..<k]"
  by (auto simp: list_all_iff)

lemma all_bytes: "(\<forall>v :: byte. P v) \<longleftrightarrow> list_all (\<lambda>n. P (word_of_nat n)) [0..<256]"
proof
  assume r: "list_all (\<lambda>n. P (word_of_nat n)) [0..<256]"
  show "\<forall>v. P v"
  proof
    fix v :: byte
    from r have all: "\<forall>n \<in> set [0..<256]. P (word_of_nat n)" by (simp only: list_all_iff)
    have "unat v \<in> set [0..<256]" using unsigned_less [of v] by simp
    with all have "P (word_of_nat (unat v))" by (rule bspec)
    then show "P v" by simp
  qed
qed (simp add: list_all_iff)

section \<open>Errors and panics\<close>

text \<open>
  The error values of the program: the package-level variables that the code compares against by
  identity, an error made from a text by \<open>errors.New\<close> or \<open>fmt.Errorf\<close>, and an error wrapped by
  \<open>fmt.Errorf\<close> with the verb \<open>%w\<close>. \<open>errors.Is\<close> walks the chain of wrapped errors.
\<close>

datatype go_error =
    Err string
  | ErrInvalidToken
  | ErrMismatchedToken
  | ErrMismatchedTokenHappyEyeballs
  | ErrNoCookie
  | ErrVerifyKeyMismatch
  | ErrVerifyVerifyMismatch
  | ErrTokenExpired
  | Wrap string go_error

fun errors_is :: "go_error \<Rightarrow> go_error \<Rightarrow> bool" where
  "errors_is (Wrap m e) t = (Wrap m e = t \<or> errors_is e t)"
| "errors_is e t = (e = t)"

text \<open>The method \<open>Error\<close>.\<close>

fun error_text :: "go_error \<Rightarrow> string" where
  "error_text (Err s) = s"
| "error_text ErrInvalidToken = ''invalid token''"
| "error_text ErrMismatchedToken = ''mismatched token''"
| "error_text ErrMismatchedTokenHappyEyeballs =
     ''mismatched token: IPv4 to IPv6 upgrade detected, retrying''"
| "error_text ErrNoCookie = ''http: named cookie not present''"
| "error_text ErrVerifyKeyMismatch = ''verify: key mismatch''"
| "error_text ErrVerifyVerifyMismatch = ''verify: verification mismatch''"
| "error_text ErrTokenExpired = ''token: expired''"
| "error_text (Wrap m e) = m @ '': '' @ error_text e"

lemma errors_is_refl [simp]: "errors_is e e"
  by (cases e) auto

text \<open>
  The outcome of a call that threads a state: it returns a value with the new state, or it panics
  with the state reached by then. \<open>obind\<close> runs the continuation of a returned value.
\<close>

datatype ('a, 's) outcome = Ret 'a 's | Panic go_error 's

fun obind :: "('a, 's) outcome \<Rightarrow> ('a \<Rightarrow> 's \<Rightarrow> ('b, 's) outcome) \<Rightarrow> ('b, 's) outcome" where
  "obind (Ret a s) k = k a s"
| "obind (Panic e s) k = Panic e s"

fun final_state :: "('a, 's) outcome \<Rightarrow> 's" where
  "final_state (Ret a s) = s"
| "final_state (Panic e s) = s"

lemma obind_Ret_iff:
  "obind m k = Ret b t \<longleftrightarrow> (\<exists>a s. m = Ret a s \<and> k a s = Ret b t)"
  by (cases m) auto

lemma obind_assoc: "obind (obind m k) l = obind m (\<lambda>a s. obind (k a s) l)"
  by (cases m) auto

section \<open>Go maps\<close>

type_synonym ('k, 'v) gomap = "('k \<times> 'v) list"

definition mget :: "('k, 'v) gomap \<Rightarrow> 'k \<Rightarrow> 'v option" where
  "mget m k = map_of m k"

definition mset_key :: "'k \<Rightarrow> 'v \<Rightarrow> ('k, 'v) gomap \<Rightarrow> ('k, 'v) gomap" where
  "mset_key k v m = AList.update k v m"

definition mdel :: "'k \<Rightarrow> ('k, 'v) gomap \<Rightarrow> ('k, 'v) gomap" where
  "mdel k m = AList.delete k m"

definition mkeys :: "('k, 'v) gomap \<Rightarrow> 'k list" where
  "mkeys m = map fst m"

definition wf_map :: "('k, 'v) gomap \<Rightarrow> bool" where
  "wf_map m \<longleftrightarrow> distinct (mkeys m)"

text \<open>Reading a missing key gives the zero value of the element type.\<close>

definition mget_or :: "'v \<Rightarrow> ('k, 'v) gomap \<Rightarrow> 'k \<Rightarrow> 'v" where
  "mget_or z m k = (case mget m k of None \<Rightarrow> z | Some v \<Rightarrow> v)"

lemma mget_Nil [simp]: "mget [] k = None"
  by (simp add: mget_def)

lemma mget_Cons: "mget ((a, b) # m) k = (if k = a then Some b else mget m k)"
  by (simp add: mget_def)

lemma mget_mset_key [simp, map_simps]:
  "mget (mset_key k v m) k' = (if k' = k then Some v else mget m k')"
  by (simp add: mget_def mset_key_def update_conv)

lemma mget_mdel [simp, map_simps]:
  "mget (mdel k m) k' = (if k' = k then None else mget m k')"
  by (simp add: mget_def mdel_def delete_conv)

lemma mget_or_mset_key [simp, map_simps]:
  "mget_or z (mset_key k v m) k' = (if k' = k then v else mget_or z m k')"
  by (simp add: mget_or_def)

lemma wf_map_Nil [simp]: "wf_map []"
  by (simp add: wf_map_def mkeys_def)

lemma wf_map_mset_key [simp]: "wf_map m \<Longrightarrow> wf_map (mset_key k v m)"
  by (simp add: wf_map_def mkeys_def mset_key_def distinct_update)

lemma wf_map_mdel [simp]: "wf_map m \<Longrightarrow> wf_map (mdel k m)"
  by (simp add: wf_map_def mkeys_def mdel_def distinct_delete)

lemma set_mkeys_iff: "k \<in> set (mkeys m) \<longleftrightarrow> mget m k \<noteq> None"
  by (induction m) (auto simp: mkeys_def mget_def)

lemma mget_in_set: "wf_map m \<Longrightarrow> mget m k = Some v \<longleftrightarrow> (k, v) \<in> set m"
  by (simp add: wf_map_def mkeys_def mget_def map_of_eq_Some_iff)

lemma mdel_eq_filter: "mdel k m = filter (\<lambda>(k', _). k' \<noteq> k) m"
  unfolding mdel_def AList.delete_eq by (rule filter_cong) auto

text \<open>
  \<open>for k := range m { if p(k) { delete(m, k) } }\<close>: the loop visits every key of the map it starts
  with (an iteration only deletes the key it visits) and deletes those that satisfy \<open>p\<close>.
\<close>

fun del_loop :: "('k \<Rightarrow> bool) \<Rightarrow> 'k list \<Rightarrow> ('k, 'v) gomap \<Rightarrow> ('k, 'v) gomap" where
  "del_loop p [] m = m"
| "del_loop p (k # ks) m = del_loop p ks (if p k then mdel k m else m)"

definition del_where :: "('k \<Rightarrow> bool) \<Rightarrow> ('k, 'v) gomap \<Rightarrow> ('k, 'v) gomap" where
  "del_where p m = del_loop p (mkeys m) m"

lemma del_loop_filter:
  "del_loop p ks m = filter (\<lambda>(k, _). \<not> (p k \<and> k \<in> set ks)) m"
proof (induction ks arbitrary: m)
  case Nil
  then show ?case by simp
next
  case (Cons a ks)
  then show ?case
    by (auto simp: mdel_eq_filter intro!: filter_cong)
qed

lemma del_where_eq: "del_where p m = filter (\<lambda>(k, _). \<not> p k) m"
  unfolding del_where_def del_loop_filter
  by (rule filter_cong) (force simp: mkeys_def)+

lemma mget_filter_key: "mget (filter (\<lambda>(k, _). q k) m) k = (if q k then mget m k else None)"
  by (induction m) (auto simp: mget_def)

lemma mget_del_where [simp, map_simps]:
  "mget (del_where p m) k = (if p k then None else mget m k)"
  by (simp add: del_where_eq mget_filter_key)

lemma wf_map_del_where [simp]: "wf_map m \<Longrightarrow> wf_map (del_where p m)"
  by (auto simp: wf_map_def mkeys_def del_where_eq intro: distinct_map_filter)

section \<open>The functions of Go's strings and strconv packages that are used\<close>

definition HasPrefix :: "string \<Rightarrow> string \<Rightarrow> bool" where
  "HasPrefix s p \<longleftrightarrow> take (length p) s = p"

text \<open>\<open>strings.Cut\<close> with a separator of one byte: the text before it, the text after it, found.\<close>

fun Cut :: "char \<Rightarrow> string \<Rightarrow> string \<times> string \<times> bool" where
  "Cut c [] = ([], [], False)"
| "Cut c (x # xs) =
     (if x = c then ([], xs, True)
      else (case Cut c xs of (a, b, f) \<Rightarrow> (x # a, b, f)))"

fun Split :: "char \<Rightarrow> string \<Rightarrow> string list" where
  "Split c [] = [[]]"
| "Split c (x # xs) =
     (if x = c then [] # Split c xs
      else (case Split c xs of [] \<Rightarrow> [[x]] | y # ys \<Rightarrow> (x # y) # ys))"

fun Join :: "string \<Rightarrow> string list \<Rightarrow> string" where
  "Join sep [] = []"
| "Join sep [x] = x"
| "Join sep (x # y # ys) = x @ sep @ Join sep (y # ys)"

definition digit_char :: "nat \<Rightarrow> char" where
  "digit_char d = char_of (48 + d)"

text \<open>\<open>strconv.AppendUint(nil, n, 10)\<close> and \<open>strconv.FormatUint(n, 10)\<close>.\<close>

fun decimal :: "nat \<Rightarrow> string" where
  "decimal n = (if n < 10 then [digit_char n] else decimal (n div 10) @ [digit_char (n mod 10)])"

declare decimal.simps [simp del]

lemma Cut_append: "Cut c s = (a, b, f) \<Longrightarrow> s = (if f then a @ c # b else a) \<and> c \<notin> set a"
proof (induction s arbitrary: a b f)
  case Nil
  then show ?case by auto
next
  case (Cons x s)
  then show ?case by (cases "Cut c s") (auto split: if_splits)
qed

lemma Cut_notin [simp]: "c \<notin> set s \<Longrightarrow> Cut c s = (s, [], False)"
  by (induction s) auto

lemma Cut_found [simp]: "c \<notin> set a \<Longrightarrow> Cut c (a @ c # b) = (a, b, True)"
  by (induction a) auto

lemma Cut_rest_length: "Cut c s = (a, b, f) \<Longrightarrow> s \<noteq> [] \<Longrightarrow> length b < length s"
proof (induction s arbitrary: a b f)
  case Nil
  then show ?case by simp
next
  case (Cons x s)
  then show ?case by (cases "Cut c s"; cases s) (fastforce split: if_splits)+
qed

lemma Split_nonempty [simp]: "Split c s \<noteq> []"
  by (induction s) (auto split: list.splits)

lemma Join_Split: "Join [c] (Split c s) = s"
proof (induction s)
  case Nil
  then show ?case by simp
next
  case (Cons x s)
  obtain y ys where s: "Split c s = y # ys"
    by (cases "Split c s") auto
  with Cons show ?case by (cases ys) auto
qed

lemma Split_elem_notin: "x \<in> set (Split c s) \<Longrightarrow> c \<notin> set x"
proof (induction s arbitrary: x)
  case Nil
  then show ?case by simp
next
  case (Cons a s)
  then show ?case by (cases "Split c s") (auto split: if_splits)
qed

lemma Split_notin [simp]: "c \<notin> set s \<Longrightarrow> Split c s = [s]"
  by (induction s) auto

lemma Split_append_sep:
  "c \<notin> set a \<Longrightarrow> Split c (a @ c # b) = a # Split c b"
  by (induction a) auto

lemma Split_Join:
  "xs \<noteq> [] \<Longrightarrow> \<forall>x \<in> set xs. c \<notin> set x \<Longrightarrow> Split c (Join [c] xs) = xs"
  by (induction "[c]" xs rule: Join.induct) (auto simp: Split_append_sep)

lemma HasPrefix_append [simp]: "HasPrefix (p @ s) p"
  by (simp add: HasPrefix_def)

lemma HasPrefix_iff: "HasPrefix s p \<longleftrightarrow> (\<exists>t. s = p @ t)"
  unfolding HasPrefix_def by (metis append_eq_conv_conj append_take_drop_id)

lemma decimal_nonempty [simp]: "decimal n \<noteq> []"
  by (subst decimal.simps) simp

lemma digit_char_range: "d < 10 \<Longrightarrow> of_char (digit_char d) = 48 + (d :: nat)"
  by (simp add: digit_char_def)

lemma decimal_digits: "c \<in> set (decimal n) \<Longrightarrow> 48 \<le> (of_char c :: nat) \<and> (of_char c :: nat) \<le> 57"
proof (induction n rule: decimal.induct)
  case (1 n)
  show ?case
  proof (cases "n < 10")
    case True
    with "1.prems" show ?thesis by (subst (asm) decimal.simps) (simp add: digit_char_range)
  next
    case False
    with 1 show ?thesis
      by (subst (asm) (2) decimal.simps) (auto simp: digit_char_range)
  qed
qed

lemmas string_fun_simps [str_simps] = HasPrefix_def Cut.simps Split.simps Join.simps

end
