(* ===== verification/Hex.thy ===== *)
theory Hex
  imports Prelude
begin

unbundle bit_operations_syntax

text \<open>
  Hexadecimal coding (\<open>utils/inline/hex.go\<close>), the copy of Go's \<open>encoding/hex\<close> that is compiled into
  the WASM runtime. The two routines write into a caller-supplied buffer; an index past its end
  panics, which is the value \<open>None\<close> here. \<open>EncodeToString\<close> and \<open>DecodeString\<close> of the standard
  package, which the rest of the program calls, are the same loops on a buffer of the right size.
\<close>

section \<open>Tables\<close>

definition hextable :: bytes where
  "hextable = bytes_of ''0123456789abcdef''"

definition reverseHexTable :: bytes where
  "reverseHexTable =
     replicate 16 0xff @ replicate 16 0xff @ replicate 16 0xff @
     [0x00, 0x01, 0x02, 0x03, 0x04, 0x05, 0x06, 0x07, 0x08, 0x09] @ replicate 6 0xff @
     [0xff, 0x0a, 0x0b, 0x0c, 0x0d, 0x0e, 0x0f] @ replicate 9 0xff @
     replicate 16 0xff @
     [0xff, 0x0a, 0x0b, 0x0c, 0x0d, 0x0e, 0x0f] @ replicate 9 0xff @
     replicate 16 0xff @ replicate 16 0xff @ replicate 16 0xff @
     replicate 16 0xff @ replicate 16 0xff @ replicate 16 0xff @
     replicate 16 0xff @ replicate 16 0xff @ replicate 16 0xff"

definition hex_digit :: "byte \<Rightarrow> byte" where
  "hex_digit v = hextable ! unat v"

definition reverse_hex :: "byte \<Rightarrow> byte" where
  "reverse_hex p = reverseHexTable ! unat p"

datatype hex_error = InvalidByteError byte | ErrLength

section \<open>Operations\<close>

definition EncodedLen :: "nat \<Rightarrow> nat" where
  "EncodedLen n = n * 2"

definition DecodedLen :: "nat \<Rightarrow> nat" where
  "DecodedLen x = x div 2"

fun encode_loop :: "bytes \<Rightarrow> nat \<Rightarrow> bytes \<Rightarrow> bytes option" where
  "encode_loop dst j [] = Some dst"
| "encode_loop dst j (v # vs) =
     (if j + 1 < length dst
      then encode_loop (dst[j := hex_digit (drop_bit 4 v), j + 1 := hex_digit (v AND 0x0f)]) (j + 2) vs
      else None)"

definition Encode :: "bytes \<Rightarrow> bytes \<Rightarrow> (bytes \<times> nat) option" where
  "Encode dst src = map_option (\<lambda>d. (d, length src * 2)) (encode_loop dst 0 src)"

text \<open>
  The loop of \<open>Decode\<close> takes the source two bytes at a time; \<open>i\<close> counts the bytes written. The
  equations for one byte and for none are the code after the loop.
\<close>

fun decode_loop :: "bytes \<Rightarrow> nat \<Rightarrow> bytes \<Rightarrow> (bytes \<times> nat \<times> hex_error option) option" where
  "decode_loop dst i (p # q # src) =
     (let a = reverse_hex p; b = reverse_hex q in
      if a > 0x0f then Some (dst, i, Some (InvalidByteError p))
      else if b > 0x0f then Some (dst, i, Some (InvalidByteError q))
      else if i < length dst
      then decode_loop (dst[i := push_bit 4 a OR b]) (i + 1) src
      else None)"
| "decode_loop dst i [p] =
     (if reverse_hex p > 0x0f then Some (dst, i, Some (InvalidByteError p))
      else Some (dst, i, Some ErrLength))"
| "decode_loop dst i [] = Some (dst, i, None)"

definition Decode :: "bytes \<Rightarrow> bytes \<Rightarrow> (bytes \<times> nat \<times> hex_error option) option" where
  "Decode dst src = decode_loop dst 0 src"

text \<open>\<open>hex.EncodeToString\<close> and \<open>hex.DecodeString\<close>.\<close>

definition hex_encode :: "bytes \<Rightarrow> string" where
  "hex_encode src = concat (map (\<lambda>v. string_of [hex_digit (drop_bit 4 v), hex_digit (v AND 0x0f)]) src)"

definition hex_decode :: "string \<Rightarrow> hex_error + bytes" where
  "hex_decode s =
     (case Decode (replicate (DecodedLen (length s)) 0) (bytes_of s) of
        None \<Rightarrow> Inl ErrLength
      | Some (dst, n, None) \<Rightarrow> Inr (take n dst)
      | Some (dst, n, Some e) \<Rightarrow> Inl e)"

section \<open>Digits\<close>

lemma hex_digit_table:
  "list_all (\<lambda>n. reverse_hex (hex_digit (word_of_nat n)) = word_of_nat n) [0..<16]"
  by code_simp

lemma reverse_hex_digit [simp]: "v \<le> 0x0f \<Longrightarrow> reverse_hex (hex_digit v) = v"
proof -
  assume "v \<le> 0x0f"
  then have "unat v < 16" by (simp add: word_le_nat_alt)
  with hex_digit_table show ?thesis
    by (auto simp: list_all_iff dest: bspec [where x = "unat v"])
qed

lemma drop_bit_nibble [simp]: "drop_bit 4 (v :: byte) \<le> 0x0f"
proof -
  have "unat v < 256" using unsigned_less [of v] by simp
  then have "unat v div 16 < 16" by simp
  moreover have "unat (drop_bit 4 v) = unat v div 16"
    by (subst unat_drop_bit_eq) (simp add: drop_bit_eq_div)
  ultimately have "unat (drop_bit 4 v) < 16" by simp
  then show ?thesis by (simp add: word_le_nat_alt)
qed

lemma and_nibble [simp]: "(v :: byte) AND 0x0f \<le> 0x0f"
  by (rule word_and_le1)

lemma nibbles_join [simp]: "push_bit 4 (drop_bit 4 v) OR (v AND 0x0f) = (v :: byte)"
proof -
  have "(0x0f :: byte) = mask 4" by code_simp
  then have "v AND 0x0f = take_bit 4 v" by (simp only: take_bit_eq_mask)
  then show ?thesis
    by (auto intro!: bit_word_eqI simp: bit_simps not_less)
qed

lemma length_reverseHexTable [simp]: "length reverseHexTable = 256"
  by (simp add: reverseHexTable_def)

lemma reverse_hex_in: "reverse_hex p \<in> set reverseHexTable"
proof -
  have "unat p < length reverseHexTable" using unsigned_less [of p] by simp
  then show ?thesis unfolding reverse_hex_def by (rule nth_mem)
qed

lemma reverse_hex_values: "reverse_hex p \<le> 0x0f \<or> reverse_hex p = 0xff"
  using reverse_hex_in [of p] by (auto simp: reverseHexTable_def)

section \<open>Encoding\<close>

text \<open>The bytes of the encoding, and the functional description of the loop that writes them.\<close>

definition hex_bytes :: "bytes \<Rightarrow> bytes" where
  "hex_bytes src = concat (map (\<lambda>v. [hex_digit (drop_bit 4 v), hex_digit (v AND 0x0f)]) src)"

lemma length_hex_bytes [simp]: "length (hex_bytes src) = 2 * length src"
  by (induction src) (auto simp: hex_bytes_def)

lemma hex_bytes_simps [simp]:
  "hex_bytes [] = []"
  "hex_bytes (v # vs) = hex_digit (drop_bit 4 v) # hex_digit (v AND 0x0f) # hex_bytes vs"
  by (simp_all add: hex_bytes_def)

lemma hex_encode_bytes: "hex_encode src = string_of (hex_bytes src)"
  by (induction src) (auto simp: hex_encode_def string_of_def)

lemma length_hex_encode [simp]: "length (hex_encode src) = 2 * length src"
  by (simp add: hex_encode_bytes)

lemma encode_loop_spec:
  "encode_loop dst j src =
     (if j + 2 * length src \<le> length dst \<or> src = []
      then Some (take j dst @ hex_bytes src @ drop (j + 2 * length src) dst) else None)"
proof (induction src arbitrary: dst j)
  case Nil
  then show ?case by simp
next
  case (Cons v src)
  let ?a = "hex_digit (drop_bit 4 v)" and ?b = "hex_digit (v AND 0x0f)"
  show ?case
  proof (cases "j + 1 < length dst")
    case True
    let ?d = "dst[j := ?a, j + 1 := ?b]"
    have "take (j + 2) ?d = take j dst @ [?a, ?b]"
      using True by (simp add: take_Suc_conv_app_nth numeral_2_eq_2 nth_list_update)
    moreover have "drop (j + 2 + n) ?d = drop (j + 2 + n) dst" for n
      by (simp add: drop_update_cancel)
    ultimately show ?thesis
      using True Cons.IH [of ?d "j + 2"] by (auto simp: add.assoc)
  next
    case False
    then show ?thesis by auto
  qed
qed

lemma Encode_spec:
  "Encode dst src =
     (if 2 * length src \<le> length dst
      then Some (hex_bytes src @ drop (2 * length src) dst, 2 * length src) else None)"
  by (auto simp: Encode_def encode_loop_spec mult.commute)

section \<open>Decoding\<close>

text \<open>The value of a well-formed source, and the position of the first bad byte.\<close>

fun hex_value :: "bytes \<Rightarrow> bytes" where
  "hex_value (p # q # src) = (push_bit 4 (reverse_hex p) OR reverse_hex q) # hex_value src"
| "hex_value _ = []"

definition is_hex :: "byte \<Rightarrow> bool" where
  "is_hex p \<longleftrightarrow> reverse_hex p \<le> 0x0f"

lemma length_hex_value [simp]: "length (hex_value src) = length src div 2"
  by (induction src rule: hex_value.induct) auto

lemma is_hex_digit [simp]: "v \<le> 0x0f \<Longrightarrow> is_hex (hex_digit v)"
  by (simp add: is_hex_def)

lemma all_hex_bytes: "list_all is_hex (hex_bytes src)"
  by (induction src) auto

lemma hex_value_bytes [simp]: "hex_value (hex_bytes src) = src"
  by (induction src) auto

lemma decode_loop_ok:
  assumes "list_all is_hex src" "even (length src)" "i + length src div 2 \<le> length dst"
  shows "decode_loop dst i src =
     Some (take i dst @ hex_value src @ drop (i + length src div 2) dst, i + length src div 2, None)"
  using assms
proof (induction dst i src rule: decode_loop.induct)
  case (1 dst i p q src)
  let ?v = "push_bit 4 (reverse_hex p) OR reverse_hex q"
  have i: "i < length dst" using "1.prems" by simp
  have "take (i + 1) (dst[i := ?v]) = take i dst @ [?v]"
    using i by (simp add: take_Suc_conv_app_nth)
  with 1 i show ?case
    by (auto simp: is_hex_def not_less drop_update_cancel Let_def)
qed auto

lemma decode_loop_bad:
  assumes "\<not> list_all is_hex src \<or> odd (length src)" "i + length src div 2 \<le> length dst"
  shows "\<exists>dst' n e. decode_loop dst i src = Some (dst', n, Some e) \<and>
     (case e of InvalidByteError p \<Rightarrow> p \<in> set src \<and> \<not> is_hex p
      | ErrLength \<Rightarrow> odd (length src) \<and> list_all is_hex src)"
  using assms
proof (induction dst i src rule: decode_loop.induct)
  case (1 dst i p q src)
  show ?case
  proof (cases "is_hex p \<and> is_hex q")
    case True
    then have le: "\<not> reverse_hex p > 0x0f" "\<not> reverse_hex q > 0x0f"
      by (auto simp: is_hex_def)
    let ?d = "dst[i := push_bit 4 (reverse_hex p) OR reverse_hex q]"
    have "\<exists>dst' n e. decode_loop ?d (i + 1) src = Some (dst', n, Some e) \<and>
       (case e of InvalidByteError p \<Rightarrow> p \<in> set src \<and> \<not> is_hex p
        | ErrLength \<Rightarrow> odd (length src) \<and> list_all is_hex src)"
      using "1.IH" [OF refl refl le] "1.prems" True by simp
    then show ?thesis
      using le True "1.prems" by (auto split: hex_error.splits)
  next
    case False
    then show ?thesis by (auto simp: is_hex_def not_less Let_def)
  qed
qed (auto simp: is_hex_def not_less)

section \<open>The whole routines\<close>

lemma Decode_ok:
  assumes "list_all is_hex src" "even (length src)" "length src div 2 \<le> length dst"
  shows "Decode dst src = Some (hex_value src @ drop (length src div 2) dst, length src div 2, None)"
  using decode_loop_ok [of src 0 dst] assms by (simp add: Decode_def)

lemma hex_decode_ok:
  "list_all is_hex (bytes_of s) \<Longrightarrow> even (length s) \<Longrightarrow> hex_decode s = Inr (hex_value (bytes_of s))"
  by (simp add: hex_decode_def DecodedLen_def Decode_ok)

lemma hex_decode_bad:
  assumes "\<not> list_all is_hex (bytes_of s) \<or> odd (length s)"
  shows "\<exists>e. hex_decode s = Inl e"
  using decode_loop_bad [of "bytes_of s" 0 "replicate (DecodedLen (length s)) 0"] assms
  by (auto simp: hex_decode_def Decode_def DecodedLen_def)

lemma hex_decode_Inr_iff:
  "hex_decode s = Inr b \<longleftrightarrow>
     list_all is_hex (bytes_of s) \<and> even (length s) \<and> b = hex_value (bytes_of s)"
proof (cases "list_all is_hex (bytes_of s) \<and> even (length s)")
  case True
  then show ?thesis by (auto simp: hex_decode_ok)
next
  case False
  then obtain e where "hex_decode s = Inl e" using hex_decode_bad [of s] by blast
  with False show ?thesis by auto
qed

lemma hex_decode_length: "hex_decode s = Inr b \<Longrightarrow> length s = 2 * length b"
  by (auto simp: hex_decode_Inr_iff)

lemma hex_decode_encode [simp]: "hex_decode (hex_encode b) = Inr b"
  by (simp add: hex_decode_Inr_iff hex_encode_bytes all_hex_bytes)

lemma hex_encode_inj [simp]: "hex_encode a = hex_encode b \<longleftrightarrow> a = b"
  by (metis hex_decode_encode sum.inject(2))

section \<open>Properties\<close>

text \<open>
  for a source and a destination with room for it, the decoder never indexes out of range, and it
  reports no error exactly on a text of hexadecimal digits of even length; then it has written the
  bytes of the text, half as many as the text has digits, and left the rest of the destination alone.
\<close>

theorem Decode_exact:
  assumes "length src div 2 \<le> length dst"
  shows "\<exists>d n e. Decode dst src = Some (d, n, e) \<and>
    (e = None \<longleftrightarrow> list_all is_hex src \<and> even (length src)) \<and>
    (e = None \<longrightarrow> n = length src div 2 \<and> take n d = hex_value src \<and> drop n d = drop n dst)"
proof (cases "list_all is_hex src \<and> even (length src)")
  case True
  then show ?thesis using assms by (simp add: Decode_ok)
next
  case False
  then obtain d n e where "decode_loop dst 0 src = Some (d, n, Some e)"
    using decode_loop_bad [of src 0 dst] assms by auto
  with False show ?thesis by (auto simp: Decode_def)
qed

theorem Decode_exact_witness:
  "\<exists>d n e. Decode [7, 7] (bytes_of ''0aG'') = Some (d, n, Some e)"
  using Decode_exact [of "bytes_of ''0aG''" "[7, 7]"] by auto

text \<open>
  what the encoder writes, the decoder reads back: the encoder fills exactly two bytes for each
  byte of the source, and decoding them gives the source.
\<close>

theorem Encode_Decode:
  assumes "EncodedLen (length src) \<le> length dst"
  shows "\<exists>d. Encode dst src = Some (d, EncodedLen (length src)) \<and>
    Decode (replicate (DecodedLen (EncodedLen (length src))) 0) (take (EncodedLen (length src)) d) =
      Some (src, length src, None)"
proof -
  have "Encode dst src = Some (hex_bytes src @ drop (2 * length src) dst, EncodedLen (length src))"
    using assms by (simp add: Encode_spec EncodedLen_def mult.commute)
  then show ?thesis
    by (simp add: EncodedLen_def DecodedLen_def Decode_ok all_hex_bytes mult.commute)
qed

theorem Encode_Decode_witness:
  "\<exists>d. Encode [1, 2, 3] [0xa0] = Some (d, 2) \<and> Decode [0] (take 2 d) = Some ([0xa0], 1, None)"
  using Encode_Decode [of "[0xa0]" "[1, 2, 3]"]
  by (simp add: EncodedLen_def DecodedLen_def)

end
