(* ===== verification/Go_Time.thy ===== *)
theory Go_Time
  imports Prelude
begin

text \<open>
  Go's \<open>time.Time\<close> and \<open>time.Duration\<close>, the numeric dates of a token, and the expiration that
  \<open>lib/challenge/data.go\<close> gives to a challenge. A time is the number of nanoseconds since the zero
  time (1 January of year 1), a duration a number of nanoseconds; \<open>Round\<close> counts from the zero time
  too, as Go's does.
\<close>

type_synonym go_time = int
type_synonym duration = int

definition second :: duration where "second = 1000000000"
definition hour :: duration where "hour = 3600 * second"

text \<open>Seconds from the zero time to 1 January 1970.\<close>

definition unix_to_internal :: int where "unix_to_internal = 62135596800"

definition Unix :: "go_time \<Rightarrow> int" where
  "Unix t = t div second - unix_to_internal"

definition from_unix :: "int \<Rightarrow> go_time" where
  "from_unix s = (s + unix_to_internal) * second"

definition UnixMilli :: "go_time \<Rightarrow> int" where
  "UnixMilli t = t div 1000000 - unix_to_internal * 1000"

definition Round :: "duration \<Rightarrow> go_time \<Rightarrow> go_time" where
  "Round d t =
     (if d \<le> 0 then t
      else (let r = t mod d in if r + r < d then t - r else t + (d - r)))"

text \<open>\<open>RequestData.Expiration\<close>\<close>

definition Expiration :: "go_time \<Rightarrow> duration \<Rightarrow> go_time" where
  "Expiration now duration = Round duration (now + duration)"

text \<open>\<open>DefaultDuration\<close>: a week.\<close>

definition DefaultDuration :: duration where "DefaultDuration = hour * 24 * 7"

lemma second_pos [simp]: "0 < second"
  by (simp add: second_def)

lemma Unix_from_unix [simp]: "Unix (from_unix s) = s"
  by (simp add: Unix_def from_unix_def second_def)

lemma from_unix_Unix: "from_unix (Unix t) \<le> t" "t < from_unix (Unix t) + second"
proof -
  have "t = second * (t div second) + t mod second" by simp
  moreover have "0 \<le> t mod second" "t mod second < second" by (simp_all add: second_def)
  moreover have "from_unix (Unix t) = second * (t div second)"
    by (simp add: from_unix_def Unix_def mult.commute)
  ultimately show "from_unix (Unix t) \<le> t" "t < from_unix (Unix t) + second" by linarith+
qed

lemma from_unix_Unix_eq: "second dvd t \<Longrightarrow> from_unix (Unix t) = t"
  by (auto simp: from_unix_def Unix_def)

lemma Unix_mono: "s \<le> t \<Longrightarrow> Unix s \<le> Unix t"
  unfolding Unix_def by (simp add: zdiv_mono1)

lemma Round_dvd: "0 < d \<Longrightarrow> d dvd Round d t"
proof -
  assume d: "0 < d"
  have m: "t - t mod d = d * (t div d)" by (simp add: minus_mod_eq_mult_div)
  then have "t + (d - t mod d) = d * (t div d + 1)" by (simp add: algebra_simps)
  with m d show ?thesis by (simp add: Round_def Let_def)
qed

lemma Round_bounds:
  assumes d: "0 < d"
  shows "2 * t - d < 2 * Round d t" "2 * Round d t \<le> 2 * t + d"
proof -
  define r where "r = t mod d"
  have r: "0 \<le> r" "r < d" using d by (simp_all add: r_def)
  have e: "Round d t = (if r + r < d then t - r else t + (d - r))"
    using d by (simp add: Round_def r_def Let_def)
  show "2 * t - d < 2 * Round d t" "2 * Round d t \<le> 2 * t + d" unfolding e using r by simp_all
qed

lemma Round_unique:
  assumes "0 < d" "d dvd x" "2 * t - d < 2 * x" "2 * x \<le> 2 * t + d"
  shows "Round d t = x"
proof -
  have r: "d dvd Round d t" "2 * t - d < 2 * Round d t" "2 * Round d t \<le> 2 * t + d"
    using assms(1) Round_dvd Round_bounds by blast+
  then obtain k where k: "x - Round d t = d * k" using assms(2) by (meson dvd_diff dvdE)
  have "x - Round d t < d" "- d < x - Round d t" using assms r by linarith+
  with k have "d * k < d * 1" "d * (- 1) < d * k" by simp_all
  with assms(1) have "k < 1" "- 1 < k" by (simp_all only: mult_less_cancel_left_pos)
  then have "k = 0" by simp
  with k show ?thesis by simp
qed

text \<open>The expiration is a multiple of the duration, between half and one and a half durations away.\<close>

lemma Expiration_dvd: "0 < d \<Longrightarrow> d dvd Expiration now d"
  by (simp add: Expiration_def Round_dvd)

lemma Expiration_bounds:
  "0 < d \<Longrightarrow> 2 * now + d < 2 * Expiration now d"
  "0 < d \<Longrightarrow> 2 * Expiration now d \<le> 2 * now + 3 * d"
  using Round_bounds [of d "now + d"] by (simp_all add: Expiration_def)

lemma Expiration_future: "0 < d \<Longrightarrow> now < Expiration now d"
  using Expiration_bounds(1) [of d now] by simp

text \<open>It changes once per duration, at the middle between two multiples.\<close>

lemma Expiration_window:
  assumes "0 < d"
  shows "Expiration s d = Expiration t d \<longleftrightarrow> (2 * s + d) div (2 * d) = (2 * t + d) div (2 * d)"
proof -
  have e: "Expiration u d = d * ((2 * u + d) div (2 * d) + 1)" for u
  proof -
    define q where "q = (2 * u + d) div (2 * d)"
    have "2 * u + d = 2 * d * q + (2 * u + d) mod (2 * d)" by (simp add: q_def)
    moreover have "0 \<le> (2 * u + d) mod (2 * d)" "(2 * u + d) mod (2 * d) < 2 * d" using assms by simp_all
    ultimately have "2 * d * q \<le> 2 * u + d" "2 * u + d < 2 * d * q + 2 * d" by linarith+
    then have "2 * (u + d) - d < 2 * (d * (q + 1))" "2 * (d * (q + 1)) \<le> 2 * (u + d) + d"
      by (simp_all add: algebra_simps)
    then have "Round d (u + d) = d * (q + 1)" using assms by (intro Round_unique) simp_all
    then show ?thesis by (simp add: Expiration_def q_def)
  qed
  show ?thesis unfolding e using assms by simp
qed

lemma Expiration_mono: "0 < d \<Longrightarrow> s \<le> t \<Longrightarrow> Expiration s d \<le> Expiration t d"
proof -
  assume a: "0 < d" "s \<le> t"
  obtain k l where k: "Expiration s d = d * k" "Expiration t d = d * l"
    using Expiration_dvd [OF a(1)] by (metis dvdE)
  have "2 * s + d < 2 * (d * k)" "2 * (d * k) \<le> 2 * s + 3 * d" "2 * t + d < 2 * (d * l)"
    using Expiration_bounds [OF a(1)] unfolding k [symmetric] by blast+
  with a(2) have "d * k < d * (l + 1)" by (simp add: algebra_simps)
  with a(1) have "k < l + 1" by (simp only: mult_less_cancel_left_pos)
  with a(1) show ?thesis unfolding k by simp
qed

section \<open>Properties\<close>

text \<open>
  the expiration of a challenge of duration d is a multiple of d, more than half a duration and
  at most one and a half durations ahead, it never goes back, and two moments get the same expiration
  exactly when they fall into the same window of length d.
\<close>

theorem Expiration_correct:
  assumes "0 < d"
  shows "d dvd Expiration now d \<and> 2 * now + d < 2 * Expiration now d \<and> 2 * Expiration now d \<le> 2 * now + 3 * d \<and>
    (now \<le> later \<longrightarrow> Expiration now d \<le> Expiration later d) \<and>
    (Expiration now d = Expiration later d \<longleftrightarrow> (2 * now + d) div (2 * d) = (2 * later + d) div (2 * d))"
  using assms by (simp add: Expiration_dvd Expiration_bounds Expiration_mono Expiration_window)

theorem Expiration_correct_witness:
  "Expiration 14 10 = 20 \<and> Expiration 15 10 = 30 \<and> (10 :: int) dvd Expiration 14 10 \<and> Expiration 14 10 \<le> Expiration 15 10"
  using Expiration_correct [of 10 14 15] by (simp add: Expiration_def Round_def)

end
