(* ===== verification/Cache.thy ===== *)
theory Cache
  imports Go_Time
begin

text \<open>
  The cache of byte strings on disk (\<open>utils/cache.go\<close>): the interface \<open>Cache\<close> as a locale, a directory
  with one file per key (\<open>dirCache\<close>) and the view of a cache below a prefix (\<open>prefixCache\<close>), which
  satisfies the interface when the cache below it does.
\<close>

section \<open>Joining paths\<close>

text \<open>\<open>path.Clean\<close>, on the segments of a path, and \<open>path.Join\<close> of two elements.\<close>

definition path_segment :: "bool \<Rightarrow> string \<Rightarrow> string list \<Rightarrow> string list" where
  "path_segment rooted s out =
     (if s = [] \<or> s = ''.'' then out
      else if s \<noteq> ''..'' then out @ [s]
      else if out \<noteq> [] \<and> last out \<noteq> ''..'' then butlast out
      else if rooted then out
      else out @ [s])"

definition path_Clean :: "string \<Rightarrow> string" where
  "path_Clean p =
     (if p = [] then ''.''
      else (let rooted = (hd p = CHR ''/'');
                out = (if rooted then ''/'' else []) @ Join ''/'' (fold (path_segment rooted) (Split (CHR ''/'') p) [])
            in if out = [] then ''.'' else out))"

definition path_Join :: "string \<Rightarrow> string \<Rightarrow> string" where
  "path_Join a b =
     (if a = [] \<and> b = [] then []
      else if a = [] then path_Clean b
      else if b = [] then path_Clean a
      else path_Clean (a @ ''/'' @ b))"

section \<open>The file system\<close>

record os_file =
  f_data :: bytes
  f_mtime :: go_time

datatype node = Directory | Regular os_file

type_synonym disk = "(string, node) gomap"

text \<open>
  What the operating system adds to the names and contents: whether a file can be read or created,
  how many of the bytes of a write reach the file, and whether the times of a file can be set.
\<close>

record os =
  os_read :: "string \<Rightarrow> go_error option"
  os_create :: "string \<Rightarrow> go_error option"
  os_write :: "string \<Rightarrow> bytes \<Rightarrow> nat \<times> go_error option"
  os_chtimes :: "string \<Rightarrow> go_error option"

section \<open>The cache in a directory\<close>

definition ErrExpired :: go_error where
  "ErrExpired = Err ''key expired''"

text \<open>\<open>Get\<close> returns bytes and an error, and an expired entry returns both.\<close>

type_synonym cache_answer = "bytes \<times> go_error option"

definition dir_get :: "os \<Rightarrow> string \<Rightarrow> disk \<Rightarrow> go_time \<Rightarrow> string \<Rightarrow> duration \<Rightarrow> cache_answer" where
  "dir_get os d disk now key maxAge =
     (let fname = path_Join d key in
      case mget disk fname of
        None \<Rightarrow> ([], Some (Err (''stat '' @ fname @ '': no such file or directory'')))
      | Some Directory \<Rightarrow> ([], Some (Err ''key is directory''))
      | Some (Regular f) \<Rightarrow>
          (case os_read os fname of
             Some e \<Rightarrow> ([], Some e)
           | None \<Rightarrow> (f_data f, if f_mtime f < now + (- maxAge) then Some ErrExpired else None)))"

definition dir_set :: "os \<Rightarrow> string \<Rightarrow> go_time \<Rightarrow> go_time \<Rightarrow> string \<Rightarrow> bytes \<Rightarrow> disk \<Rightarrow> go_error option \<times> disk" where
  "dir_set os d written now key v disk =
     (let fname = path_Join d key in
      case (if mget disk fname = Some Directory then Some (Err ''is a directory'') else os_create os fname) of
        Some e \<Rightarrow> (Some e, disk)
      | None \<Rightarrow>
          (case os_write os fname v of
             (n, e) \<Rightarrow>
               (e, mset_key fname
                     (Regular \<lparr>f_data = take n v,
                               f_mtime = (if os_chtimes os fname = None then now else written)\<rparr>) disk)))"

definition CacheDirectory :: "disk \<Rightarrow> string \<Rightarrow> go_error + string" where
  "CacheDirectory disk directory =
     (case mget disk directory of
        None \<Rightarrow> Inl (Err (''stat '' @ directory @ '': no such file or directory''))
      | Some (Regular f) \<Rightarrow> Inl (Err ''not a directory'')
      | Some Directory \<Rightarrow> Inr directory)"

section \<open>The cache below a prefix\<close>

definition prefix_get :: "('s \<Rightarrow> go_time \<Rightarrow> string \<Rightarrow> duration \<Rightarrow> cache_answer) \<Rightarrow> string \<Rightarrow>
    's \<Rightarrow> go_time \<Rightarrow> string \<Rightarrow> duration \<Rightarrow> cache_answer" where
  "prefix_get get prefix s now key maxAge = get s now (prefix @ key) maxAge"

definition prefix_set :: "(go_time \<Rightarrow> go_time \<Rightarrow> string \<Rightarrow> bytes \<Rightarrow> 's \<Rightarrow> go_error option \<times> 's) \<Rightarrow> string \<Rightarrow>
    go_time \<Rightarrow> go_time \<Rightarrow> string \<Rightarrow> bytes \<Rightarrow> 's \<Rightarrow> go_error option \<times> 's" where
  "prefix_set put prefix written now key v s = put written now (prefix @ key) v s"

section \<open>The interface\<close>

text \<open>
  The promise of a cache: after a set without error a value is returned, without an error until it is
  too old and with one from then on, and what is stored for keys with another place is left alone.
  \<open>slot\<close> says which keys share a place; \<open>times\<close> relates the two readings of the clock in a set.
\<close>

locale cache =
  fixes get :: "'s \<Rightarrow> go_time \<Rightarrow> string \<Rightarrow> duration \<Rightarrow> cache_answer"
    and put :: "go_time \<Rightarrow> go_time \<Rightarrow> string \<Rightarrow> bytes \<Rightarrow> 's \<Rightarrow> go_error option \<times> 's"
    and slot :: "string \<Rightarrow> string"
  assumes get_put: "put written now key v s = (None, s') \<Longrightarrow> written \<le> now \<Longrightarrow>
       \<exists>t. written \<le> t \<and> t \<le> now \<and>
         (\<forall>later maxAge. get s' later key maxAge = (v, if t < later - maxAge then Some ErrExpired else None))"
    and get_other: "put written now key v s = (e, s') \<Longrightarrow> slot k \<noteq> slot key \<Longrightarrow>
       get s' later k maxAge = get s later k maxAge"
begin

lemma fresh_after_put:
  assumes "put written now key v s = (None, s')" "written \<le> now" "later \<le> written + maxAge"
  shows "get s' later key maxAge = (v, None)"
proof -
  from get_put [OF assms(1,2)] obtain t where t: "written \<le> t"
      and g: "\<And>later maxAge. get s' later key maxAge = (v, if t < later - maxAge then Some ErrExpired else None)"
    by blast
  from t assms(3) have "\<not> t < later - maxAge" by linarith
  then show ?thesis by (simp add: g)
qed

lemma stale_after_put:
  assumes "put written now key v s = (None, s')" "written \<le> now" "now + maxAge < later"
  shows "get s' later key maxAge = (v, Some ErrExpired)"
proof -
  from get_put [OF assms(1,2)] obtain t where t: "t \<le> now"
      and g: "\<And>later maxAge. get s' later key maxAge = (v, if t < later - maxAge then Some ErrExpired else None)"
    by blast
  from t assms(3) have "t < later - maxAge" by linarith
  then show ?thesis by (simp add: g)
qed

end

text \<open>A prefix of a cache is a cache.\<close>

locale prefixed = cache +
  fixes prefix :: string

sublocale prefixed \<subseteq> sub: cache "prefix_get get prefix" "prefix_set put prefix" "\<lambda>k. slot (prefix @ k)"
proof unfold_locales
  fix written now key v s s'
  assume "prefix_set put prefix written now key v s = (None, s')" "written \<le> now"
  then show "\<exists>t. written \<le> t \<and> t \<le> now \<and> (\<forall>later maxAge. prefix_get get prefix s' later key maxAge =
      (v, if t < later - maxAge then Some ErrExpired else None))"
    unfolding prefix_get_def prefix_set_def by (rule get_put)
next
  fix written now key v s e s' k later maxAge
  assume "prefix_set put prefix written now key v s = (e, s')" "slot (prefix @ k) \<noteq> slot (prefix @ key)"
  then show "prefix_get get prefix s' later k maxAge = prefix_get get prefix s later k maxAge"
    unfolding prefix_get_def prefix_set_def by (rule get_other)
qed

text \<open>
  An operating system whose files can be read and that reports short writes: on it the directory is
  a cache.
\<close>

definition honest :: "os \<Rightarrow> os" where
  "honest os = os\<lparr>os_read := \<lambda>_. None,
     os_write := \<lambda>f v. (case os_write os f v of (n, e) \<Rightarrow>
       (n, if n < length v \<and> e = None then Some (Err ''short write'') else e))\<rparr>"

lemma honest_simps [simp]:
  "os_read (honest os) f = None" "os_create (honest os) = os_create os" "os_chtimes (honest os) = os_chtimes os"
  by (simp_all add: honest_def)

lemma honest_write: "os_write (honest os) f v = (n, None) \<Longrightarrow> length v \<le> n"
  by (auto simp: honest_def split: prod.splits if_splits)

lemma dir_set_ok:
  assumes "dir_set os d written now key v disk = (None, disk')" "\<And>n. os_write os (path_Join d key) v = (n, None) \<Longrightarrow> length v \<le> n"
  shows "disk' = mset_key (path_Join d key)
    (Regular \<lparr>f_data = v, f_mtime = (if os_chtimes os (path_Join d key) = None then now else written)\<rparr>) disk"
  using assms by (auto simp: dir_set_def Let_def split: option.splits prod.splits if_splits)

lemma dir_set_disk:
  "dir_set os d written now key v disk = (e, disk') \<Longrightarrow> f \<noteq> path_Join d key \<Longrightarrow> mget disk' f = mget disk f"
  by (auto simp: dir_set_def Let_def split: option.splits prod.splits if_splits)

interpretation dir: cache "dir_get (honest os) d" "dir_set (honest os) d" "path_Join d"
proof unfold_locales
  fix written now key v s s'
  assume p: "dir_set (honest os) d written now key v s = (None, s')" and le: "written \<le> now"
  let ?t = "if os_chtimes os (path_Join d key) = None then now else written"
  have s': "s' = mset_key (path_Join d key) (Regular \<lparr>f_data = v, f_mtime = ?t\<rparr>) s"
    using dir_set_ok [OF p] honest_write by simp
  show "\<exists>t. written \<le> t \<and> t \<le> now \<and> (\<forall>later maxAge. dir_get (honest os) d s' later key maxAge =
      (v, if t < later - maxAge then Some ErrExpired else None))"
    using le by (intro exI [of _ ?t]) (simp add: s' dir_get_def Let_def)
next
  fix written now key v s e s' k later maxAge
  assume "dir_set (honest os) d written now key v s = (e, s')" "path_Join d k \<noteq> path_Join d key"
  then have "mget s' (path_Join d k) = mget s (path_Join d k)" by (rule dir_set_disk)
  then show "dir_get (honest os) d s' later k maxAge = dir_get (honest os) d s later k maxAge"
    by (simp add: dir_get_def)
qed

interpretation below: prefixed "dir_get (honest os) d" "dir_set (honest os) d" "path_Join d" pre for os d pre
  by unfold_locales

text \<open>What is assumed of an operating system: the files can be read and a short write is reported.\<close>

definition sound_os :: "os \<Rightarrow> bool" where
  "sound_os os \<longleftrightarrow> (\<forall>f. os_read os f = None) \<and>
     (\<forall>f v. snd (os_write os f v) = None \<longrightarrow> length v \<le> fst (os_write os f v))"

lemma honest_sound: "sound_os os \<Longrightarrow> honest os = os"
proof -
  assume s: "sound_os os"
  have "(\<lambda>f v. (case os_write os f v of (n, e) \<Rightarrow>
      (n, if n < length v \<and> e = None then Some (Err ''short write'') else e))) = os_write os"
  proof (intro ext)
    fix f v
    obtain n e where w: "os_write os f v = (n, e)" by (cases "os_write os f v")
    from s have "snd (os_write os f v) = None \<longrightarrow> length v \<le> fst (os_write os f v)" by (simp add: sound_os_def)
    then show "(case os_write os f v of (n, e) \<Rightarrow>
        (n, if n < length v \<and> e = None then Some (Err ''short write'') else e)) = os_write os f v"
      by (auto simp: w)
  qed
  moreover from s have "os_read os = (\<lambda>_. None)" by (auto simp: sound_os_def)
  ultimately show ?thesis by (simp add: honest_def)
qed

section \<open>The claim\<close>

text \<open>
  On an operating system that reads its files and reports short writes, what was stored in the cache
  below a prefix of a directory is returned without an error until it is too old, and with the error
  ErrExpired, but still with its bytes, from then on.
\<close>

theorem cache_returns_stored:
  assumes "sound_os os" "written \<le> now"
    and "prefix_set (dir_set os d) pre written now key v disk = (None, disk')"
    and "later \<le> written + maxAge \<or> now + maxAge < later"
  shows "prefix_get (dir_get os d) pre disk' later key maxAge =
    (v, if later \<le> written + maxAge then None else Some ErrExpired)"
proof -
  have p: "prefix_set (dir_set (honest os) d) pre written now key v disk = (None, disk')"
    using assms(1,3) by (simp add: honest_sound)
  show ?thesis
    using assms below.sub.fresh_after_put [OF p assms(2)] below.sub.stale_after_put [OF p assms(2)]
    by (auto simp: honest_sound)
qed

definition test_os :: os where
  "test_os = \<lparr>os_read = \<lambda>_. None, os_create = \<lambda>_. None, os_write = \<lambda>_ v. (length v, None), os_chtimes = \<lambda>_. None\<rparr>"

theorem cache_returns_stored_witness:
  "prefix_get (dir_get test_os ''/cache'') ''networks/''
     (snd (prefix_set (dir_set test_os ''/cache'') ''networks/'' 10 11 ''a'' [1, 2] [])) 100 ''a'' 50 =
   ([1, 2], Some ErrExpired)"
proof -
  define s where "s = prefix_set (dir_set test_os ''/cache'') ''networks/'' 10 11 ''a'' [1, 2] []"
  have n: "fst s = None" by (simp add: s_def prefix_set_def dir_set_def test_os_def Let_def)
  have "prefix_get (dir_get test_os ''/cache'') ''networks/'' (snd s) 100 ''a'' 50 =
      ([1, 2], if (100 :: int) \<le> 10 + 50 then None else Some ErrExpired)"
  proof (rule cache_returns_stored)
    show "prefix_set (dir_set test_os ''/cache'') ''networks/'' 10 11 ''a'' [1, 2] [] = (None, snd s)"
      using n by (simp add: s_def prod_eq_iff)
  qed (simp_all add: sound_os_def test_os_def)
  then show ?thesis by (simp add: s_def)
qed

end
