(* ===== verification/Strconv.thy ===== *)
theory Strconv
  imports Prelude
begin

text \<open>
  Numbers in text, as Go's \<open>strconv\<close> reads and prints them: \<open>ParseUint(s, 10, bits)\<close>,
  \<open>FormatUint\<close> (the function \<open>decimal\<close> of the prelude), \<open>FormatInt\<close> and \<open>%04x\<close>.
\<close>

definition is_digit :: "char \<Rightarrow> bool" where
  "is_digit c \<longleftrightarrow> 48 \<le> (of_char c :: nat) \<and> (of_char c :: nat) \<le> 57"

definition digit_value :: "char \<Rightarrow> nat" where
  "digit_value c = of_char c - 48"

fun parse_digits :: "nat \<Rightarrow> nat \<Rightarrow> string \<Rightarrow> nat option" where
  "parse_digits bound n [] = Some n"
| "parse_digits bound n (c # s) =
     (if is_digit c
      then (let m = 10 * n + digit_value c in if m < bound then parse_digits bound m s else None)
      else None)"

definition ParseUint :: "nat \<Rightarrow> string \<Rightarrow> nat option" where
  "ParseUint bits s = (if s = [] then None else parse_digits (2 ^ bits) 0 s)"

definition FormatInt :: "int \<Rightarrow> string" where
  "FormatInt i = (if i < 0 then CHR ''-'' # decimal (nat (- i)) else decimal (nat i))"

lemma is_digit_char [simp]: "d < 10 \<Longrightarrow> is_digit (digit_char d)" "d < 10 \<Longrightarrow> digit_value (digit_char d) = d"
  by (simp_all add: is_digit_def digit_value_def digit_char_range)

lemma parse_digits_append:
  "parse_digits bound n (s @ t) =
     (case parse_digits bound n s of None \<Rightarrow> None | Some m \<Rightarrow> parse_digits bound m t)"
  by (induction s arbitrary: n) (auto simp: Let_def)

lemma parse_digits_decimal: "n < bound \<Longrightarrow> parse_digits bound 0 (decimal n) = Some n"
proof (induction n rule: decimal.induct)
  case (1 n)
  show ?case
  proof (cases "n < 10")
    case True
    with "1.prems" show ?thesis by (subst decimal.simps) simp
  next
    case False
    have "n div 10 < bound" using "1.prems" False by simp
    with False "1.IH" have "parse_digits bound 0 (decimal (n div 10)) = Some (n div 10)" by simp
    with False "1.prems" show ?thesis
      by (subst decimal.simps) (simp add: parse_digits_append Let_def)
  qed
qed

lemma ParseUint_decimal [simp]: "n < 2 ^ bits \<Longrightarrow> ParseUint bits (decimal n) = Some n"
  by (simp add: ParseUint_def parse_digits_decimal)

lemma parse_digits_bound: "parse_digits bound n s = Some m \<Longrightarrow> n < bound \<Longrightarrow> m < bound"
  by (induction s arbitrary: n) (auto simp: Let_def split: if_splits)

lemma ParseUint_bound: "ParseUint bits s = Some m \<Longrightarrow> m < 2 ^ bits"
  by (auto simp: ParseUint_def split: if_splits intro: parse_digits_bound)

lemma decimal_is_digit: "c \<in> set (decimal n) \<Longrightarrow> is_digit c"
  using decimal_digits by (simp add: is_digit_def)

lemma decimal_hd_zero: "decimal n = CHR ''0'' # s \<Longrightarrow> s = []"
proof (induction n arbitrary: s rule: decimal.induct)
  case (1 n)
  show ?case
  proof (cases "n < 10")
    case True
    with "1.prems" show ?thesis by (subst (asm) decimal.simps) simp
  next
    case False
    obtain c t where d: "decimal (n div 10) = c # t" by (cases "decimal (n div 10)") auto
    with False "1.prems" have c: "c = CHR ''0''" by (subst (asm) decimal.simps) simp
    with d False "1.IH" have "t = []" by simp
    with d c have "n div 10 = 0"
      using parse_digits_decimal [of "n div 10" "Suc (n div 10)"]
      by (simp add: is_digit_def digit_value_def)
    with False show ?thesis by simp
  qed
qed

lemma decimal_inj [simp]: "decimal a = decimal b \<longleftrightarrow> a = b"
  by (metis ParseUint_def decimal_nonempty lessI less_trans_Suc linorder_neqE_nat option.inject
      parse_digits_decimal less_Suc_eq)

text \<open>The number of digits.\<close>

lemma decimal_length: "n < 10 ^ k \<Longrightarrow> 0 < k \<Longrightarrow> length (decimal n) \<le> k"
proof (induction k arbitrary: n)
  case (Suc k)
  show ?case
  proof (cases "n < 10")
    case True
    then show ?thesis by (subst decimal.simps) simp
  next
    case False
    with Suc.prems have "0 < k" "n div 10 < 10 ^ k" by (cases k; simp)+
    with Suc.IH [of "n div 10"] False show ?thesis by (subst decimal.simps) simp
  qed
qed simp

end
