(* ===== verification/Radb.thy ===== *)
theory Radb
  imports Strconv
begin

unbundle bit_operations_syntax

text \<open>
  Addresses and networks as Go's \<open>net\<close> package has them, and the queries to the routing database
  (\<open>utils/radb.go\<close>): the records of a reply, and the networks of an autonomous system.
\<close>

section \<open>Addresses and networks\<close>

type_synonym ip = bytes

record ip_net =
  n_ip :: ip
  n_mask :: bytes

text \<open>\<open>IP.To4\<close>: an address of four bytes, or the one that sixteen bytes embed.\<close>

definition To4 :: "ip \<Rightarrow> ip option" where
  "To4 ip =
     (if length ip = 4 then Some ip
      else if length ip = 16 \<and> take 12 ip = replicate 10 0 @ [255, 255] then Some (drop 12 ip)
      else None)"

definition CIDRMask :: "nat \<Rightarrow> nat \<Rightarrow> bytes" where
  "CIDRMask ones bits =
     (if bits \<noteq> 32 \<and> bits \<noteq> 128 \<or> ones > bits then []
      else map (\<lambda>i. NOT (drop_bit (min 8 (ones - 8 * i)) 255)) [0..<bits div 8])"

text \<open>The network number with a mask of the same length, and \<open>IPNet.Contains\<close>.\<close>

definition network_number :: "ip_net \<Rightarrow> (bytes \<times> bytes) option" where
  "network_number n =
     (case (case To4 (n_ip n) of Some ip4 \<Rightarrow> Some ip4 | None \<Rightarrow> if length (n_ip n) = 16 then Some (n_ip n) else None) of
        None \<Rightarrow> None
      | Some ip \<Rightarrow>
          (if length (n_mask n) = 4 then (if length ip = 4 then Some (ip, n_mask n) else None)
           else if length (n_mask n) = 16 then Some (ip, if length ip = 4 then drop 12 (n_mask n) else n_mask n)
           else None))"

definition plain_ip :: "ip \<Rightarrow> ip" where
  "plain_ip ip = (case To4 ip of Some ip4 \<Rightarrow> ip4 | None \<Rightarrow> ip)"

definition Contains :: "ip_net \<Rightarrow> ip \<Rightarrow> bool" where
  "Contains n ip =
     (case (case network_number n of None \<Rightarrow> ([], []) | Some nm \<Rightarrow> nm) of
        (nn, m) \<Rightarrow>
          length (plain_ip ip) = length nn \<and> map2 (AND) nn m = map2 (AND) (plain_ip ip) m)"

text \<open>The network of a single address.\<close>

definition single_ip :: "ip \<Rightarrow> ip_net" where
  "single_ip ip = \<lparr>n_ip = plain_ip ip, n_mask = CIDRMask (length (plain_ip ip) * 8) (length (plain_ip ip) * 8)\<rparr>"

lemma To4_length: "To4 ip = Some x \<Longrightarrow> length x = 4"
  by (auto simp: To4_def split: if_splits)

lemma To4_plain: "length (plain_ip ip) = 4 \<Longrightarrow> To4 (plain_ip ip) = Some (plain_ip ip)"
  by (simp add: To4_def)

lemma plain_ip_4: "length ip = 4 \<Longrightarrow> plain_ip ip = ip"
  by (simp add: plain_ip_def To4_def)

lemma plain_ip_idem [simp]: "plain_ip (plain_ip ip) = plain_ip ip"
  by (auto simp: plain_ip_def To4_def)

lemma plain_ip_length: "length ip = 4 \<or> length ip = 16 \<Longrightarrow> length (plain_ip ip) = 4 \<or> length (plain_ip ip) = 16"
  by (auto simp: plain_ip_def dest: To4_length split: option.splits)

lemma byte_full: "NOT (drop_bit 8 (255 :: byte)) = 255"
proof -
  have "drop_bit 8 (255 :: byte) = 0" by (simp add: drop_bit_eq_div)
  then show ?thesis by simp
qed

lemma full_mask:
  assumes "bits = 32 \<or> bits = 128"
  shows "CIDRMask bits bits = replicate (bits div 8) 255"
proof -
  have "map (\<lambda>i. NOT (drop_bit (min 8 (bits - 8 * i)) (255 :: byte))) [0..<bits div 8] =
      map (\<lambda>i. 255) [0..<bits div 8]"
  proof (rule map_cong [OF refl])
    fix i assume "i \<in> set [0..<bits div 8]"
    then have "min 8 (bits - 8 * i) = 8" using assms by auto
    then show "NOT (drop_bit (min 8 (bits - 8 * i)) (255 :: byte)) = 255" by (simp only: byte_full)
  qed
  with assms show ?thesis by (auto simp: CIDRMask_def map_replicate_const)
qed

lemma map2_and_full:
  fixes nn :: bytes
  shows "length nn \<le> k \<Longrightarrow> map2 (AND) nn (replicate k 255) = nn"
proof (induction nn arbitrary: k)
  case Nil
  then show ?case by simp
next
  case (Cons b nn)
  have "b AND 255 = b"
  proof -
    have "(255 :: byte) = - 1" by simp
    then show ?thesis by (simp only: and.right_neutral)
  qed
  with Cons show ?case by (cases k) simp_all
qed

lemma number_single:
  assumes "length ip = 4 \<or> length ip = 16"
  shows "network_number (single_ip ip) = Some (plain_ip ip, replicate (length (plain_ip ip)) 255)"
proof (cases "length (plain_ip ip) = 4")
  case True
  then show ?thesis by (simp add: network_number_def single_ip_def To4_plain full_mask)
next
  case False
  with plain_ip_length [OF assms] have l: "length (plain_ip ip) = 16" by simp
  have "To4 (plain_ip ip) = None"
  proof (rule ccontr)
    assume "To4 (plain_ip ip) \<noteq> None"
    then obtain x where x: "To4 (plain_ip ip) = Some x" by auto
    then have "plain_ip (plain_ip ip) = x" by (simp add: plain_ip_def)
    with x l show False by (auto dest: To4_length)
  qed
  with l show ?thesis by (simp add: network_number_def single_ip_def full_mask)
qed

lemma Contains_single:
  assumes "length ip = 4 \<or> length ip = 16"
  shows "Contains (single_ip ip) x \<longleftrightarrow> plain_ip x = plain_ip ip"
  unfolding Contains_def number_single [OF assms]
  by (auto simp: map2_and_full)

section \<open>A query\<close>

text \<open>
  What the connection does: the answer to dialling and to each write, the lines that the scanner
  delivers, the error it ends with, and whether the last line was cut off by that error.
\<close>

record radb_conn =
  rc_dial :: "go_error option"
  rc_write :: "nat \<Rightarrow> string \<Rightarrow> go_error option"
  rc_lines :: "bytes list"
  rc_err :: "go_error option"
  rc_partial :: bool

definition newline :: char where "newline = char_of (10 :: nat)"

definition trim_crlf :: "bytes \<Rightarrow> bytes" where
  "trim_crlf b =
     (let crlf = (\<lambda>c. c = 13 \<or> c = 10) in rev (dropWhile crlf (rev (dropWhile crlf b))))"

definition is_space :: "char \<Rightarrow> bool" where
  "is_space c \<longleftrightarrow> (of_char c :: nat) \<in> {9, 10, 11, 12, 13, 32}"

text \<open>\<open>strings.TrimSpace\<close> of a text in ASCII.\<close>

definition trim_space :: "string \<Rightarrow> string" where
  "trim_space s = rev (dropWhile is_space (rev (dropWhile is_space s)))"

definition end_of_record :: "bytes \<Rightarrow> bool" where
  "end_of_record buf \<longleftrightarrow> take 1 buf = [37] \<or> buf = [67]"

text \<open>The lines of one record: the result, the lines left, and whether the scanner ran out of lines.\<close>

fun scan_record :: "(nat \<Rightarrow> bytes \<Rightarrow> 'a \<Rightarrow> go_error + 'a) \<Rightarrow> nat \<Rightarrow> bytes list \<Rightarrow> 'a \<Rightarrow>
    (go_error + 'a) \<times> bytes list \<times> bool" where
  "scan_record fn n [] a = (Inr a, [], True)"
| "scan_record fn n (l # ls) a =
     (let buf = trim_crlf l in
      if end_of_record buf then (Inr a, ls, False)
      else (case fn n buf a of
          Inl e \<Rightarrow> (Inl e, ls, False)
        | Inr a1 \<Rightarrow> scan_record fn (Suc n) ls a1))"

definition scanner_err :: "radb_conn \<Rightarrow> bytes list \<Rightarrow> bool \<Rightarrow> go_error option" where
  "scanner_err conn ls exhausted = (if exhausted \<or> ls = [] \<and> rc_partial conn then rc_err conn else None)"

fun query_loop :: "radb_conn \<Rightarrow> (nat \<Rightarrow> bytes \<Rightarrow> 'a \<Rightarrow> go_error + 'a) \<Rightarrow> nat \<Rightarrow> string list \<Rightarrow> bytes list \<Rightarrow>
    'a \<Rightarrow> go_error + nat \<times> 'a" where
  "query_loop conn fn w [] ls a = Inr (w, a)"
| "query_loop conn fn w (q # qs) ls a =
     (case rc_write conn w (trim_space q @ [newline]) of
        Some e \<Rightarrow> Inl e
      | None \<Rightarrow>
          (case scan_record fn 0 ls a of
             (Inl e, _, _) \<Rightarrow> Inl e
           | (Inr a1, ls1, exhausted) \<Rightarrow>
               (case scanner_err conn ls1 exhausted of
                  Some e \<Rightarrow> Inl e
                | None \<Rightarrow> query_loop conn fn (Suc w) qs ls1 a1)))"

definition radb_query :: "radb_conn \<Rightarrow> (nat \<Rightarrow> bytes \<Rightarrow> 'a \<Rightarrow> go_error + 'a) \<Rightarrow> string list \<Rightarrow> 'a \<Rightarrow> go_error + 'a" where
  "radb_query conn fn queries a =
     (case rc_dial conn of
        Some e \<Rightarrow> Inl e
      | None \<Rightarrow>
          (case (if length queries > 1 then rc_write conn 0 (''!!'' @ [newline]) else None) of
             Some e \<Rightarrow> Inl e
           | None \<Rightarrow>
               (case query_loop conn fn (if length queries > 1 then 1 else 0) queries (rc_lines conn) a of
                  Inl e \<Rightarrow> Inl e
                | Inr (w, a1) \<Rightarrow>
                    (case (if length queries > 1 then rc_write conn w (''q'' @ [newline]) else None) of
                       Some e \<Rightarrow> Inl e
                     | None \<Rightarrow> Inr a1))))"

section \<open>The two requests\<close>

definition FetchIPInfo :: "(ip_net \<Rightarrow> string) \<Rightarrow> radb_conn \<Rightarrow> ip \<Rightarrow> go_error + string list" where
  "FetchIPInfo net_string conn ip =
     radb_query conn (\<lambda>n record result. Inr (result @ [string_of record]))
       [''!r'' @ net_string (single_ip ip) @ '',l''] []"

definition asn_record :: "nat \<Rightarrow> bytes \<Rightarrow> bytes \<Rightarrow> go_error + bytes" where
  "asn_record n record data =
     Inr (if n = 0 then data else (if n = 1 then data @ [32] else data) @ record)"

text \<open>The texts that the regular expression of routes finds are parsed; one that does not parse is an error.\<close>

fun parse_routes :: "(string \<Rightarrow> go_error + ip_net) \<Rightarrow> string list \<Rightarrow> go_error + ip_net list" where
  "parse_routes cidr [] = Inr []"
| "parse_routes cidr (s # ss) =
     (case cidr s of
        Inl e \<Rightarrow> Inl (Wrap (''invalid CIDR '' @ s) e)
      | Inr n \<Rightarrow> (case parse_routes cidr ss of Inl e \<Rightarrow> Inl e | Inr ns \<Rightarrow> Inr (n # ns)))"

definition FetchASNets ::
    "(string \<Rightarrow> go_error + ip_net) \<Rightarrow> (bytes \<Rightarrow> string list) \<Rightarrow> radb_conn \<Rightarrow> int \<Rightarrow> go_error + ip_net list" where
  "FetchASNets cidr routes conn asn =
     (case radb_query conn asn_record [''!gas'' @ FormatInt asn, ''!6as'' @ FormatInt asn] [] of
        Inl e \<Rightarrow> Inl e
      | Inr data \<Rightarrow> parse_routes cidr (routes data))"

section \<open>Lemmas\<close>

lemma scan_record_reply:
  assumes "trim_crlf header = header" "\<not> end_of_record header" "trim_crlf body = body" "\<not> end_of_record body"
  shows "scan_record asn_record 0 (header # body # [67] # ls) data = (Inr (data @ [32] @ body), ls, False)"
  using assms by (simp add: asn_record_def end_of_record_def trim_crlf_def)

text \<open>A reply whose record is two lines, the length of the data and the data.\<close>

definition reply :: "bytes \<Rightarrow> bytes \<Rightarrow> bytes list" where
  "reply header body = [header, body, [67]]"

definition data_line :: "bytes \<Rightarrow> bool" where
  "data_line l \<longleftrightarrow> trim_crlf l = l \<and> \<not> end_of_record l"

section \<open>The claim\<close>

text \<open>
  When the connection works and the two queries are answered with a header line and a line of data
  each, the networks of an autonomous system are those of the routes in the data of both replies, the
  data separated by spaces, and one route that does not parse makes the result an error.
\<close>

theorem FetchASNets_replies:
  assumes "rc_dial conn = None" "\<And>w s. rc_write conn w s = None"
    and "rc_lines conn = reply hA dA @ reply hB dB @ rest" "\<not> rc_partial conn"
    and "filter (\<lambda>l. \<not> data_line l) [hA, dA, hB, dB] = []"
  shows "FetchASNets cidr routes conn asn = parse_routes cidr (routes ([32] @ dA @ [32] @ dB))"
proof -
  have l: "data_line hA" "data_line dA" "data_line hB" "data_line dB"
    using assms(5) by (auto split: if_splits)
  have s: "scan_record asn_record 0 (reply h d @ ls) data = (Inr (data @ [32] @ d), ls, False)"
    if "data_line h" "data_line d" for h d ls data
    using that scan_record_reply [of h d ls data] by (simp add: reply_def data_line_def)
  show ?thesis
    unfolding FetchASNets_def radb_query_def
    by (simp add: assms(1-4) s l scanner_err_def)
qed

definition test_conn :: radb_conn where
  "test_conn = \<lparr>rc_dial = None, rc_write = \<lambda>_ _. None,
     rc_lines = reply (bytes_of ''A9'') (bytes_of ''1.0.0.0/8'') @ reply (bytes_of ''A6'') (bytes_of ''2::/16''),
     rc_err = None, rc_partial = False\<rparr>"

theorem FetchASNets_replies_witness:
  "FetchASNets (\<lambda>s. Inr \<lparr>n_ip = bytes_of s, n_mask = []\<rparr>) (\<lambda>b. [string_of b]) test_conn 64500 =
     Inr [\<lparr>n_ip = bytes_of '' 1.0.0.0/8 2::/16'', n_mask = []\<rparr>]"
proof -
  have "FetchASNets (\<lambda>s. Inr \<lparr>n_ip = bytes_of s, n_mask = []\<rparr>) (\<lambda>b. [string_of b]) test_conn 64500 =
      parse_routes (\<lambda>s. Inr \<lparr>n_ip = bytes_of s, n_mask = []\<rparr>)
        [string_of ([32] @ bytes_of ''1.0.0.0/8'' @ [32] @ bytes_of ''2::/16'')]"
    by (rule FetchASNets_replies [where hA = "bytes_of ''A9''" and hB = "bytes_of ''A6''" and rest = "[]"])
      (simp_all add: test_conn_def data_line_def trim_crlf_def end_of_record_def byte_of_def)
  moreover have "char_of_byte 32 = CHR '' ''" by (simp add: char_of_byte_def) code_simp
  ultimately show ?thesis by simp
qed

text \<open>
  The network of a single address, of four or of sixteen bytes, contains that address and no other,
  where an IPv4 address and its sixteen bytes count as the same.
\<close>

theorem single_address_network:
  assumes "length a = 4 \<or> length a = 16"
  shows "Contains (single_ip a) x \<longleftrightarrow> plain_ip x = plain_ip a"
  using assms by (rule Contains_single)

theorem single_address_network_witness:
  "Contains (single_ip [127, 0, 0, 1]) (replicate 10 0 @ [255, 255, 127, 0, 0, 1])"
  using single_address_network [of "[127, 0, 0, 1]" "replicate 10 0 @ [255, 255, 127, 0, 0, 1]"]
  by (simp add: plain_ip_def To4_def numeral_eq_Suc)

end
