(* ===== verification/Networks.thy ===== *)
theory Networks
  imports Hex Cache Radb
begin

unbundle bit_operations_syntax

text \<open>
  The networks of the policy: the prefixes of one entry of a network (\<open>lib/policy/network.go\<close>), and the
  loading of a network through the cache (the networks of \<open>NewState\<close>, \<open>lib/state.go\<close>).
\<close>

section \<open>The prefixes of an entry\<close>

record network_entry =
  nw_Url :: "string option"
  nw_File :: "string option"
  nw_ASN :: "int option"
  nw_JqPath :: "string option"
  nw_Regex :: "string option"
  nw_Prefixes :: "string list"

datatype jq_value = JqString string | JqOther string

record regex =
  re_subexp :: "nat option"
  re_find_all :: "bytes \<Rightarrow> bytes list list"

text \<open>
  What the fetching relies on: the parser of addresses, the answers of the network and of the file
  system, and the libraries for JSON, jq and regular expressions. A body can fail while it is read.
\<close>

record 'j fetchers =
  fe_cidr :: "string \<Rightarrow> go_error + ip_net"
  fe_ip :: "string \<Rightarrow> ip option"
  fe_http :: "string \<Rightarrow> go_error + nat \<times> (go_error + bytes)"
  fe_file :: "string \<Rightarrow> go_error + (go_error + bytes)"
  fe_radb :: "int \<Rightarrow> radb_conn"
  fe_routes :: "bytes \<Rightarrow> string list"
  fe_json :: "bytes \<Rightarrow> go_error + 'j"
  fe_jq :: "string \<Rightarrow> go_error + ('j \<Rightarrow> jq_value list)"
  fe_regexp :: "string \<Rightarrow> go_error + regex"

definition parseCIDROrIP :: "'j fetchers \<Rightarrow> string \<Rightarrow> go_error + ip_net" where
  "parseCIDROrIP fe value =
     (case fe_cidr fe value of
        Inl e \<Rightarrow>
          (case fe_ip fe value of
             None \<Rightarrow> Inl (Err (''failed to parse CIDR: '' @ error_text e))
           | Some ip \<Rightarrow> Inr (single_ip ip))
      | Inr n \<Rightarrow> Inr n)"

fun add_prefixes :: "'j fetchers \<Rightarrow> string list \<Rightarrow> ip_net list \<Rightarrow> go_error + ip_net list" where
  "add_prefixes fe [] out = Inr out"
| "add_prefixes fe (p # ps) out =
     (case parseCIDROrIP fe p of Inl e \<Rightarrow> Inl e | Inr n \<Rightarrow> add_prefixes fe ps (out @ [n]))"

fun add_jq :: "'j fetchers \<Rightarrow> jq_value list \<Rightarrow> ip_net list \<Rightarrow> go_error + ip_net list" where
  "add_jq fe [] out = Inr out"
| "add_jq fe (JqOther v # vs) out = Inl (Err (''invalid value from jq-query: '' @ v))"
| "add_jq fe (JqString s # vs) out =
     (case parseCIDROrIP fe s of Inl e \<Rightarrow> Inl e | Inr n \<Rightarrow> add_jq fe vs (out @ [n]))"

text \<open>The prefixes in the bytes that were read, by the jq query or the regular expression of the entry.\<close>

definition extract_prefixes :: "'j fetchers \<Rightarrow> network_entry \<Rightarrow> bytes \<Rightarrow> ip_net list \<Rightarrow> go_error + ip_net list" where
  "extract_prefixes fe n data out =
     (case (nw_JqPath n, nw_Regex n) of
        (Some path, _) \<Rightarrow>
          (case fe_json fe data of
             Inl e \<Rightarrow> Inl e
           | Inr json \<Rightarrow> (case fe_jq fe path of Inl e \<Rightarrow> Inl e | Inr run \<Rightarrow> add_jq fe (run json) out))
      | (None, Some r) \<Rightarrow>
          (case fe_regexp fe r of
             Inl e \<Rightarrow> Inl e
           | Inr re \<Rightarrow>
               (case re_subexp re of
                  None \<Rightarrow> Inl (Err (''invalid regex '' @ r @ '': could not find prefix named match''))
                | Some i \<Rightarrow> add_prefixes fe (map (\<lambda>m. string_of (m ! i)) (re_find_all re data)) out))
      | (None, None) \<Rightarrow> Inl (Err ''no jq-path or regex specified''))"

definition read_then :: "(bytes \<Rightarrow> go_error + 'a) \<Rightarrow> go_error + bytes \<Rightarrow> go_error + 'a" where
  "read_then k r = (case r of Inl e \<Rightarrow> Inl e | Inr data \<Rightarrow> k data)"

definition FetchPrefixes :: "'j fetchers \<Rightarrow> network_entry \<Rightarrow> go_error + ip_net list" where
  "FetchPrefixes fe n =
     (case add_prefixes fe (nw_Prefixes n) [] of
        Inl e \<Rightarrow> Inl e
      | Inr output \<Rightarrow>
          (case (nw_Url n, nw_File n, nw_ASN n) of
             (Some url, _, _) \<Rightarrow>
               (case fe_http fe url of
                  Inl e \<Rightarrow> Inl e
                | Inr (status, body) \<Rightarrow>
                    (if status \<noteq> 200 then Inl (Err (''unexpected status code: '' @ decimal status))
                     else read_then (\<lambda>data. extract_prefixes fe n data output) body))
           | (None, Some f, _) \<Rightarrow>
               (case fe_file fe f of
                  Inl e \<Rightarrow> Inl e
                | Inr content \<Rightarrow> read_then (\<lambda>data. extract_prefixes fe n data output) content)
           | (None, None, Some asn) \<Rightarrow>
               (case FetchASNets (fe_cidr fe) (fe_routes fe) (fe_radb fe asn) asn of
                  Inl e \<Rightarrow> Inl (Err (''failed to fetch ASN '' @ FormatInt asn @ '': '' @ error_text e))
                | Inr result \<Rightarrow> Inr result)
           | (None, None, None) \<Rightarrow>
               (if output \<noteq> [] then Inr output else Inl (Err ''no url, file or prefixes specified''))))"

section \<open>Loading a network\<close>

text \<open>
  The cache, if there is one, with its state; the texts of a network (\<open>IPNet.String\<close>) and of the list
  that is stored; and the set of networks of the library \<open>cidranger\<close>.
\<close>

record 'd cache_ops =
  ca_get :: "'d \<Rightarrow> go_time \<Rightarrow> string \<Rightarrow> duration \<Rightarrow> cache_answer"
  ca_set :: "go_time \<Rightarrow> go_time \<Rightarrow> string \<Rightarrow> bytes \<Rightarrow> 'd \<Rightarrow> go_error option \<times> 'd"

record 'r ranger_ops =
  ra_new :: 'r
  ra_insert :: "ip_net \<Rightarrow> 'r \<Rightarrow> go_error option \<times> 'r"
  ra_contains :: "'r \<Rightarrow> ip \<Rightarrow> go_error + bool"

record net_text =
  nt_string :: "ip_net \<Rightarrow> string"
  nt_encode :: "string list \<Rightarrow> go_error + bytes"
  nt_decode :: "bytes \<Rightarrow> string list"
  nt_sha256 :: "bytes \<Rightarrow> bytes"

definition cache_key :: "net_text \<Rightarrow> string \<Rightarrow> nat \<Rightarrow> network_entry \<Rightarrow> string" where
  "cache_key nt k i e =
     k @ ''-'' @ decimal i @ ''-'' @
     (case (nw_Url e, nw_ASN e) of
        (Some url, _) \<Rightarrow> hex_encode (take 4 (nt_sha256 nt (bytes_of url)))
      | (None, Some asn) \<Rightarrow> FormatInt asn
      | (None, None) \<Rightarrow> [])"

definition use_cache :: "network_entry \<Rightarrow> bool" where
  "use_cache e \<longleftrightarrow> nw_Url e \<noteq> None \<or> nw_ASN e \<noteq> None"

text \<open>The texts of the list that do not parse are left out.\<close>

definition parse_cached :: "'j fetchers \<Rightarrow> net_text \<Rightarrow> bytes \<Rightarrow> ip_net list" where
  "parse_cached fe nt data =
     concat (map (\<lambda>s. case fe_cidr fe s of Inl e \<Rightarrow> [] | Inr n \<Rightarrow> [n]) (nt_decode nt data))"

definition day :: duration where "day = 24 * hour"

text \<open>
  The prefixes of one entry: a list and an error, as the code returns them, with the state of the
  cache. The times are the ones at which the cache is asked and written.
\<close>

definition store_prefixes ::
    "net_text \<Rightarrow> 'd cache_ops \<Rightarrow> go_time \<Rightarrow> go_time \<Rightarrow> string \<Rightarrow> ip_net list \<Rightarrow> 'd \<Rightarrow> 'd" where
  "store_prefixes nt ca written now key prefixes d =
     (case nt_encode nt (map (nt_string nt) prefixes) of
        Inl e \<Rightarrow> d
      | Inr data \<Rightarrow> snd (ca_set ca written now key data d))"

definition fetch_entry ::
    "'j fetchers \<Rightarrow> net_text \<Rightarrow> 'd cache_ops option \<Rightarrow> go_time \<Rightarrow> go_time \<Rightarrow> string \<Rightarrow>
       network_entry \<Rightarrow> ip_net list \<Rightarrow> 'd \<Rightarrow> (ip_net list \<times> go_error option) \<times> 'd" where
  "fetch_entry fe nt nc written now key e cached d =
     (case FetchPrefixes fe e of
        Inl err \<Rightarrow> ((if cached \<noteq> [] then cached else [], Some err), d)
      | Inr prefixes \<Rightarrow>
          ((prefixes, None),
           if use_cache e then (case nc of None \<Rightarrow> d | Some ca \<Rightarrow> store_prefixes nt ca written now key prefixes d)
           else d))"

definition entry_prefixes ::
    "'j fetchers \<Rightarrow> net_text \<Rightarrow> 'd cache_ops option \<Rightarrow> go_time \<Rightarrow> go_time \<Rightarrow> go_time \<Rightarrow> string \<Rightarrow>
       network_entry \<Rightarrow> 'd \<Rightarrow> (ip_net list \<times> go_error option) \<times> 'd" where
  "entry_prefixes fe nt nc asked written now key e d =
     (case (if use_cache e then nc else None) of
        Some ca \<Rightarrow>
          (case ca_get ca d asked key day of
             (cachedData, err) \<Rightarrow>
               (let cached = parse_cached fe nt cachedData in
                if err = None then ((cached, None), d)
                else fetch_entry fe nt nc written now key e cached d))
      | None \<Rightarrow> fetch_entry fe nt nc written now key e [] d)"

text \<open>An insertion that fails is reported and the loop goes on; an entry with an error is left out.\<close>

fun insert_all :: "'r ranger_ops \<Rightarrow> ip_net list \<Rightarrow> 'r \<Rightarrow> 'r" where
  "insert_all ra [] r = r"
| "insert_all ra (p # ps) r = insert_all ra ps (snd (ra_insert ra p r))"

text \<open>
  What the rest of the world answers while the entry with an index is loaded, and the three times.
\<close>

type_synonym 'j moment = "'j fetchers \<times> go_time \<times> go_time \<times> go_time"

fun load_entries ::
    "(nat \<Rightarrow> 'j moment) \<Rightarrow> net_text \<Rightarrow> 'd cache_ops option \<Rightarrow> 'r ranger_ops \<Rightarrow> string \<Rightarrow> nat \<Rightarrow>
       network_entry list \<Rightarrow> 'r \<Rightarrow> 'd \<Rightarrow> 'r \<times> 'd" where
  "load_entries at nt nc ra k i [] r d = (r, d)"
| "load_entries at nt nc ra k i (e # es) r d =
     (case at i of
        (fe, asked, written, now) \<Rightarrow>
          (case entry_prefixes fe nt nc asked written now (cache_key nt k i e) e d of
             ((prefixes, err), d1) \<Rightarrow>
               (if err \<noteq> None then load_entries at nt nc ra k (Suc i) es r d1
                else load_entries at nt nc ra k (Suc i) es (insert_all ra prefixes r) d1)))"

definition load_network ::
    "(nat \<Rightarrow> 'j moment) \<Rightarrow> net_text \<Rightarrow> 'd cache_ops option \<Rightarrow> 'r ranger_ops \<Rightarrow> string \<Rightarrow>
       network_entry list \<Rightarrow> 'd \<Rightarrow> 'r \<times> 'd" where
  "load_network at nt nc ra k network d = load_entries at nt nc ra k 0 network (ra_new ra) d"

text \<open>\<open>CachePrefix\<close> keeps the absence of a cache.\<close>

definition CachePrefix :: "'d cache_ops option \<Rightarrow> string \<Rightarrow> 'd cache_ops option" where
  "CachePrefix c prefix =
     map_option (\<lambda>ca. \<lparr>ca_get = prefix_get (ca_get ca) prefix, ca_set = prefix_set (ca_set ca) prefix\<rparr>) c"

definition dir_cache :: "os \<Rightarrow> string \<Rightarrow> disk cache_ops" where
  "dir_cache os d = \<lparr>ca_get = dir_get os d, ca_set = dir_set os d\<rparr>"

section \<open>Lemmas\<close>

lemma add_prefixes_Inr:
  "add_prefixes fe ps out = Inr ns \<longleftrightarrow> (\<exists>ms. map (parseCIDROrIP fe) ps = map Inr ms \<and> ns = out @ ms)"
proof (induction ps arbitrary: out)
  case Nil
  then show ?case by auto
next
  case (Cons p ps)
  then show ?case
    by (cases "parseCIDROrIP fe p") (auto simp: Cons_eq_map_conv)
qed

lemma parse_cached_round:
  assumes "nt_decode nt data = map (nt_string nt) ps" "\<And>p. p \<in> set ps \<Longrightarrow> fe_cidr fe (nt_string nt p) = Inr p"
  shows "parse_cached fe nt data = ps"
proof -
  have "concat (map ((\<lambda>s. case fe_cidr fe s of Inl e \<Rightarrow> [] | Inr n \<Rightarrow> [n]) \<circ> nt_string nt) ps) = ps"
    using assms(2) by (induction ps) auto
  with assms(1) show ?thesis by (simp add: parse_cached_def)
qed

text \<open>
  Over any cache that keeps its promise: an entry that was fetched and stored is answered from the
  cache for a day, whatever the rest of the world answers by then.
\<close>

context cache
begin

lemma entry_reloaded:
  assumes "use_cache e" "FetchPrefixes fe e = Inr ps" "snd (get d asked key day) \<noteq> None"
    and "nt_encode nt (map (nt_string nt) ps) = Inr data" "nt_decode nt data = map (nt_string nt) ps"
    and "\<And>p. p \<in> set ps \<Longrightarrow> fe_cidr fe' (nt_string nt p) = Inr p"
    and "put written now key data d = (None, d')" "written \<le> now" "asked' \<le> written + day"
  shows "entry_prefixes fe nt (Some \<lparr>ca_get = get, ca_set = put\<rparr>) asked written now key e d = ((ps, None), d')"
    and "entry_prefixes fe' nt (Some \<lparr>ca_get = get, ca_set = put\<rparr>) asked' written' now' key e d' = ((ps, None), d')"
proof -
  show "entry_prefixes fe nt (Some \<lparr>ca_get = get, ca_set = put\<rparr>) asked written now key e d = ((ps, None), d')"
    using assms(1-4,7)
    by (auto simp: entry_prefixes_def fetch_entry_def store_prefixes_def Let_def split: prod.splits)
  have "get d' asked' key day = (data, None)"
    using assms(7-9) by (rule fresh_after_put)
  moreover have "parse_cached fe' nt data = ps" using assms(5,6) by (rule parse_cached_round)
  ultimately show "entry_prefixes fe' nt (Some \<lparr>ca_get = get, ca_set = put\<rparr>) asked' written' now' key e d' =
      ((ps, None), d')"
    using assms(1) by (simp add: entry_prefixes_def Let_def)
qed

end

text \<open>What the library of networks promises: an address is contained when an inserted network contains it.\<close>

definition ranger_ok :: "'r ranger_ops \<Rightarrow> bool" where
  "ranger_ok ra \<longleftrightarrow> (\<forall>ip. ra_contains ra (ra_new ra) ip = Inr False) \<and>
     (\<forall>n r ip b. ra_contains ra r ip = Inr b \<longrightarrow> ra_contains ra (snd (ra_insert ra n r)) ip = Inr (b \<or> Contains n ip))"

lemma insert_all_contains:
  assumes "ranger_ok ra" "ra_contains ra r ip = Inr b"
  shows "ra_contains ra (insert_all ra ps r) ip = Inr (b \<or> (\<exists>p \<in> set ps. Contains p ip))"
  using assms(2)
proof (induction ps arbitrary: r b)
  case Nil
  then show ?case by simp
next
  case (Cons p ps)
  have "ra_contains ra (snd (ra_insert ra p r)) ip = Inr (b \<or> Contains p ip)"
    using assms(1) Cons.prems by (simp add: ranger_ok_def)
  from Cons.IH [OF this] show ?case by (simp add: disj_assoc)
qed

lemma uncached_entry:
  "entry_prefixes fe nt None asked written now key e d =
     (case FetchPrefixes fe e of Inl err \<Rightarrow> (([], Some err), d) | Inr ps \<Rightarrow> ((ps, None), d))"
  by (simp add: entry_prefixes_def fetch_entry_def split: sum.split)

lemma load_entries_uncached:
  assumes "ranger_ok ra" "ra_contains ra r ip = Inr b"
  shows "ra_contains ra (fst (load_entries at nt None ra k i es r d)) ip =
    Inr (b \<or> (\<exists>j < length es. \<exists>ps. FetchPrefixes (fst (at (i + j))) (es ! j) = Inr ps \<and> (\<exists>p \<in> set ps. Contains p ip)))"
  using assms(2)
proof (induction es arbitrary: i r b)
  case Nil
  then show ?case by simp
next
  case (Cons e es)
  obtain fe asked written now where at: "at i = (fe, asked, written, now)" by (cases "at i") auto
  show ?case
  proof (cases "FetchPrefixes fe e")
    case (Inl err)
    with Cons.IH [OF Cons.prems, of "Suc i"] at show ?thesis
      by (simp add: uncached_entry Ex_less_Suc2)
  next
    case (Inr ps)
    have "ra_contains ra (insert_all ra ps r) ip = Inr (b \<or> (\<exists>p \<in> set ps. Contains p ip))"
      using assms(1) Cons.prems by (rule insert_all_contains)
    from Cons.IH [OF this, of "Suc i"] at Inr show ?thesis
      by (simp add: uncached_entry Ex_less_Suc2 disj_assoc)
  qed
qed

section \<open>The claims\<close>


text \<open>The set of networks as a list, in which a query looks at every network.\<close>

definition list_ranger :: "ip_net list ranger_ops" where
  "list_ranger = \<lparr>ra_new = [], ra_insert = \<lambda>n r. (None, n # r), ra_contains = \<lambda>r ip. Inr (list_ex (\<lambda>n. Contains n ip) r)\<rparr>"

lemma list_ranger_ok: "ranger_ok list_ranger"
  by (auto simp: ranger_ok_def list_ranger_def)

definition no_entry :: network_entry where
  "no_entry = \<lparr>nw_Url = None, nw_File = None, nw_ASN = None, nw_JqPath = None, nw_Regex = None, nw_Prefixes = []\<rparr>"

definition test_fetchers :: "bytes fetchers" where
  "test_fetchers = \<lparr>fe_cidr = \<lambda>s. if s = ''10.0.0.0/8'' then Inr \<lparr>n_ip = [10, 0, 0, 0], n_mask = [255, 0, 0, 0]\<rparr> else Inl (Err ''invalid CIDR''),
     fe_ip = \<lambda>s. None, fe_http = \<lambda>u. Inr (200, Inr (bytes_of ''10.0.0.0/8'')), fe_file = \<lambda>f. Inl (Err ''no file''),
     fe_radb = \<lambda>n. test_conn, fe_routes = \<lambda>b. [''10.0.0.0/8''], fe_json = Inr,
     fe_jq = \<lambda>q. Inr (\<lambda>b. [JqString (string_of b)]),
     fe_regexp = \<lambda>r. Inr \<lparr>re_subexp = Some 0, re_find_all = \<lambda>b. [[b]]\<rparr>\<rparr>"

definition test_text :: net_text where
  "test_text = \<lparr>nt_string = \<lambda>n. ''10.0.0.0/8'', nt_encode = \<lambda>l. Inr (bytes_of (Join '','' l)),
     nt_decode = \<lambda>b. Split (CHR '','') (string_of b), nt_sha256 = \<lambda>b. replicate 32 0\<rparr>"


text \<open>
  A list that was fetched from a URL or for an autonomous system and stored in the cache on disk is
  answered from the cache for a day: a second load then gives the same prefixes and stores nothing,
  whatever the server, the routing database or the file system would answer by then.
\<close>

theorem network_cached_a_day:
  assumes "sound_os os" "use_cache e" "FetchPrefixes fe e = Inr ps"
    and "snd (prefix_get (dir_get os dir) pre d asked key day) \<noteq> None"
    and "nt_encode nt (map (nt_string nt) ps) = Inr data" "nt_decode nt data = map (nt_string nt) ps"
    and "map (fe_cidr fe' \<circ> nt_string nt) ps = map Inr ps"
    and "prefix_set (dir_set os dir) pre written now key data d = (None, d')"
    and "written \<le> now" "asked' \<le> written + day"
  shows "(let ca = CachePrefix (Some (dir_cache os dir)) pre in
       entry_prefixes fe nt ca asked written now key e d = ((ps, None), d') \<and>
       entry_prefixes fe' nt ca asked' written' now' key e d' = ((ps, None), d'))"
proof -
  have h: "os = honest os" using assms(1) by (simp add: honest_sound)
  have p: "fe_cidr fe' (nt_string nt p) = Inr p" if "p \<in> set ps" for p
    using assms(7) that by (simp add: map_eq_conv)
  have ca: "CachePrefix (Some (dir_cache os dir)) pre =
      Some \<lparr>ca_get = prefix_get (dir_get (honest os) dir) pre, ca_set = prefix_set (dir_set (honest os) dir) pre\<rparr>"
    using h by (simp add: CachePrefix_def dir_cache_def)
  have g: "snd (prefix_get (dir_get (honest os) dir) pre d asked key day) \<noteq> None"
    and s: "prefix_set (dir_set (honest os) dir) pre written now key data d = (None, d')"
    using assms(4,8) h by simp_all
  note r = below.sub.entry_reloaded [OF assms(2,3) g assms(5,6) p s assms(9,10)]
  show ?thesis unfolding ca Let_def by (intro conjI r)
qed

theorem network_cached_a_day_witness:
  "(let e = no_entry\<lparr>nw_Url := Some ''https://example.com/list'', nw_Regex := Some ''r''\<rparr>;
        ca = CachePrefix (Some (dir_cache test_os ''/cache'')) ''networks/'';
        r = entry_prefixes test_fetchers test_text ca 0 5 6 ''lan-0-00000000'' e []
    in entry_prefixes (test_fetchers\<lparr>fe_http := \<lambda>u. Inl (Err ''down'')\<rparr>) test_text ca 7 8 9 ''lan-0-00000000'' e (snd r) =
       (([\<lparr>n_ip = [10, 0, 0, 0], n_mask = [255, 0, 0, 0]\<rparr>], None), snd r))"
proof -
  let ?e = "no_entry\<lparr>nw_Url := Some ''https://example.com/list'', nw_Regex := Some ''r''\<rparr>"
  let ?ps = "[\<lparr>n_ip = [10, 0, 0, 0] :: bytes, n_mask = [255, 0, 0, 0] :: bytes\<rparr>]"
  define d' where "d' = snd (prefix_set (dir_set test_os ''/cache'') ''networks/'' 5 6 ''lan-0-00000000'' (bytes_of ''10.0.0.0/8'') [])"
  have fs: "fst (prefix_set (dir_set test_os ''/cache'') ''networks/'' 5 6 ''lan-0-00000000'' (bytes_of ''10.0.0.0/8'') []) = None"
    by (simp add: prefix_set_def dir_set_def test_os_def Let_def)
  have "let ca = CachePrefix (Some (dir_cache test_os ''/cache'')) ''networks/'' in
      entry_prefixes test_fetchers test_text ca 0 5 6 ''lan-0-00000000'' ?e [] = ((?ps, None), d') \<and>
      entry_prefixes (test_fetchers\<lparr>fe_http := \<lambda>u. Inl (Err ''down'')\<rparr>) test_text ca 7 8 9 ''lan-0-00000000'' ?e d' =
        ((?ps, None), d')"
  proof (rule network_cached_a_day [where data = "bytes_of ''10.0.0.0/8''"])
    show "prefix_set (dir_set test_os ''/cache'') ''networks/'' 5 6 ''lan-0-00000000'' (bytes_of ''10.0.0.0/8'') [] = (None, d')"
      using fs by (simp add: d'_def prod_eq_iff)
  qed (simp_all add: sound_os_def test_os_def use_cache_def FetchPrefixes_def no_entry_def test_fetchers_def
      read_then_def extract_prefixes_def parseCIDROrIP_def prefix_get_def dir_get_def Let_def test_text_def day_def
      hour_def second_def)
  then show ?thesis by (simp add: Let_def)
qed

text \<open>
  A list in the cache that is too old is not used when it cannot be fetched again, although the code
  means to: the entry comes back with the old prefixes and the error, and the loader leaves it out.
\<close>

theorem stale_list_dropped:
  assumes "use_cache e" "at 0 = (fe, asked, written, now)" "FetchPrefixes fe e = Inl err"
    and "ca_get ca d asked (cache_key nt k 0 e) day = (old, Some ErrExpired)" "parse_cached fe nt old \<noteq> []"
  shows "entry_prefixes fe nt (Some ca) asked written now (cache_key nt k 0 e) e d = ((parse_cached fe nt old, Some err), d) \<and>
    load_network at nt (Some ca) ra k [e] d = (ra_new ra, d)"
  using assms by (simp add: load_network_def entry_prefixes_def fetch_entry_def Let_def)

theorem stale_list_dropped_witness:
  "load_network (\<lambda>i. (test_fetchers\<lparr>fe_http := \<lambda>u. Inl (Err ''down'')\<rparr>, 0, 0, 0)) test_text
     (Some \<lparr>ca_get = \<lambda>d t k a. (bytes_of ''10.0.0.0/8'', Some ErrExpired), ca_set = \<lambda>w n k v d. (None, d)\<rparr>)
     list_ranger ''lan'' [no_entry\<lparr>nw_Url := Some ''https://example.com/list''\<rparr>] () = ([], ())"
proof -
  let ?fe = "test_fetchers\<lparr>fe_http := \<lambda>u. Inl (Err ''down'')\<rparr>"
  let ?e = "no_entry\<lparr>nw_Url := Some ''https://example.com/list''\<rparr>"
  let ?ca = "\<lparr>ca_get = \<lambda>d t k a. (bytes_of ''10.0.0.0/8'', Some ErrExpired), ca_set = \<lambda>w n k v d. (None, d)\<rparr> :: unit cache_ops"
  have "entry_prefixes ?fe test_text (Some ?ca) 0 0 0 (cache_key test_text ''lan'' 0 ?e) ?e () =
      ((parse_cached ?fe test_text (bytes_of ''10.0.0.0/8''), Some (Err ''down'')), ()) \<and>
    load_network (\<lambda>i. (?fe, 0, 0, 0)) test_text (Some ?ca) list_ranger ''lan'' [?e] () = (ra_new list_ranger, ())"
    by (rule stale_list_dropped)
      (simp_all add: use_cache_def no_entry_def FetchPrefixes_def test_fetchers_def parse_cached_def test_text_def)
  then show ?thesis by (simp add: list_ranger_def)
qed

text \<open>
  The prefixes that an entry lists itself are lost when the entry also names an autonomous system and
  neither a URL nor a file: the result is the list of that system alone.
\<close>

theorem FetchPrefixes_ASN_alone:
  assumes "nw_Url n = None" "nw_File n = None" "nw_ASN n = Some asn"
    and "add_prefixes fe (nw_Prefixes n) [] = Inr own"
    and "FetchASNets (fe_cidr fe) (fe_routes fe) (fe_radb fe asn) asn = Inr ps"
  shows "FetchPrefixes fe n = Inr ps"
  using assms by (simp add: FetchPrefixes_def)

end
