(* ===== verification/Mime.thy ===== *)
theory Mime
  imports Prelude
begin

unbundle bit_operations_syntax

text \<open>
  MIME headers (\<open>utils/inline/mime.go\<close>, the copy of Go's \<open>net/textproto\<close> that is compiled into the
  WASM runtime). A header maps canonical keys to lists of values; \<open>http.Header\<close>, which the rest of
  the program uses, has the same operations and the same canonical form of a key.
\<close>

section \<open>Header keys\<close>

text \<open>
  The bytes allowed in a header field name are the bits of a constant of 128 bits. The test shifts
  a one into two 64-bit words; a shift by 64 or more gives zero, and the subtraction of the second
  shift count is on bytes and wraps.
\<close>

definition header_mask :: "128 word" where
  "header_mask =
     push_bit (of_char (CHR ''0'')) (push_bit 10 1 - 1) OR
     push_bit (of_char (CHR ''a'')) (push_bit 26 1 - 1) OR
     push_bit (of_char (CHR ''A'')) (push_bit 26 1 - 1) OR
     push_bit (of_char (CHR ''!'')) 1 OR
     push_bit (of_char (CHR ''#'')) 1 OR
     push_bit (of_char (CHR ''$'')) 1 OR
     push_bit (of_char (CHR ''%'')) 1 OR
     push_bit (of_char (CHR ''&'')) 1 OR
     push_bit (of_char (CHR 0x27)) 1 OR
     push_bit (of_char (CHR ''*'')) 1 OR
     push_bit (of_char (CHR ''+'')) 1 OR
     push_bit (of_char (CHR ''-'')) 1 OR
     push_bit (of_char (CHR ''.'')) 1 OR
     push_bit (of_char (CHR ''^'')) 1 OR
     push_bit (of_char (CHR ''_'')) 1 OR
     push_bit (of_char (CHR 0x60)) 1 OR
     push_bit (of_char (CHR ''|'')) 1 OR
     push_bit (of_char (CHR ''~'')) 1"

definition validHeaderFieldByte :: "byte \<Rightarrow> bool" where
  "validHeaderFieldByte c \<longleftrightarrow>
     ((push_bit (unat c) 1 :: 64 word) AND ucast (header_mask AND (push_bit 64 1 - 1))) OR
     ((push_bit (unat (c - 64)) 1 :: 64 word) AND ucast (drop_bit 64 header_mask)) \<noteq> 0"

definition toLower :: byte where
  "toLower = byte_of (CHR ''a'') - byte_of (CHR ''A'')"

definition is_lower :: "byte \<Rightarrow> bool" where
  "is_lower c \<longleftrightarrow> byte_of (CHR ''a'') \<le> c \<and> c \<le> byte_of (CHR ''z'')"

definition is_upper :: "byte \<Rightarrow> bool" where
  "is_upper c \<longleftrightarrow> byte_of (CHR ''A'') \<le> c \<and> c \<le> byte_of (CHR ''Z'')"

definition dash :: byte where
  "dash = byte_of (CHR ''-'')"

definition common_headers :: "string list" where
  "common_headers =
    [''Accept'', ''Accept-Charset'', ''Accept-Encoding'', ''Accept-Language'', ''Accept-Ranges'',
     ''Cache-Control'', ''Cc'', ''Connection'', ''Content-Id'', ''Content-Language'',
     ''Content-Length'', ''Content-Transfer-Encoding'', ''Content-Type'', ''Cookie'', ''Date'',
     ''Dkim-Signature'', ''Etag'', ''Expires'', ''From'', ''Host'', ''If-Modified-Since'',
     ''If-None-Match'', ''In-Reply-To'', ''Last-Modified'', ''Location'', ''Message-Id'',
     ''Mime-Version'', ''Pragma'', ''Received'', ''Return-Path'', ''Server'', ''Set-Cookie'',
     ''Subject'', ''To'', ''User-Agent'', ''Via'', ''X-Forwarded-For'', ''X-Imforwards'',
     ''X-Powered-By'']"

definition commonHeader :: "(string, string) gomap" where
  "commonHeader = fold (\<lambda>v m. mset_key v v m) common_headers []"

text \<open>The scan that decides whether the key is plain; \<open>None\<close> is the byte that must stay as it is.\<close>

fun scan_valid :: "bool \<Rightarrow> bytes \<Rightarrow> bool option" where
  "scan_valid noCanon [] = Some noCanon"
| "scan_valid noCanon (c # cs) =
     (if validHeaderFieldByte c then scan_valid noCanon cs
      else if c = byte_of (CHR '' '') then scan_valid True cs
      else None)"

fun canon_loop :: "bool \<Rightarrow> bytes \<Rightarrow> bytes" where
  "canon_loop upper [] = []"
| "canon_loop upper (c # cs) =
     (let c' = (if upper \<and> is_lower c then c - toLower
                else if \<not> upper \<and> is_upper c then c + toLower
                else c)
      in c' # canon_loop (c' = dash) cs)"

definition canonicalMIMEHeaderKey :: "bytes \<Rightarrow> string \<times> bool" where
  "canonicalMIMEHeaderKey a =
     (if a = [] then ([], False)
      else case scan_valid False a of
        None \<Rightarrow> (string_of a, False)
      | Some True \<Rightarrow> (string_of a, True)
      | Some False \<Rightarrow>
          (let a' = canon_loop True a; v = mget_or [] commonHeader (string_of a')
           in if v \<noteq> [] then (v, True) else (string_of a', True)))"

text \<open>The quick check: does the loop reach a letter of the wrong case before any invalid byte?\<close>

fun needs_canon :: "bool \<Rightarrow> bytes \<Rightarrow> bool" where
  "needs_canon upper [] = False"
| "needs_canon upper (c # cs) =
     (if \<not> validHeaderFieldByte c then False
      else if upper \<and> is_lower c then True
      else if \<not> upper \<and> is_upper c then True
      else needs_canon (c = dash) cs)"

definition CanonicalMIMEHeaderKey :: "string \<Rightarrow> string" where
  "CanonicalMIMEHeaderKey s =
     (if needs_canon True (bytes_of s) then fst (canonicalMIMEHeaderKey (bytes_of s)) else s)"

section \<open>Headers\<close>

type_synonym header = "(string, string list) gomap"

definition header_add :: "header \<Rightarrow> string \<Rightarrow> string \<Rightarrow> header" where
  "header_add h key value =
     (let k = CanonicalMIMEHeaderKey key in mset_key k (mget_or [] h k @ [value]) h)"

definition header_set :: "header \<Rightarrow> string \<Rightarrow> string \<Rightarrow> header" where
  "header_set h key value = mset_key (CanonicalMIMEHeaderKey key) [value] h"

definition header_get :: "header \<Rightarrow> string \<Rightarrow> string" where
  "header_get h key =
     (case mget_or [] h (CanonicalMIMEHeaderKey key) of [] \<Rightarrow> [] | v # _ \<Rightarrow> v)"

definition header_values :: "header \<Rightarrow> string \<Rightarrow> string list" where
  "header_values h key = mget_or [] h (CanonicalMIMEHeaderKey key)"

definition header_del :: "header \<Rightarrow> string \<Rightarrow> header" where
  "header_del h key = mdel (CanonicalMIMEHeaderKey key) h"

section \<open>Canonical keys\<close>

text \<open>What the routine computes, without the quick check and without the table of common keys.\<close>

definition valid_key :: "string \<Rightarrow> bool" where
  "valid_key s \<longleftrightarrow> list_all validHeaderFieldByte (bytes_of s)"

definition canon_spec :: "string \<Rightarrow> string" where
  "canon_spec s = (if valid_key s then string_of (canon_loop True (bytes_of s)) else s)"

definition lower_byte :: "byte \<Rightarrow> byte" where
  "lower_byte c = (if is_upper c then c + toLower else c)"

lemma fold_intern:
  "(\<And>k v. mget m k = Some v \<Longrightarrow> v = k) \<Longrightarrow>
     mget (fold (\<lambda>v m. mset_key v v m) xs m) k = Some v \<Longrightarrow> v = k"
proof (induction xs arbitrary: m)
  case (Cons a xs)
  show ?case
    by (rule Cons.IH [of "mset_key a a m"]) (use Cons.prems in \<open>auto split: if_splits\<close>)
qed simp

lemma commonHeader_id: "mget commonHeader k = Some v \<Longrightarrow> v = k"
  unfolding commonHeader_def by (rule fold_intern) auto

lemma commonHeader_or: "mget_or [] commonHeader k \<noteq> [] \<Longrightarrow> mget_or [] commonHeader k = k"
  by (auto simp: mget_or_def dest: commonHeader_id split: option.splits)

lemma scan_valid_False: "scan_valid b s = Some False \<Longrightarrow> \<not> b \<and> list_all validHeaderFieldByte s"
  by (induction b s rule: scan_valid.induct) (auto split: if_splits)

lemma scan_valid_all: "list_all validHeaderFieldByte s \<Longrightarrow> scan_valid b s = Some b"
  by (induction b s rule: scan_valid.induct) auto

lemma canonicalMIMEHeaderKey_spec: "fst (canonicalMIMEHeaderKey (bytes_of s)) = canon_spec s"
proof (cases "valid_key s")
  case True
  then show ?thesis
    by (auto simp: canonicalMIMEHeaderKey_def canon_spec_def valid_key_def scan_valid_all Let_def
        dest: commonHeader_or)
next
  case False
  then show ?thesis
    by (auto simp: canonicalMIMEHeaderKey_def canon_spec_def valid_key_def
        split: option.splits bool.splits dest: scan_valid_False)
qed

lemma quick_check: "\<not> needs_canon u s \<Longrightarrow> list_all validHeaderFieldByte s \<Longrightarrow> canon_loop u s = s"
  by (induction u s rule: needs_canon.induct) (auto simp: Let_def split: if_splits)

lemma CanonicalMIMEHeaderKey_spec: "CanonicalMIMEHeaderKey s = canon_spec s"
  by (auto simp: CanonicalMIMEHeaderKey_def canonicalMIMEHeaderKey_spec canon_spec_def valid_key_def
      dest: quick_check)

text \<open>The two words of the mask, and the test as a lookup of a bit.\<close>

lemma header_mask_eq: "header_mask = 0x57ffffffc7fffffe03ff6cfa00000000"
  by (simp add: header_mask_def)

lemma header_mask_words:
  "ucast (header_mask AND (push_bit 64 1 - 1)) = (0x03ff6cfa00000000 :: 64 word)"
  "ucast (drop_bit 64 header_mask) = (0x57ffffffc7fffffe :: 64 word)"
  by (simp_all add: header_mask_eq)

lemma push_bit_1_and: "(push_bit n 1 AND w \<noteq> (0 :: 'a :: len word)) \<longleftrightarrow> bit w n"
proof -
  have "push_bit n 1 AND w = (if bit w n then push_bit n 1 else (0 :: 'a word))"
    by (rule bit_word_eqI) (auto simp: bit_simps)
  moreover have "push_bit n (1 :: 'a word) \<noteq> 0" if "bit w n"
  proof -
    from that have "bit (push_bit n (1 :: 'a word)) n"
      by (auto simp: bit_simps dest: bit_imp_le_length)
    then show ?thesis by (metis bit_0_eq bot_apply bot_bool_def)
  qed
  ultimately show ?thesis by auto
qed

lemma valid_bit:
  "validHeaderFieldByte c \<longleftrightarrow>
     bit (0x03ff6cfa00000000 :: 64 word) (unat c) \<or> bit (0x57ffffffc7fffffe :: 64 word) (unat (c - 64))"
  unfolding validHeaderFieldByte_def header_mask_words
  by (simp only: or_eq_0_iff push_bit_1_and de_Morgan_conj)

text \<open>The character class that the bitmap encodes: the \<open>tchar\<close> of RFC 7230.\<close>

definition tchar_code :: "nat \<Rightarrow> bool" where
  "tchar_code n \<longleftrightarrow>
     (48 \<le> n \<and> n \<le> 57) \<or> (97 \<le> n \<and> n \<le> 122) \<or> (65 \<le> n \<and> n \<le> 90) \<or>
     n \<in> {33, 35, 36, 37, 38, 39, 42, 43, 45, 46, 94, 95, 96, 124, 126}"

lemma bit_word_64: "bit (numeral w :: 64 word) k \<longleftrightarrow> k < 64 \<and> bit (numeral w :: int) k"
  by (auto simp: bit_numeral_word_iff bit_simps)

lemma bitmap_low:
  "list_all (\<lambda>n. bit (0x03ff6cfa00000000 :: int) (nat n) =
     ((48 \<le> n \<and> n \<le> 57) \<or> n \<in> set [33, 35, 36, 37, 38, 39, 42, 43, 45, 46])) [0..63]"
  by code_simp

lemma bitmap_high:
  "list_all (\<lambda>n. bit (0x57ffffffc7fffffe :: int) (nat (n - 64)) =
     ((97 \<le> n \<and> n \<le> 122) \<or> (65 \<le> n \<and> n \<le> 90) \<or> n \<in> set [94, 95, 96, 124, 126])) [64..127]"
  by code_simp

lemma unat_minus_64: "unat (c - 64) = (if 64 \<le> unat c then unat c - 64 else unat c + 192)"
  for c :: byte
  by (simp add: unat_sub_if' word_le_nat_alt)

lemma bitmap_code:
  "n < 64 \<and> bit (0x03ff6cfa00000000 :: int) n \<or>
     64 \<le> n \<and> n < 128 \<and> bit (0x57ffffffc7fffffe :: int) (n - 64) \<longleftrightarrow> tchar_code n"
proof -
  consider "n < 64" | "64 \<le> n" "n < 128" | "128 \<le> n" by linarith
  then show ?thesis
  proof cases
    case 1
    then have "int n \<in> set [0..63]" by (simp only: set_upto atLeastAtMost_iff) linarith
    with bitmap_low have "bit (0x03ff6cfa00000000 :: int) (nat (int n)) =
       ((48 \<le> int n \<and> int n \<le> 57) \<or> int n \<in> set [33, 35, 36, 37, 38, 39, 42, 43, 45, 46])"
      unfolding list_all_iff by (rule bspec)
    with 1 show ?thesis by (auto simp: tchar_code_def)
  next
    case 2
    then have "int n \<in> set [64..127]" by (simp only: set_upto atLeastAtMost_iff) linarith
    with bitmap_high have "bit (0x57ffffffc7fffffe :: int) (nat (int n - 64)) =
       ((97 \<le> int n \<and> int n \<le> 122) \<or> (65 \<le> int n \<and> int n \<le> 90) \<or>
        int n \<in> set [94, 95, 96, 124, 126])"
      unfolding list_all_iff by (rule bspec)
    moreover have "nat (int n - 64) = n - 64" by simp
    ultimately show ?thesis using 2 by (auto simp: tchar_code_def)
  next
    case 3
    then show ?thesis by (auto simp: tchar_code_def)
  qed
qed

lemma valid_tchar: "validHeaderFieldByte c \<longleftrightarrow> tchar_code (unat c)"
proof -
  have "unat c < 256" using unsigned_less [of c] by simp
  then show ?thesis
    unfolding valid_bit bit_word_64 unat_minus_64 bitmap_code [symmetric]
    by (auto simp del: bit_numeral_iff)
qed

lemma unat_letters:
  "is_lower c \<longleftrightarrow> 97 \<le> unat c \<and> unat c \<le> 122"
  "is_upper c \<longleftrightarrow> 65 \<le> unat c \<and> unat c \<le> 90"
  "c = dash \<longleftrightarrow> unat c = 45"
  by (simp_all add: is_lower_def is_upper_def dash_def word_le_nat_alt word_unat_eq_iff)

lemma unat_case:
  "is_lower c \<Longrightarrow> unat (c - toLower) = unat c - 32"
  "is_upper c \<Longrightarrow> unat (c + toLower) = unat c + 32"
proof -
  have t: "toLower = 32" by (simp add: toLower_def byte_of_def)
  show "is_lower c \<Longrightarrow> unat (c - toLower) = unat c - 32"
    unfolding t by (subst unat_sub) (simp_all add: unat_letters word_le_nat_alt)
  show "is_upper c \<Longrightarrow> unat (c + toLower) = unat c + 32"
    unfolding t by (subst unat_add_lem [THEN iffD1]) (simp_all add: unat_letters)
qed

lemma case_bytes:
  "is_lower c \<Longrightarrow> is_upper (c - toLower)" "is_lower c \<Longrightarrow> \<not> is_upper c"
  "is_upper c \<Longrightarrow> is_lower (c + toLower)" "\<not> is_lower dash" "\<not> is_upper dash"
  "is_lower c \<Longrightarrow> \<not> is_lower (c - toLower)" "is_upper c \<Longrightarrow> \<not> is_upper (c + toLower)"
  using unat_letters(3) [of dash] by (auto simp: unat_letters unat_case)

lemma letters_valid: "is_lower c \<Longrightarrow> validHeaderFieldByte c" "is_upper c \<Longrightarrow> validHeaderFieldByte c"
  by (auto simp: valid_tchar tchar_code_def unat_letters)

lemma dash_cases [simp]:
  "is_lower c \<Longrightarrow> c \<noteq> dash" "is_upper c \<Longrightarrow> c \<noteq> dash"
  "is_lower c \<Longrightarrow> c - toLower \<noteq> dash" "is_upper c \<Longrightarrow> c + toLower \<noteq> dash"
  using case_bytes by metis+

lemma canon_loop_valid:
  "list_all validHeaderFieldByte s \<Longrightarrow> list_all validHeaderFieldByte (canon_loop u s)"
  by (induction u s rule: canon_loop.induct) (auto simp: Let_def letters_valid case_bytes)

lemma canon_loop_idem: "canon_loop u (canon_loop u s) = canon_loop u s"
proof (induction u s rule: canon_loop.induct)
  case (2 u c cs)
  then show ?case by (cases u) (auto simp: Let_def case_bytes)
qed simp

lemma canon_loop_lower: "canon_loop u (map lower_byte s) = canon_loop u s"
proof (induction u s rule: canon_loop.induct)
  case (2 u c cs)
  have "c + toLower - toLower = c" by simp
  with 2 show ?case by (cases u) (auto simp: Let_def lower_byte_def case_bytes)
qed simp

lemma canonical_idem [simp]:
  "CanonicalMIMEHeaderKey (CanonicalMIMEHeaderKey s) = CanonicalMIMEHeaderKey s"
  by (auto simp: CanonicalMIMEHeaderKey_spec canon_spec_def valid_key_def canon_loop_idem
      dest: canon_loop_valid)

lemma canonical_case_insensitive:
  assumes "map lower_byte (bytes_of s) = map lower_byte (bytes_of t)" "valid_key s" "valid_key t"
  shows "CanonicalMIMEHeaderKey s = CanonicalMIMEHeaderKey t"
  using assms by (simp add: CanonicalMIMEHeaderKey_spec canon_spec_def) (metis canon_loop_lower)

text \<open>Evaluation of a key that is canonical already.\<close>

lemmas canon_eval = CanonicalMIMEHeaderKey_def valid_tchar tchar_code_def is_lower_def is_upper_def
  dash_def word_le_nat_alt

section \<open>Header laws\<close>

lemma header_get_set [simp]:
  "header_get (header_set h k v) k' =
     (if CanonicalMIMEHeaderKey k' = CanonicalMIMEHeaderKey k then v else header_get h k')"
  by (simp add: header_get_def header_set_def)

lemma header_get_del [simp]:
  "header_get (header_del h k) k' =
     (if CanonicalMIMEHeaderKey k' = CanonicalMIMEHeaderKey k then [] else header_get h k')"
  by (simp add: header_get_def header_del_def mget_or_def)

lemma header_values_add [simp]:
  "header_values (header_add h k v) k' =
     (if CanonicalMIMEHeaderKey k' = CanonicalMIMEHeaderKey k
      then header_values h k' @ [v] else header_values h k')"
  by (simp add: header_values_def header_add_def Let_def)

lemma header_values_set [simp]:
  "header_values (header_set h k v) k' =
     (if CanonicalMIMEHeaderKey k' = CanonicalMIMEHeaderKey k then [v] else header_values h k')"
  by (simp add: header_values_def header_set_def)

lemma header_values_del [simp]:
  "header_values (header_del h k) k' =
     (if CanonicalMIMEHeaderKey k' = CanonicalMIMEHeaderKey k then [] else header_values h k')"
  by (simp add: header_values_def header_del_def mget_or_def)

section \<open>Properties\<close>

text \<open>
  the optimised routine, with its quick check, its scan for spaces and its table of common keys,
  computes the canonical form of a key: a key made of token bytes gets upper case at its start and
  after each dash and lower case elsewhere, any other key stays as it is. It is idempotent.
\<close>

theorem CanonicalMIMEHeaderKey_correct:
  "CanonicalMIMEHeaderKey s =
     (if list_all (\<lambda>c. tchar_code (of_char c)) s then string_of (canon_loop True (bytes_of s)) else s) \<and>
   CanonicalMIMEHeaderKey (CanonicalMIMEHeaderKey s) = CanonicalMIMEHeaderKey s"
proof
  have "valid_key s \<longleftrightarrow> list_all (\<lambda>c. tchar_code (of_char c)) s"
    by (simp add: valid_key_def valid_tchar bytes_of_def list.pred_map comp_def)
  then show "CanonicalMIMEHeaderKey s =
     (if list_all (\<lambda>c. tchar_code (of_char c)) s then string_of (canon_loop True (bytes_of s)) else s)"
    by (simp add: CanonicalMIMEHeaderKey_spec canon_spec_def)
qed (rule canonical_idem)

text \<open>
  a header does not distinguish the case of a key made of token bytes: what is set under one
  spelling is read, and deleted, under any other, and other keys are not affected.
\<close>

theorem header_case_insensitive:
  assumes "map lower_byte (bytes_of k) = map lower_byte (bytes_of k')" "valid_key k" "valid_key k'"
  shows "header_get (header_set h k v) k' = v \<and> header_values (header_add h k v) k' = header_values h k' @ [v] \<and>
    header_values (header_del h k) k' = [] \<and>
    (CanonicalMIMEHeaderKey j \<noteq> CanonicalMIMEHeaderKey k \<longrightarrow> header_values (header_set h k v) j = header_values h j)"
  using canonical_case_insensitive [OF assms] by simp_all

theorem header_case_insensitive_witness:
  "header_get (header_set [] ''a-b'' ''x'') ''A-b'' = ''x''"
proof -
  have "map lower_byte (bytes_of ''a-b'') = map lower_byte (bytes_of ''A-b'')"
    by (simp add: lower_byte_def is_upper_def toLower_def word_le_nat_alt byte_of_def)
  moreover have "valid_key ''a-b''" "valid_key ''A-b''"
    by (simp_all add: valid_key_def valid_tchar tchar_code_def)
  ultimately show ?thesis using header_case_insensitive [of "''a-b''" "''A-b''" "[]" "''x''"] by blast
qed

end
