(* ===== verification/Query.thy ===== *)
theory Query
  imports Mime Hex
begin

unbundle bit_operations_syntax

text \<open>
  Query strings: the raw parser and printer of \<open>utils/http.go\<close>, which keep the escapes of the
  client as they are, and the ones of Go's \<open>net/url\<close>, which decode and encode them. Both parsers are
  one loop over the text with a decoder of keys and values as its argument, and both printers one
  loop over the sorted keys with an encoder as its argument.
\<close>

section \<open>Percent encoding\<close>

definition percent :: char where "percent = CHR ''%''"

definition upperhex :: "byte \<Rightarrow> char" where
  "upperhex v = ''0123456789ABCDEF'' ! unat v"

definition unhex :: "char \<Rightarrow> byte" where
  "unhex c = reverse_hex (byte_of c)"

definition ishex :: "char \<Rightarrow> bool" where
  "ishex c \<longleftrightarrow> is_hex (byte_of c)"

definition alphanum :: "char \<Rightarrow> bool" where
  "alphanum c \<longleftrightarrow> is_lower (byte_of c) \<or> is_upper (byte_of c) \<or> c \<in> set ''0123456789''"

definition unreserved :: "char \<Rightarrow> bool" where
  "unreserved c \<longleftrightarrow> alphanum c \<or> c \<in> set ''-_.~''"

text \<open>
  \<open>net/url\<close>'s \<open>unescape\<close>: a percent sign must be followed by two hexadecimal digits; in a query
  component (\<open>qc\<close>) a plus sign is a space.
\<close>

fun unescape :: "bool \<Rightarrow> string \<Rightarrow> string option" where
  "unescape qc [] = Some []"
| "unescape qc (c # s) =
     (if c = percent
      then (case s of
          a # b # r \<Rightarrow>
            (if ishex a \<and> ishex b
             then map_option (Cons (char_of_byte (push_bit 4 (unhex a) OR unhex b))) (unescape qc r)
             else None)
        | _ \<Rightarrow> None)
      else if qc \<and> c = CHR ''+'' then map_option (Cons (CHR '' '')) (unescape qc s)
      else map_option (Cons c) (unescape qc s))"

fun escape :: "bool \<Rightarrow> (char \<Rightarrow> bool) \<Rightarrow> string \<Rightarrow> string" where
  "escape qc should [] = []"
| "escape qc should (c # s) =
     (if should c
      then (if c = CHR '' '' \<and> qc then CHR ''+'' # escape qc should s
            else percent # upperhex (drop_bit 4 (byte_of c)) # upperhex (byte_of c AND 0x0f)
                   # escape qc should s)
      else c # escape qc should s)"

definition QueryEscape :: "string \<Rightarrow> string" where
  "QueryEscape s = escape True (\<lambda>c. \<not> unreserved c) s"

definition QueryUnescape :: "string \<Rightarrow> string option" where
  "QueryUnescape s = unescape True s"

section \<open>Values\<close>

type_synonym url_values = "(string, string list) gomap"

definition values_get :: "url_values \<Rightarrow> string \<Rightarrow> string" where
  "values_get v k = (case mget_or [] v k of [] \<Rightarrow> [] | x # _ \<Rightarrow> x)"

definition values_set :: "string \<Rightarrow> string \<Rightarrow> url_values \<Rightarrow> url_values" where
  "values_set k x v = mset_key k [x] v"

definition values_has :: "url_values \<Rightarrow> string \<Rightarrow> bool" where
  "values_has v k \<longleftrightarrow> mget v k \<noteq> None"

definition values_add :: "string \<Rightarrow> string \<Rightarrow> url_values \<Rightarrow> url_values" where
  "values_add k x v = mset_key k (mget_or [] v k @ [x]) v"

section \<open>Parsing\<close>

definition semicolon_error :: go_error where
  "semicolon_error = Err ''invalid semicolon separator in query''"

text \<open>One pair of the query: skipped, refused, or appended to the values of its key.\<close>

definition parse_pair ::
    "(string \<Rightarrow> string option) \<Rightarrow> string \<Rightarrow> url_values \<times> go_error option \<Rightarrow>
       url_values \<times> go_error option" where
  "parse_pair dec key st =
     (case st of (m, err) \<Rightarrow>
      if CHR '';'' \<in> set key then (m, Some semicolon_error)
      else if key = [] then (m, err)
      else (case Cut (CHR ''='') key of (k, value, _) \<Rightarrow>
        (case (dec k, dec value) of
           (Some k', Some v') \<Rightarrow> (values_add k' v' m, err)
         | _ \<Rightarrow> (m, if err = None then Some (Err ''invalid URL escape'') else err))))"

function parse_query_loop ::
    "(string \<Rightarrow> string option) \<Rightarrow> string \<Rightarrow> url_values \<times> go_error option \<Rightarrow>
       url_values \<times> go_error option" where
  "parse_query_loop dec rawQuery st =
     (if rawQuery = [] then st
      else (case Cut (CHR ''&'') rawQuery of (key, rest, _) \<Rightarrow>
        parse_query_loop dec rest (parse_pair dec key st)))"
  by pat_completeness auto
termination
  by (relation "measure (\<lambda>(dec, q, st). length q)") (auto dest: Cut_rest_length [OF sym])

declare parse_query_loop.simps [simp del]

definition ParseRawQuery :: "string \<Rightarrow> url_values \<times> go_error option" where
  "ParseRawQuery rawQuery = parse_query_loop Some rawQuery ([], None)"

text \<open>\<open>url.URL.Query\<close> drops the error.\<close>

definition url_query :: "string \<Rightarrow> url_values" where
  "url_query rawQuery = fst (parse_query_loop QueryUnescape rawQuery ([], None))"

section \<open>Printing\<close>

definition encode_values :: "(string \<Rightarrow> string) \<Rightarrow> url_values \<Rightarrow> string" where
  "encode_values enc v =
     fold (\<lambda>k buf. fold (\<lambda>x buf. (if buf \<noteq> [] then buf @ ''&'' else buf) @ enc k @ ''='' @ enc x)
             (mget_or [] v k) buf)
       (sort (mkeys v)) []"

definition EncodeRawQuery :: "url_values \<Rightarrow> string" where
  "EncodeRawQuery v = (if length v = 0 then [] else encode_values (\<lambda>s. s) v)"

definition values_encode :: "url_values \<Rightarrow> string" where
  "values_encode v = (if length v = 0 then [] else encode_values QueryEscape v)"

section \<open>Percent encoding: lemmas\<close>

lemma upperhex_table:
  "list_all (\<lambda>n. unhex (upperhex (word_of_nat n)) = word_of_nat n \<and> ishex (upperhex (word_of_nat n)) \<and>
     unreserved (upperhex (word_of_nat n))) [0..<16]"
  by code_simp

lemma upperhex [simp]:
  assumes "v \<le> 0x0f"
  shows "unhex (upperhex v) = v" "ishex (upperhex v)" "unreserved (upperhex v)"
proof -
  have "unat v \<in> set [0..<16]" using assms by (simp add: word_le_nat_alt)
  with upperhex_table have "unhex (upperhex (word_of_nat (unat v))) = word_of_nat (unat v) \<and>
      ishex (upperhex (word_of_nat (unat v))) \<and> unreserved (upperhex (word_of_nat (unat v)))"
    unfolding list_all_iff by (rule bspec)
  then show "unhex (upperhex v) = v" "ishex (upperhex v)" "unreserved (upperhex v)" by simp_all
qed

lemma not_unreserved:
  "\<not> unreserved percent" "\<not> unreserved (CHR ''+'')" "\<not> unreserved (CHR ''&'')"
  "\<not> unreserved (CHR '';'')" "\<not> unreserved (CHR ''='')" "\<not> unreserved (CHR '' '')"
  by code_simp+

lemma escape_unescape:
  assumes "should percent" "qc \<Longrightarrow> should (CHR ''+'')"
  shows "unescape qc (escape qc should s) = Some s"
  using assms
proof (induction s)
  case (Cons c s)
  have "c = percent \<or> c = CHR ''+'' \<and> qc \<Longrightarrow> should c" using assms by auto
  moreover have "percent \<noteq> CHR ''+''" by (simp add: percent_def)
  ultimately show ?case using Cons by (auto simp: Let_def)
qed simp

lemma QueryUnescape_QueryEscape [simp]: "QueryUnescape (QueryEscape s) = Some s"
  unfolding QueryUnescape_def QueryEscape_def
  by (rule escape_unescape) (simp_all add: not_unreserved)

lemma QueryEscape_chars: "c \<in> set (QueryEscape s) \<Longrightarrow> unreserved c \<or> c = percent \<or> c = CHR ''+''"
  unfolding QueryEscape_def by (induction s) (auto split: if_splits)

lemma QueryEscape_safe [simp]:
  "CHR ''&'' \<notin> set (QueryEscape s)" "CHR '';'' \<notin> set (QueryEscape s)" "CHR ''='' \<notin> set (QueryEscape s)"
  using QueryEscape_chars not_unreserved by (fastforce simp: percent_def)+

lemma QueryEscape_inj [simp]: "QueryEscape a = QueryEscape b \<longleftrightarrow> a = b"
  by (metis QueryUnescape_QueryEscape option.inject)

section \<open>The loops as folds\<close>

lemma Cut_not_found: "Cut c s = (a, b, False) \<Longrightarrow> b = [] \<and> a = s \<and> c \<notin> set s"
  by (induction s arbitrary: a b) (auto split: if_splits prod.splits)

lemma parse_pair_Nil [simp]: "parse_pair dec [] st = st"
  by (cases st) (simp add: parse_pair_def)

lemma parse_loop_fold: "parse_query_loop dec q st = fold (parse_pair dec) (Split (CHR ''&'') q) st"
proof (induction dec q st rule: parse_query_loop.induct)
  case (1 dec q st)
  show ?case
  proof (cases "q = []")
    case True
    then show ?thesis by (subst parse_query_loop.simps) simp
  next
    case False
    obtain key rest f where c: "Cut (CHR ''&'') q = (key, rest, f)" by (cases "Cut (CHR ''&'') q")
    have IH: "parse_query_loop dec rest (parse_pair dec key st) =
        fold (parse_pair dec) (Split (CHR ''&'') rest) (parse_pair dec key st)"
      using "1.IH" [OF False] c by simp
    show ?thesis
    proof (cases f)
      case True
      with c have "q = key @ CHR ''&'' # rest" "CHR ''&'' \<notin> set key"
        using Cut_append by fastforce+
      then have "Split (CHR ''&'') q = key # Split (CHR ''&'') rest"
        by (simp add: Split_append_sep)
      with False c IH show ?thesis by (subst parse_query_loop.simps) simp
    next
      case nf: False
      with c have "rest = []" "key = q" "CHR ''&'' \<notin> set q" using Cut_not_found by auto
      with False c IH show ?thesis by (subst parse_query_loop.simps) simp
    qed
  qed
qed

definition segments :: "(string \<Rightarrow> string) \<Rightarrow> url_values \<Rightarrow> string list" where
  "segments enc v =
     concat (map (\<lambda>k. map (\<lambda>x. enc k @ ''='' @ enc x) (mget_or [] v k)) (sort (mkeys v)))"

definition push_seg :: "string \<Rightarrow> string \<Rightarrow> string" where
  "push_seg s buf = (if buf \<noteq> [] then buf @ ''&'' else buf) @ s"

lemma fold_push_seg:
  "[] \<notin> set segs \<Longrightarrow> fold push_seg segs buf =
     (if buf = [] then Join ''&'' segs else buf @ concat (map (Cons (CHR ''&'')) segs))"
proof (induction segs arbitrary: buf)
  case (Cons s segs)
  have J: "Join ''&'' (s # segs) = s @ concat (map (Cons (CHR ''&'')) segs)" for segs
    by (induction segs arbitrary: s) auto
  from Cons show ?case by (auto simp: push_seg_def J)
qed simp

lemma fold_fold_concat: "fold (\<lambda>k. fold f (g k)) ks = fold f (concat (map g ks))"
  by (induction ks) auto

lemma encode_values_Join: "encode_values enc v = Join ''&'' (segments enc v)"
proof -
  have "encode_values enc v = fold push_seg (segments enc v) []"
    unfolding encode_values_def segments_def fold_fold_concat [symmetric]
    by (simp add: push_seg_def [abs_def] fold_map comp_def)
  then show ?thesis by (subst (asm) fold_push_seg) (auto simp: segments_def)
qed

text \<open>The printed text depends on the map only, not on the order in which a range statement visits it.\<close>

lemma sort_keys_unique:
  "wf_map v \<Longrightarrow> wf_map w \<Longrightarrow> (\<And>k. mget v k = mget w k) \<Longrightarrow> sort (mkeys v) = sort (mkeys w)"
  by (rule map_sorted_distinct_set_unique [where f = id])
    (auto simp: wf_map_def set_mkeys_iff)

lemma encode_values_unique:
  "wf_map v \<Longrightarrow> wf_map w \<Longrightarrow> (\<And>k. mget v k = mget w k) \<Longrightarrow>
     encode_values enc v = encode_values enc w"
  by (simp add: encode_values_def sort_keys_unique [of v w] mget_or_def cong: fold_cong)

section \<open>What a parser builds\<close>

definition add_pairs :: "(string \<times> string) list \<Rightarrow> url_values \<Rightarrow> url_values" where
  "add_pairs ps m = fold (\<lambda>(k, x). values_add k x) ps m"

lemma mget_or_values_add [simp]:
  "mget_or [] (values_add k x m) k' = (if k' = k then mget_or [] m k @ [x] else mget_or [] m k')"
  by (simp add: values_add_def)

lemma mget_add_pairs:
  "mget_or [] (add_pairs ps m) k = mget_or [] m k @ map snd (filter (\<lambda>p. fst p = k) ps)"
  by (induction ps arbitrary: m) (auto simp: add_pairs_def)

lemma dom_add_pairs: "mget (add_pairs ps m) k \<noteq> None \<longleftrightarrow> mget m k \<noteq> None \<or> k \<in> fst ` set ps"
  by (induction ps arbitrary: m) (auto simp: add_pairs_def values_add_def)

lemma wf_add_pairs [simp]: "wf_map m \<Longrightarrow> wf_map (add_pairs ps m)"
  by (induction ps arbitrary: m) (auto simp: add_pairs_def values_add_def)

lemma parse_pairs:
  assumes "\<And>k x. (k, x) \<in> set ps \<Longrightarrow> parse_pair dec (f (k, x)) = (\<lambda>(m, e). (values_add k x m, e))"
  shows "fold (parse_pair dec) (map f ps) (m, e) = (add_pairs ps m, e)"
  using assms
proof (induction ps arbitrary: m)
  case (Cons p ps)
  obtain k x where p: "p = (k, x)" by (cases p)
  show ?case using Cons.IH [of "values_add k x m"] Cons.prems p by (auto simp: add_pairs_def)
qed (simp add: add_pairs_def)

section \<open>Printing and parsing again\<close>

text \<open>
  The contract between an encoder and a decoder of keys and values: the decoder undoes the encoder
  on the texts that satisfy \<open>okk\<close> (keys) and \<open>okv\<close> (values), and the encoder keeps the separators out.
\<close>

locale query_codec =
  fixes enc :: "string \<Rightarrow> string"
    and dec :: "string \<Rightarrow> string option"
    and okk :: "string \<Rightarrow> bool"
    and okv :: "string \<Rightarrow> bool"
  assumes dec_key: "okk k \<Longrightarrow> dec (enc k) = Some k"
    and dec_val: "okv x \<Longrightarrow> dec (enc x) = Some x"
    and key_clean: "okk k \<Longrightarrow> CHR ''&'' \<notin> set (enc k) \<and> CHR '';'' \<notin> set (enc k) \<and> CHR ''='' \<notin> set (enc k)"
    and val_clean: "okv x \<Longrightarrow> CHR ''&'' \<notin> set (enc x) \<and> CHR '';'' \<notin> set (enc x)"
begin

lemma parse_seg:
  assumes "okk k" "okv x"
  shows "parse_pair dec (enc k @ ''='' @ enc x) = (\<lambda>(m, e). (values_add k x m, e))"
  using assms key_clean [of k] val_clean [of x]
  by (auto simp: parse_pair_def dec_key dec_val fun_eq_iff)

lemma parse_encode_pairs:
  assumes ok: "\<And>k. k \<in> set (mkeys v) \<Longrightarrow> okk k" "\<And>k x. x \<in> set (mget_or [] v k) \<Longrightarrow> okv x"
  shows "\<exists>ps. parse_query_loop dec (encode_values enc v) ([], None) = (add_pairs ps [], None) \<and>
    ps = concat (map (\<lambda>k. map (Pair k) (mget_or [] v k)) (sort (mkeys v)))"
proof -
  define ps where "ps = concat (map (\<lambda>k. map (Pair k) (mget_or [] v k)) (sort (mkeys v)))"
  define f where "f = (\<lambda>(k, x). enc k @ ''='' @ enc x)"
  have segs: "segments enc v = map f ps"
    by (simp add: segments_def ps_def f_def map_concat comp_def)
  have okp: "okk k \<and> okv x" if "(k, x) \<in> set ps" for k x
    using that ok by (auto simp: ps_def)
  have amp: "CHR ''&'' \<notin> set s" if "s \<in> set (segments enc v)" for s
    using that okp key_clean val_clean unfolding segs f_def by fastforce
  have "Split (CHR ''&'') (encode_values enc v) =
      (if segments enc v = [] then [[]] else segments enc v)"
    using amp by (simp add: encode_values_Join Split_Join)
  then have "parse_query_loop dec (encode_values enc v) ([], None) =
      fold (parse_pair dec) (map f ps) ([], None)"
    by (simp add: parse_loop_fold segs)
  also have "\<dots> = (add_pairs ps [], None)"
    by (rule parse_pairs, unfold f_def prod.case, rule parse_seg) (use okp in blast)+
  finally show ?thesis by (auto simp: ps_def)
qed

lemma parse_encode:
  assumes wf: "wf_map v"
    and ok: "\<And>k. k \<in> set (mkeys v) \<Longrightarrow> okk k" "\<And>k x. x \<in> set (mget_or [] v k) \<Longrightarrow> okv x"
  shows "\<exists>m. parse_query_loop dec (encode_values enc v) ([], None) = (m, None) \<and> wf_map m \<and>
    (\<forall>k. mget m k = (if mget_or [] v k = [] then None else Some (mget_or [] v k)))"
proof -
  define ps where "ps = concat (map (\<lambda>k. map (Pair k) (mget_or [] v k)) (sort (mkeys v)))"
  have one: "map snd (filter (\<lambda>p. fst p = k) (concat (map (\<lambda>k. map (Pair k) (mget_or [] v k)) ks))) =
      (if k \<in> set ks then mget_or [] v k else [])" if "distinct ks" for ks k
    using that by (induction ks) (auto simp: filter_map comp_def filter_empty_conv)
  have vals: "mget_or [] (add_pairs ps []) k = mget_or [] v k" for k
  proof -
    have "distinct (sort (mkeys v))" using wf by (simp add: wf_map_def)
    then have "mget_or [] (add_pairs ps []) k =
        (if k \<in> set (sort (mkeys v)) then mget_or [] v k else [])"
      unfolding mget_add_pairs ps_def by (subst one) (auto simp: mget_or_def)
    then show ?thesis by (auto simp: set_mkeys_iff mget_or_def split: option.splits)
  qed
  have dom: "mget (add_pairs ps []) k \<noteq> None \<longleftrightarrow> mget_or [] v k \<noteq> []" for k
  proof -
    have "fst ` set ps = {k \<in> set (mkeys v). mget_or [] v k \<noteq> []}"
      unfolding ps_def by (auto simp: image_UN image_image image_constant_conv split: if_splits)
    moreover have "mget_or [] v k \<noteq> [] \<Longrightarrow> k \<in> set (mkeys v)"
      by (cases "mget v k") (simp_all add: set_mkeys_iff mget_or_def)
    ultimately show ?thesis unfolding dom_add_pairs by auto
  qed
  have "mget (add_pairs ps []) k = (if mget_or [] v k = [] then None else Some (mget_or [] v k))" for k
  proof (cases "mget (add_pairs ps []) k")
    case None
    with dom [of k] show ?thesis by simp
  next
    case (Some y)
    then have "mget_or [] (add_pairs ps []) k = y" by (simp add: mget_or_def)
    with Some dom [of k] vals [of k] show ?thesis by simp
  qed
  moreover obtain ps' where "parse_query_loop dec (encode_values enc v) ([], None) = (add_pairs ps' [], None)"
      "ps' = ps"
    using parse_encode_pairs [OF ok] by (auto simp: ps_def)
  ultimately show ?thesis by auto
qed

end

text \<open>The two codecs of the program: texts left as they are, and percent encoding.\<close>

definition raw_key :: "string \<Rightarrow> bool" where
  "raw_key k \<longleftrightarrow> CHR ''&'' \<notin> set k \<and> CHR '';'' \<notin> set k \<and> CHR ''='' \<notin> set k"

definition raw_value :: "string \<Rightarrow> bool" where
  "raw_value x \<longleftrightarrow> CHR ''&'' \<notin> set x \<and> CHR '';'' \<notin> set x"

interpretation raw: query_codec "\<lambda>s. s" Some raw_key raw_value
  by unfold_locales (auto simp: raw_key_def raw_value_def)

interpretation esc: query_codec QueryEscape QueryUnescape "\<lambda>_. True" "\<lambda>_. True"
  by unfold_locales auto

section \<open>Properties\<close>

text \<open>
  printing a raw query and parsing it again loses nothing. For a map whose keys hold none of the
  separators (ampersand, semicolon, equals sign) and whose values hold no ampersand and no semicolon,
  the parser reports no error and gives every key its list of values in order; a key with an empty
  list of values disappears.
\<close>

theorem EncodeRawQuery_ParseRawQuery:
  assumes "wf_map v" "\<And>k. k \<in> set (mkeys v) \<Longrightarrow> raw_key k" "\<And>k x. x \<in> set (mget_or [] v k) \<Longrightarrow> raw_value x"
  shows "\<exists>m. ParseRawQuery (EncodeRawQuery v) = (m, None) \<and> wf_map m \<and>
    (\<forall>k. mget m k = (if mget_or [] v k = [] then None else Some (mget_or [] v k)))"
proof -
  have "EncodeRawQuery v = encode_values (\<lambda>s. s) v"
    by (simp add: EncodeRawQuery_def encode_values_def mkeys_def)
  then show ?thesis using raw.parse_encode [OF assms] by (simp add: ParseRawQuery_def)
qed

theorem EncodeRawQuery_ParseRawQuery_witness:
  "\<exists>m. ParseRawQuery (EncodeRawQuery [(''b'', [''1'', ''%2'']), (''a'', [''x=y''])]) = (m, None) \<and>
     mget m ''b'' = Some [''1'', ''%2''] \<and> mget m ''a'' = Some [''x=y''] \<and> mget m ''c'' = None"
proof -
  let ?v = "[(''b'', [''1'', ''%2'']), (''a'', [''x=y''])] :: url_values"
  have "raw_value x" if "x \<in> set (mget_or [] ?v k)" for k x
    using that by (auto simp: raw_value_def mget_or_def mget_Cons split: if_splits)
  moreover have "raw_key k" if "k \<in> set (mkeys ?v)" for k
    using that by (auto simp: raw_key_def mkeys_def)
  ultimately show ?thesis
    using EncodeRawQuery_ParseRawQuery [of ?v] by (auto simp: wf_map_def mkeys_def mget_or_def mget_Cons)
qed

lemma values_encode_query:
  assumes "wf_map v"
  shows "wf_map (url_query (values_encode v)) \<and>
    (\<forall>k. mget (url_query (values_encode v)) k = (if mget_or [] v k = [] then None else Some (mget_or [] v k)))"
proof -
  have "values_encode v = encode_values QueryEscape v"
    by (simp add: values_encode_def encode_values_def mkeys_def)
  then show ?thesis using esc.parse_encode [OF assms] by (auto simp: url_query_def)
qed

theorem values_encode_query_witness:
  "mget (url_query (values_encode [(''a&b'', [''=;'', [] ])])) ''a&b'' = Some [''=;'', [] ]"
  using values_encode_query [of "[(''a&b'', [''=;'', [] ])]"]
  by (simp add: wf_map_def mkeys_def mget_or_def mget_Cons)

end
