(* ===== verification/Url.thy ===== *)
theory Url
  imports Query
begin

text \<open>
  URLs as Go's \<open>net/url\<close> parses and prints them, the redirect filter \<open>EnsureNoOpenRedirect\<close> and the
  choice of a backend by host name (\<open>utils/http.go\<close>). The parser of the authority part (user, host
  and port) is an argument \<open>pa\<close>: the filter overwrites what it returns, only its failure matters.
\<close>

section \<open>The URL structure and its parser\<close>

record url =
  u_scheme :: string
  u_opaque :: string
  u_user :: "string option"
  u_host :: string
  u_path :: string
  u_rawpath :: string
  u_omithost :: bool
  u_forcequery :: bool
  u_rawquery :: string
  u_fragment :: string
  u_rawfragment :: string

definition empty_url :: url where
  "empty_url = \<lparr>u_scheme = [], u_opaque = [], u_user = None, u_host = [], u_path = [], u_rawpath = [],
     u_omithost = False, u_forcequery = False, u_rawquery = [], u_fragment = [], u_rawfragment = []\<rparr>"

type_synonym authority_parser = "string \<Rightarrow> go_error + (string option \<times> string)"

datatype encoding = encodePath | encodeFragment

fun shouldEscape :: "encoding \<Rightarrow> char \<Rightarrow> bool" where
  "shouldEscape mode c =
     (if alphanum c \<or> c \<in> set ''-_.~'' then False
      else if c \<in> set ''$&+,/:;=?@'' then mode = encodePath \<and> c = CHR ''?''
      else if mode = encodeFragment \<and> c \<in> set ''!()*'' then False
      else True)"

definition validEncoded :: "encoding \<Rightarrow> string \<Rightarrow> bool" where
  "validEncoded mode s \<longleftrightarrow>
     list_all (\<lambda>c. c \<in> set (''!$&()*+,;=:@[]%'' @ [CHR 0x27]) \<or> \<not> shouldEscape mode c) s"

definition escape_mode :: "encoding \<Rightarrow> string \<Rightarrow> string" where
  "escape_mode mode s = escape False (shouldEscape mode) s"

definition ctl_byte :: "char \<Rightarrow> bool" where
  "ctl_byte c \<longleftrightarrow> (of_char c :: nat) < 32 \<or> c = CHR 0x7F"

text \<open>\<open>getScheme\<close>: the text is scanned for a colon; \<open>first\<close> is the test \<open>i == 0\<close>.\<close>

fun scheme_scan :: "bool \<Rightarrow> string \<Rightarrow> string \<Rightarrow> string \<Rightarrow> go_error + (string \<times> string)" where
  "scheme_scan first raw acc [] = Inr ([], raw)"
| "scheme_scan first raw acc (c # cs) =
     (if is_lower (byte_of c) \<or> is_upper (byte_of c) then scheme_scan False raw (acc @ [c]) cs
      else if c \<in> set ''0123456789+-.'' then
        (if first then Inr ([], raw) else scheme_scan False raw (acc @ [c]) cs)
      else if c = CHR '':'' then
        (if first then Inl (Err ''missing protocol scheme'') else Inr (acc, cs))
      else Inr ([], raw))"

definition getScheme :: "string \<Rightarrow> go_error + (string \<times> string)" where
  "getScheme raw = scheme_scan True raw [] raw"

definition lower_string :: "string \<Rightarrow> string" where
  "lower_string s = map (\<lambda>c. char_of_byte (lower_byte (byte_of c))) s"

definition set_path :: "string \<Rightarrow> url \<Rightarrow> go_error + url" where
  "set_path p u =
     (case unescape False p of
        None \<Rightarrow> Inl (Err ''invalid URL escape'')
      | Some path \<Rightarrow>
          Inr (u\<lparr>u_path := path, u_rawpath := (if p = escape_mode encodePath path then [] else p)\<rparr>))"

definition set_fragment :: "string \<Rightarrow> url \<Rightarrow> go_error + url" where
  "set_fragment f u =
     (case unescape False f of
        None \<Rightarrow> Inl (Err ''invalid URL escape'')
      | Some frag \<Rightarrow>
          Inr (u\<lparr>u_fragment := frag,
                 u_rawfragment := (if f = escape_mode encodeFragment frag then [] else f)\<rparr>))"

definition split_query :: "string \<Rightarrow> url \<Rightarrow> string \<times> url" where
  "split_query rest u =
     (if rest \<noteq> [] \<and> last rest = CHR ''?'' \<and> count_list rest (CHR ''?'') = 1
      then (butlast rest, u\<lparr>u_forcequery := True\<rparr>)
      else (case Cut (CHR ''?'') rest of (a, q, _) \<Rightarrow> (a, u\<lparr>u_rawquery := q\<rparr>)))"

definition split_authority :: "string \<Rightarrow> string \<times> string" where
  "split_authority auth = (takeWhile (\<lambda>c. c \<noteq> CHR ''/'') auth, dropWhile (\<lambda>c. c \<noteq> CHR ''/'') auth)"

text \<open>The parser without the fragment, of a URL that does not come from a request line.\<close>

definition parse_hier :: "authority_parser \<Rightarrow> string \<Rightarrow> url \<Rightarrow> go_error + url" where
  "parse_hier pa rest u =
     (if \<not> HasPrefix rest ''/'' \<and> u_scheme u \<noteq> [] then Inr (u\<lparr>u_opaque := rest\<rparr>)
      else if \<not> HasPrefix rest ''/'' \<and> CHR '':'' \<in> set (fst (Cut (CHR ''/'') rest))
      then Inl (Err ''first path segment in URL cannot contain colon'')
      else if (u_scheme u \<noteq> [] \<or> \<not> HasPrefix rest ''///'') \<and> HasPrefix rest ''//''
      then (case pa (fst (split_authority (drop 2 rest))) of
              Inl e \<Rightarrow> Inl e
            | Inr (user, host) \<Rightarrow>
                set_path (snd (split_authority (drop 2 rest))) (u\<lparr>u_user := user, u_host := host\<rparr>))
      else if u_scheme u \<noteq> [] \<and> HasPrefix rest ''/'' then set_path rest (u\<lparr>u_omithost := True\<rparr>)
      else set_path rest u)"

definition parse_nofrag :: "authority_parser \<Rightarrow> string \<Rightarrow> go_error + url" where
  "parse_nofrag pa raw =
     (if \<exists>c \<in> set raw. ctl_byte c then Inl (Err ''invalid control character in URL'')
      else if raw = ''*'' then Inr (empty_url\<lparr>u_path := ''*''\<rparr>)
      else case getScheme raw of
        Inl e \<Rightarrow> Inl e
      | Inr (scheme, rest0) \<Rightarrow>
        (case split_query rest0 (empty_url\<lparr>u_scheme := lower_string scheme\<rparr>) of (rest, u) \<Rightarrow>
           parse_hier pa rest u))"

definition url_parse :: "authority_parser \<Rightarrow> string \<Rightarrow> go_error + url" where
  "url_parse pa raw =
     (case Cut (CHR ''#'') raw of (u, frag, _) \<Rightarrow>
      (case parse_nofrag pa u of
         Inl e \<Rightarrow> Inl e
       | Inr x \<Rightarrow> if frag = [] then Inr x else set_fragment frag x))"

section \<open>Printing a URL\<close>

definition escaped_path :: "url \<Rightarrow> string" where
  "escaped_path u =
     (if u_rawpath u \<noteq> [] \<and> validEncoded encodePath (u_rawpath u) \<and>
         unescape False (u_rawpath u) = Some (u_path u) then u_rawpath u
      else if u_path u = ''*'' then ''*''
      else escape_mode encodePath (u_path u))"

definition escaped_fragment :: "url \<Rightarrow> string" where
  "escaped_fragment u =
     (if u_rawfragment u \<noteq> [] \<and> validEncoded encodeFragment (u_rawfragment u) \<and>
         unescape False (u_rawfragment u) = Some (u_fragment u) then u_rawfragment u
      else escape_mode encodeFragment (u_fragment u))"

definition authority_text :: "url \<Rightarrow> string" where
  "authority_text u =
     (if u_scheme u \<noteq> [] \<or> u_host u \<noteq> [] \<or> u_user u \<noteq> None then
        (if u_omithost u \<and> u_host u = [] \<and> u_user u = None then []
         else (if u_host u \<noteq> [] \<or> u_path u \<noteq> [] \<or> u_user u \<noteq> None then ''//'' else []) @
           (case u_user u of None \<Rightarrow> [] | Some ui \<Rightarrow> ui @ ''@'') @ u_host u)
      else [])"

definition hierarchy_text :: "url \<Rightarrow> string" where
  "hierarchy_text u =
     (let buf = (if u_scheme u \<noteq> [] then u_scheme u @ '':'' else []) @ authority_text u;
          path = escaped_path u;
          buf2 = (if path \<noteq> [] \<and> hd path \<noteq> CHR ''/'' \<and> u_host u \<noteq> [] then buf @ ''/'' else buf);
          buf3 = (if buf2 = [] \<and> CHR '':'' \<in> set (fst (Cut (CHR ''/'') path)) then ''./'' else buf2)
      in buf3 @ path)"

definition url_string :: "url \<Rightarrow> string" where
  "url_string u =
     (if u_opaque u \<noteq> [] then (if u_scheme u \<noteq> [] then u_scheme u @ '':'' else []) @ u_opaque u
      else hierarchy_text u) @
     (if u_forcequery u \<or> u_rawquery u \<noteq> [] then ''?'' @ u_rawquery u else []) @
     (if u_fragment u \<noteq> [] then ''#'' @ escaped_fragment u else [])"

section \<open>The redirect filter\<close>

definition strip_origin :: "url \<Rightarrow> url" where
  "strip_origin u = u\<lparr>u_scheme := [], u_host := [], u_user := None, u_opaque := [], u_omithost := True\<rparr>"

definition EnsureNoOpenRedirect :: "authority_parser \<Rightarrow> string \<Rightarrow> go_error + string" where
  "EnsureNoOpenRedirect pa redirect =
     (case url_parse pa redirect of
        Inl e \<Rightarrow> Inl e
      | Inr uri0 \<Rightarrow>
          (let uri = strip_origin uri0 in
           if u_path uri \<noteq> [] \<and> \<not> HasPrefix (u_path uri) ''/''
           then Inl (Err ''invalid redirect path'')
           else Inr (url_string uri)))"

section \<open>Lemmas\<close>

lemma ensure_ok_iff:
  "EnsureNoOpenRedirect pa r = Inr s \<longleftrightarrow>
     (\<exists>u. url_parse pa r = Inr u \<and> (u_path u = [] \<or> HasPrefix (u_path u) ''/'') \<and>
        s = url_string (strip_origin u))"
  by (auto simp: EnsureNoOpenRedirect_def strip_origin_def Let_def split: sum.splits)

lemma escape_hd: "\<not> should c \<Longrightarrow> escape q should (c # s) = c # escape q should s"
  by simp

lemma slash_not_escaped [simp]: "\<not> shouldEscape m (CHR ''/'')"
  by (simp add: alphanum_def is_lower_def is_upper_def)

lemma unescape_slash:
  "unescape False p = Some (CHR ''/'' # t) \<Longrightarrow> \<exists>q. p = CHR ''/'' # q \<or> p = percent # q"
  by (cases p) (auto split: if_splits)

lemma HasPrefix_slash: "HasPrefix p ''/'' \<longleftrightarrow> (\<exists>t. p = CHR ''/'' # t)"
  by (cases p) (auto simp: HasPrefix_def)

lemma HasPrefix_slash2: "HasPrefix p ''//'' \<longleftrightarrow> (\<exists>t. p = CHR ''/'' # CHR ''/'' # t)"
  by (auto simp: HasPrefix_iff)

lemma escaped_path_start:
  assumes "HasPrefix (u_path u) ''/''"
  shows "\<exists>q. escaped_path u = CHR ''/'' # q \<or> escaped_path u = percent # q"
  using assms unescape_slash
  by (auto simp: escaped_path_def HasPrefix_slash escape_mode_def)

text \<open>What the filter prints: an optional dot segment, the path, then query and fragment.\<close>

lemma strip_string:
  "url_string (strip_origin u) =
     (if CHR '':'' \<in> set (fst (Cut (CHR ''/'') (escaped_path u))) then ''./'' else []) @ escaped_path u @
     (if u_forcequery u \<or> u_rawquery u \<noteq> [] then ''?'' @ u_rawquery u else []) @
     (if u_fragment u \<noteq> [] then ''#'' @ escaped_fragment u else [])"
  by (simp add: url_string_def hierarchy_text_def authority_text_def strip_origin_def Let_def
      escaped_path_def escaped_fragment_def)

lemma escaped_path_Nil: "u_path u = [] \<Longrightarrow> u_rawpath u = [] \<Longrightarrow> escaped_path u = []"
  by (simp add: escaped_path_def escape_mode_def)

lemma set_path_rawpath: "set_path p v = Inr u \<Longrightarrow> u_path u = [] \<Longrightarrow> u_rawpath u = []"
proof -
  assume a: "set_path p v = Inr u" "u_path u = []"
  have "unescape False p = Some [] \<Longrightarrow> p = []"
    by (cases p) (auto split: if_splits list.splits)
  with a show ?thesis by (auto simp: set_path_def escape_mode_def split: option.splits)
qed

lemma set_path_fields:
  "set_path p v = Inr u \<Longrightarrow> unescape False p = Some (u_path u) \<and> u_rawquery u = u_rawquery v \<and>
     u_forcequery u = u_forcequery v \<and> u_fragment u = u_fragment v"
  by (auto simp: set_path_def split: option.splits)

lemma set_fragment_path:
  "set_fragment f v = Inr u \<Longrightarrow> u_path u = u_path v \<and> u_rawpath u = u_rawpath v"
  by (auto simp: set_fragment_def split: option.splits)

lemma split_query_path:
  "split_query r v = (rest, u) \<Longrightarrow> u_path u = u_path v \<and> u_rawpath u = u_rawpath v"
  by (auto simp: split_query_def split: if_splits prod.splits)

lemma parse_hier_rawpath:
  assumes "parse_hier pa rest v = Inr u" "u_path u = []" "u_rawpath v = []"
  shows "u_rawpath u = []"
  using assms(1,3) set_path_rawpath [OF _ assms(2)] unfolding parse_hier_def
  by (simp split: if_split_asm sum.split_asm prod.split_asm) (fastforce+)?

lemma parse_nofrag_rawpath:
  assumes "parse_nofrag pa raw = Inr u" "u_path u = []"
  shows "u_rawpath u = []"
proof (cases "raw = ''*''")
  case True
  with assms show ?thesis
    by (auto simp: parse_nofrag_def empty_url_def split: if_split_asm)
next
  case False
  with assms(1) obtain scheme r0 where
    "parse_hier pa (fst (split_query r0 (empty_url\<lparr>u_scheme := lower_string scheme\<rparr>)))
       (snd (split_query r0 (empty_url\<lparr>u_scheme := lower_string scheme\<rparr>))) = Inr u"
    by (simp add: parse_nofrag_def case_prod_beta split: if_split_asm sum.split_asm)
  moreover have "u_rawpath (snd (split_query r0 (empty_url\<lparr>u_scheme := lower_string scheme\<rparr>))) = []"
    using split_query_path [OF prod.collapse [symmetric], of r0 "empty_url\<lparr>u_scheme := lower_string scheme\<rparr>"]
    by (simp add: empty_url_def)
  ultimately show ?thesis using assms(2) parse_hier_rawpath by blast
qed

lemma url_parse_rawpath:
  assumes "url_parse pa raw = Inr u" "u_path u = []"
  shows "u_rawpath u = []"
proof -
  obtain a f b where c: "Cut (CHR ''#'') raw = (a, f, b)" by (cases "Cut (CHR ''#'') raw")
  from assms(1) c obtain x where x: "parse_nofrag pa a = Inr x" "x = u \<or> set_fragment f x = Inr u"
    unfolding url_parse_def by (auto split: sum.split_asm if_split_asm)
  from x(2) have "u_path u = u_path x \<and> u_rawpath u = u_rawpath x"
    using set_fragment_path by blast
  with x(1) assms(2) show ?thesis using parse_nofrag_rawpath by simp
qed

text \<open>The first byte of an accepted redirect cannot begin a scheme.\<close>

definition local_start :: "char \<Rightarrow> bool" where
  "local_start c \<longleftrightarrow> c \<in> {CHR ''/'', CHR ''?'', CHR ''#'', CHR ''.'', percent}"

lemma local_start [simp]:
  "local_start (CHR ''/'')" "local_start (CHR ''?'')" "local_start (CHR ''#'')" "local_start (CHR ''.'')"
  "local_start percent"
  by (simp_all add: local_start_def)

lemma getScheme_Nil [simp]: "getScheme [] = Inr ([], [])"
  by (simp add: getScheme_def)

lemma getScheme_none: "local_start c \<Longrightarrow> getScheme (c # t) = Inr ([], c # t)"
  unfolding local_start_def getScheme_def percent_def insert_iff empty_iff
  by (elim disjE) (simp_all add: is_lower_def is_upper_def word_le_nat_alt)

lemma ensure_first:
  assumes "EnsureNoOpenRedirect pa r = Inr s"
  shows "s = [] \<or> local_start (hd s)"
proof -
  obtain u where u: "url_parse pa r = Inr u" "u_path u = [] \<or> HasPrefix (u_path u) ''/''"
      "s = url_string (strip_origin u)"
    using assms unfolding ensure_ok_iff by blast
  show ?thesis
  proof (cases "u_path u = []")
    case True
    with u(1) have "escaped_path u = []" by (simp add: escaped_path_Nil url_parse_rawpath)
    then show ?thesis unfolding u(3) strip_string by simp
  next
    case False
    with u(2) escaped_path_start obtain q where "escaped_path u = CHR ''/'' # q \<or> escaped_path u = percent # q"
      by blast
    then show ?thesis unfolding u(3) strip_string by auto
  qed
qed

lemma ensure_no_scheme:
  assumes "EnsureNoOpenRedirect pa r = Inr s"
  shows "getScheme s = Inr ([], s)"
  using ensure_first [OF assms] getScheme_none [of "hd s" "tl s"] by (cases s) simp_all

text \<open>An accepted redirect names a host only when the parsed path itself starts with two slashes.\<close>

lemma escape_slash: "escape False should s = CHR ''/'' # t \<Longrightarrow> \<exists>s'. s = CHR ''/'' # s' \<and> escape False should s' = t"
  by (cases s) (auto simp: percent_def Let_def split: if_splits)

lemma escaped_path_slash2:
  assumes "HasPrefix (escaped_path u) ''//''"
  shows "HasPrefix (u_path u) ''//''"
proof -
  obtain t where t: "escaped_path u = CHR ''/'' # CHR ''/'' # t"
    using assms by (auto simp: HasPrefix_slash2)
  show ?thesis
  proof (cases "u_rawpath u \<noteq> [] \<and> validEncoded encodePath (u_rawpath u) \<and>
         unescape False (u_rawpath u) = Some (u_path u)")
    case True
    with t have "unescape False (CHR ''/'' # CHR ''/'' # t) = Some (u_path u)"
      by (simp add: escaped_path_def)
    then show ?thesis by (simp add: HasPrefix_slash2 percent_def) (metis option.inject map_option_eq_Some)
  next
    case False
    with t have "escape_mode encodePath (u_path u) = CHR ''/'' # CHR ''/'' # t"
      by (auto simp: escaped_path_def split: if_splits)
    then show ?thesis
      unfolding escape_mode_def HasPrefix_slash2 by (blast dest: escape_slash)
  qed
qed

lemma HasPrefix_app: "HasPrefix (p @ t) ''//'' \<Longrightarrow> p = CHR ''/'' # q \<Longrightarrow> t = [] \<or> hd t \<noteq> CHR ''/'' \<Longrightarrow> HasPrefix p ''//''"
  unfolding HasPrefix_slash2 by (cases q; cases t) auto

lemma ensure_host_only_from_path:
  assumes "EnsureNoOpenRedirect pa r = Inr s" "HasPrefix s ''//''"
  shows "\<exists>u. url_parse pa r = Inr u \<and> HasPrefix (u_path u) ''//''"
proof -
  obtain u where u: "url_parse pa r = Inr u" "u_path u = [] \<or> HasPrefix (u_path u) ''/''"
      "s = url_string (strip_origin u)"
    using assms(1) unfolding ensure_ok_iff by blast
  define t where "t = (if u_forcequery u \<or> u_rawquery u \<noteq> [] then ''?'' @ u_rawquery u else []) @
     (if u_fragment u \<noteq> [] then ''#'' @ escaped_fragment u else [])"
  have t: "t = [] \<or> hd t \<noteq> CHR ''/''" by (simp add: t_def)
  have s: "s = (if CHR '':'' \<in> set (fst (Cut (CHR ''/'') (escaped_path u))) then ''./'' else []) @ escaped_path u @ t"
    unfolding u(3) strip_string t_def by simp
  show ?thesis
  proof (cases "u_path u = []")
    case True
    with u(1) have "escaped_path u = []" by (simp add: escaped_path_Nil url_parse_rawpath)
    with assms(2) t have False unfolding s HasPrefix_slash2 by auto
    then show ?thesis ..
  next
    case False
    with u(2) escaped_path_start obtain q where
      q: "escaped_path u = CHR ''/'' # q \<or> escaped_path u = percent # q" by blast
    show ?thesis
    proof (cases "escaped_path u = CHR ''/'' # q")
      case True
      with assms(2) have "HasPrefix (escaped_path u @ t) ''//''" unfolding s by simp
      with True t have "HasPrefix (escaped_path u) ''//''" by (rule_tac HasPrefix_app)
      then show ?thesis using u(1) escaped_path_slash2 by blast
    next
      case nf: False
      with q have p: "escaped_path u = percent # q" by simp
      have False using assms(2) unfolding s p HasPrefix_slash2 percent_def by (auto split: if_splits)
      then show ?thesis ..
    qed
  qed
qed

text \<open>A local path passes unchanged.\<close>

definition plain_char :: "char \<Rightarrow> bool" where
  "plain_char c \<longleftrightarrow> unreserved c \<or> c = CHR ''/''"

lemma plain_not_percent: "\<not> plain_char percent"
  by code_simp

lemma plain_unescape: "list_all plain_char p \<Longrightarrow> unescape False p = Some p"
  using plain_not_percent by (induction p) auto

lemma plain_escape: "list_all plain_char p \<Longrightarrow> escape_mode m p = p"
  by (induction p) (auto simp: escape_mode_def plain_char_def unreserved_def)

lemma plain_no:
  "list_all plain_char p \<Longrightarrow> CHR ''?'' \<notin> set p \<and> CHR ''#'' \<notin> set p \<and> CHR '':'' \<notin> set p"
proof -
  have "\<not> plain_char (CHR ''?'')" "\<not> plain_char (CHR ''#'')" "\<not> plain_char (CHR '':'')" by code_simp+
  then show "list_all plain_char p \<Longrightarrow> ?thesis" by (auto simp: list_all_iff)
qed

lemma plain_not_ctl: "plain_char c \<Longrightarrow> \<not> ctl_byte c"
proof -
  assume "plain_char c"
  then have "32 \<le> (of_char c :: nat) \<and> c \<noteq> CHR 0x7F"
    by (auto simp: plain_char_def unreserved_def alphanum_def is_lower_def is_upper_def word_le_nat_alt)
  then show ?thesis by (auto simp: ctl_byte_def)
qed

lemma split_query_plain:
  assumes "CHR ''?'' \<notin> set p" "q \<noteq> []"
  shows "split_query p u = (p, u\<lparr>u_rawquery := []\<rparr>)"
    "split_query (p @ CHR ''?'' # q) u = (p, u\<lparr>u_rawquery := q\<rparr>)"
proof -
  show "split_query p u = (p, u\<lparr>u_rawquery := []\<rparr>)"
    using assms(1) by (auto simp: split_query_def dest: last_in_set)
  have "\<not> (last (p @ CHR ''?'' # q) = CHR ''?'' \<and> count_list (p @ CHR ''?'' # q) (CHR ''?'') = 1)"
  proof
    assume a: "last (p @ CHR ''?'' # q) = CHR ''?'' \<and> count_list (p @ CHR ''?'' # q) (CHR ''?'') = 1"
    then have "CHR ''?'' \<in> set q" using assms(2) last_in_set [of q] by simp
    moreover have "count_list q (CHR ''?'') = 0" using a by simp
    ultimately show False by (simp add: count_list_0_iff)
  qed
  then show "split_query (p @ CHR ''?'' # q) u = (p, u\<lparr>u_rawquery := q\<rparr>)"
    using assms(1) by (auto simp: split_query_def)
qed

lemma local_path_parse:
  assumes p: "list_all plain_char p" "HasPrefix p ''/''" "\<not> HasPrefix p ''//''"
    and q: "list_all (\<lambda>c. \<not> ctl_byte c \<and> c \<noteq> CHR ''#'') q"
  shows "url_parse pa (p @ (if q = [] then [] else CHR ''?'' # q)) = Inr (empty_url\<lparr>u_path := p, u_rawquery := q\<rparr>)"
proof -
  obtain p' where p': "p = CHR ''/'' # p'" using p(2) by (auto simp: HasPrefix_slash)
  define raw where "raw = p @ (if q = [] then [] else CHR ''?'' # q)"
  have hash: "CHR ''#'' \<notin> set raw" using plain_no [OF p(1)] q by (auto simp: raw_def list_all_iff)
  have "\<not> ctl_byte (CHR ''?'')" by code_simp
  then have ctl: "\<not> (\<exists>c \<in> set raw. ctl_byte c)"
    using p(1) q plain_not_ctl by (auto simp: raw_def list_all_iff)
  have sch: "getScheme raw = Inr ([], raw)"
    unfolding raw_def p' using getScheme_none [of "CHR ''/''"] by simp
  have sq: "split_query raw (empty_url\<lparr>u_scheme := lower_string []\<rparr>) = (p, empty_url\<lparr>u_rawquery := q\<rparr>)"
    using split_query_plain [of p q] plain_no [OF p(1)] split_query_plain(1) [of p "''x''"]
    by (cases "q = []") (simp_all add: raw_def lower_string_def empty_url_def)
  have "parse_hier pa p (empty_url\<lparr>u_rawquery := q\<rparr>) = set_path p (empty_url\<lparr>u_rawquery := q\<rparr>)"
    using p(2,3) by (simp add: parse_hier_def empty_url_def)
  also have "\<dots> = Inr (empty_url\<lparr>u_path := p, u_rawquery := q\<rparr>)"
    using plain_unescape [OF p(1)] plain_escape [OF p(1)] by (simp add: set_path_def empty_url_def)
  finally have "parse_nofrag pa raw = Inr (empty_url\<lparr>u_path := p, u_rawquery := q\<rparr>)"
    using ctl sch sq p' by (simp add: parse_nofrag_def raw_def)
  then show ?thesis using hash unfolding url_parse_def raw_def [symmetric] by simp
qed

lemma ensure_local_path:
  assumes p: "list_all plain_char p" "HasPrefix p ''/''" "\<not> HasPrefix p ''//''"
    and q: "list_all (\<lambda>c. \<not> ctl_byte c \<and> c \<noteq> CHR ''#'') q"
  defines "r \<equiv> p @ (if q = [] then [] else CHR ''?'' # q)"
  shows "EnsureNoOpenRedirect pa r = Inr r"
proof -
  have e: "escaped_path (empty_url\<lparr>u_path := p, u_rawquery := q\<rparr>) = p"
    using plain_escape [OF p(1)] p(2) by (auto simp: escaped_path_def empty_url_def)
  have "CHR '':'' \<notin> set (fst (Cut (CHR ''/'') p))"
    using p(2) by (auto simp: HasPrefix_slash)
  then have "url_string (strip_origin (empty_url\<lparr>u_path := p, u_rawquery := q\<rparr>)) = r"
    unfolding strip_string e by (simp add: empty_url_def r_def)
  then show ?thesis
    unfolding ensure_ok_iff r_def local_path_parse [OF p q] using p(2)
    by (intro exI [of _ "empty_url\<lparr>u_path := p, u_rawquery := q\<rparr>"]) (simp add: r_def)
qed

text \<open>The filter lets the host of a URL whose path has an empty first segment through.\<close>

lemma ensure_lets_host_through:
  assumes "pa ''a'' = Inr (None, ''a'')"
  shows "EnsureNoOpenRedirect pa ''http://a//evil.com/'' = Inr ''//evil.com/''"
proof -
  have g: "getScheme ''http://a//evil.com/'' = Inr (''http'', ''//a//evil.com/'')" by code_simp
  have l: "lower_string ''http'' = ''http''" by code_simp
  have c: "\<not> (\<exists>c\<in>set ''http://a//evil.com/''. ctl_byte c)" by code_simp
  have s: "split_query ''//a//evil.com/'' u = (''//a//evil.com/'', u\<lparr>u_rawquery := []\<rparr>)" for u
    by (simp add: split_query_def)
  have d: "split_authority (drop 2 ''//a//evil.com/'') = (''a'', ''//evil.com/'')" by code_simp
  have p: "list_all plain_char ''//evil.com/''" by code_simp
  define u where "u = empty_url\<lparr>u_scheme := ''http'', u_host := ''a'', u_path := ''//evil.com/''\<rparr>"
  have "set_path ''//evil.com/'' (empty_url\<lparr>u_scheme := ''http'', u_rawquery := [], u_user := None, u_host := ''a''\<rparr>) = Inr u"
    using plain_unescape [OF p] plain_escape [OF p] by (simp add: set_path_def u_def empty_url_def)
  then have "parse_hier pa ''//a//evil.com/'' (empty_url\<lparr>u_scheme := ''http'', u_rawquery := []\<rparr>) = Inr u"
    using assms d by (simp add: parse_hier_def HasPrefix_def)
  then have "parse_nofrag pa ''http://a//evil.com/'' = Inr u"
    using c g s l by (simp add: parse_nofrag_def)
  then have parse: "url_parse pa ''http://a//evil.com/'' = Inr u"
    by (simp add: url_parse_def)
  have e: "escaped_path u = ''//evil.com/''"
    using plain_escape [OF p] by (simp add: escaped_path_def u_def empty_url_def)
  have "url_string (strip_origin u) = ''//evil.com/''"
    unfolding strip_string e by (simp add: u_def empty_url_def)
  then show ?thesis
    using parse unfolding ensure_ok_iff by (intro exI [of _ u]) (simp add: u_def HasPrefix_def)
qed

section \<open>The backend of a host\<close>

definition SelectHTTPHandler :: "(string, 'h) gomap \<Rightarrow> string \<Rightarrow> 'h option" where
  "SelectHTTPHandler backends host =
     (case mget backends host of
        Some b \<Rightarrow> Some b
      | None \<Rightarrow>
          (case mget backends (''*.'' @ Join ''.'' (drop 1 (Split (CHR ''.'') host))) of
             Some b \<Rightarrow> Some b
           | None \<Rightarrow> mget backends ''*''))"

lemma select_handler_spec:
  "SelectHTTPHandler backends host =
     (case mget backends host of Some b \<Rightarrow> Some b
      | None \<Rightarrow> (case mget backends (''*.'' @ fst (snd (Cut (CHR ''.'') host))) of Some b \<Rightarrow> Some b
      | None \<Rightarrow> mget backends ''*''))"
proof -
  have "Join ''.'' (drop 1 (Split (CHR ''.'') host)) = fst (snd (Cut (CHR ''.'') host))"
  proof (cases "Cut (CHR ''.'') host")
    case (fields a b f)
    then show ?thesis
      using Cut_append [OF fields] by (cases f) (auto simp: Split_append_sep Join_Split dest: Cut_not_found)
  qed
  then show ?thesis unfolding SelectHTTPHandler_def by (simp only:)
qed

section \<open>Properties\<close>

text \<open>
  C39: a redirect that the filter accepts carries no scheme, and it can only name a host (start with
  two slashes) when the parsed path of the input itself starts with two slashes.
\<close>

theorem EnsureNoOpenRedirect_local:
  assumes "EnsureNoOpenRedirect pa r = Inr s"
  shows "getScheme s = Inr ([], s) \<and>
    (HasPrefix s ''//'' \<longrightarrow> (\<exists>u. url_parse pa r = Inr u \<and> HasPrefix (u_path u) ''//''))"
  using ensure_no_scheme [OF assms] ensure_host_only_from_path [OF assms] by blast

theorem EnsureNoOpenRedirect_local_witness:
  "EnsureNoOpenRedirect (\<lambda>_. Inl ErrNoCookie) ''/a/b?x=1'' = Inr ''/a/b?x=1'' \<and>
   getScheme ''/a/b?x=1'' = Inr ([], ''/a/b?x=1'')"
proof -
  have "list_all plain_char ''/a/b''" "list_all (\<lambda>c. \<not> ctl_byte c \<and> c \<noteq> CHR ''#'') ''x=1''"
    by code_simp+
  then have e: "EnsureNoOpenRedirect (\<lambda>_. Inl ErrNoCookie) ''/a/b?x=1'' = Inr ''/a/b?x=1''"
    using ensure_local_path [of "''/a/b''" "''x=1''"] by (simp add: HasPrefix_def)
  with EnsureNoOpenRedirect_local [OF e] show ?thesis by simp
qed

text \<open>
  the filter does not change a redirect to a plain path of the same host, with any query.
\<close>

theorem EnsureNoOpenRedirect_identity:
  assumes "list_all plain_char p" "HasPrefix p ''/''" "\<not> HasPrefix p ''//''"
    and "list_all (\<lambda>c. \<not> ctl_byte c \<and> c \<noteq> CHR ''#'') q"
  shows "EnsureNoOpenRedirect pa (p @ (if q = [] then [] else CHR ''?'' # q)) =
    Inr (p @ (if q = [] then [] else CHR ''?'' # q))"
  using ensure_local_path [OF assms] .

theorem EnsureNoOpenRedirect_identity_witness:
  "EnsureNoOpenRedirect (\<lambda>_. Inl ErrNoCookie) ''/a-b/c.html?__goaway_id=%20'' = Inr ''/a-b/c.html?__goaway_id=%20''"
proof -
  have "list_all plain_char ''/a-b/c.html''" "list_all (\<lambda>c. \<not> ctl_byte c \<and> c \<noteq> CHR ''#'') ''__goaway_id=%20''"
    by code_simp+
  then show ?thesis
    using EnsureNoOpenRedirect_identity [of "''/a-b/c.html''" "''__goaway_id=%20''"] by (simp add: HasPrefix_def)
qed

text \<open>
  the filter is not complete. A URL with a host whose path has an empty first segment is accepted,
  and the text that is returned names the host of that path, for every parser of authorities that
  takes the name of the first host as it is.
\<close>

theorem EnsureNoOpenRedirect_open:
  assumes "pa ''a'' = Inr (None, ''a'')"
  shows "EnsureNoOpenRedirect pa ''http://a//evil.com/'' = Inr ''//evil.com/''"
  using assms by (rule ensure_lets_host_through)

theorem EnsureNoOpenRedirect_open_witness:
  "EnsureNoOpenRedirect (\<lambda>h. Inr (None, h)) ''http://a//evil.com/'' = Inr ''//evil.com/''"
  by (rule EnsureNoOpenRedirect_open) simp

text \<open>
  a backend is chosen by the exact host name first, then by the wildcard for everything after
  the first dot, then by the single star.
\<close>

theorem SelectHTTPHandler_order:
  "SelectHTTPHandler backends host =
     (case mget backends host of Some b \<Rightarrow> Some b
      | None \<Rightarrow> (case mget backends (''*.'' @ fst (snd (Cut (CHR ''.'') host))) of Some b \<Rightarrow> Some b
      | None \<Rightarrow> mget backends ''*''))"
  by (rule select_handler_spec)

end
