(* ===== verification/Challenge_Types.thy ===== *)
theory Challenge_Types
  imports Hex "HOL-Library.Product_Lexorder"
begin

unbundle bit_operations_syntax

text \<open>
  The enumerations of \<open>lib/challenge/types.go\<close>, the challenge key of \<open>key.go\<close> with its flags, and the
  verifier of keys that \<open>helper.go\<close> hands to the challenges (\<open>NewKeyVerifier\<close>).
\<close>

section \<open>Results and states\<close>

datatype Class = ClassTransparent | ClassBlocking

datatype VerifyState = VerifyStateNone | VerifyStatePass | VerifyStateBrief | VerifyStateFull

datatype VerifyResult =
    VerifyResultNone | VerifyResultFail | VerifyResultSkip | VerifyResultNotOK | VerifyResultOK

text \<open>The constants are numbered from zero in the order of their declaration, and compared.\<close>

fun result_code :: "VerifyResult \<Rightarrow> nat" where
  "result_code VerifyResultNone = 0"
| "result_code VerifyResultFail = 1"
| "result_code VerifyResultSkip = 2"
| "result_code VerifyResultNotOK = 3"
| "result_code VerifyResultOK = 4"

lemma result_code_inj [simp]: "result_code a = result_code b \<longleftrightarrow> a = b"
  by (cases a; cases b) auto

instantiation VerifyResult :: linorder
begin

definition less_eq_VerifyResult :: "VerifyResult \<Rightarrow> VerifyResult \<Rightarrow> bool" where
  "less_eq_VerifyResult a b \<longleftrightarrow> result_code a \<le> result_code b"

definition less_VerifyResult :: "VerifyResult \<Rightarrow> VerifyResult \<Rightarrow> bool" where
  "less_VerifyResult a b \<longleftrightarrow> result_code a < result_code b"

instance
  by standard (auto simp: less_eq_VerifyResult_def less_VerifyResult_def)

end

definition result_Ok :: "VerifyResult \<Rightarrow> bool" where
  "result_Ok r \<longleftrightarrow> r \<ge> VerifyResultOK"

lemma result_Ok_iff [simp]: "result_Ok r \<longleftrightarrow> r = VerifyResultOK"
  by (cases r) (simp_all add: result_Ok_def less_eq_VerifyResult_def)

fun result_String :: "VerifyResult \<Rightarrow> string" where
  "result_String VerifyResultNone = ''None''"
| "result_String VerifyResultFail = ''Fail''"
| "result_String VerifyResultSkip = ''Skip''"
| "result_String VerifyResultNotOK = ''NotOK''"
| "result_String VerifyResultOK = ''OK''"

text \<open>\<open>VerifyState.String\<close> panics on a state without a name.\<close>

fun state_String :: "VerifyState \<Rightarrow> go_error + string" where
  "state_String VerifyStatePass = Inr ''PASS''"
| "state_String VerifyStateBrief = Inr ''BRIEF''"
| "state_String VerifyStateFull = Inr ''FULL''"
| "state_String VerifyStateNone = Inl (Err ''unsupported'')"

section \<open>Keys\<close>

type_synonym key = bytes

definition KeySize :: nat where "KeySize = 32"

definition zero_key :: key where "zero_key = replicate KeySize 0"

definition valid_key_size :: "key \<Rightarrow> bool" where
  "valid_key_size k \<longleftrightarrow> length k = KeySize"

definition KeyFlagIsIPv4 :: byte where "KeyFlagIsIPv4 = 1"

definition key_Set :: "byte \<Rightarrow> key \<Rightarrow> key" where
  "key_Set flags k = k[0 := k ! 0 OR flags]"

definition key_Get :: "byte \<Rightarrow> key \<Rightarrow> byte" where
  "key_Get flags k = k ! 0 AND flags"

definition key_Unset :: "byte \<Rightarrow> key \<Rightarrow> key" where
  "key_Unset flags k = k[0 := k ! 0 AND NOT flags]"

definition hex_error_to_go :: "hex_error \<Rightarrow> go_error" where
  "hex_error_to_go e =
     (case e of
        InvalidByteError p \<Rightarrow> Err ''encoding/hex: invalid byte''
      | ErrLength \<Rightarrow> Err ''encoding/hex: odd length hex string'')"

definition KeyFromString :: "string \<Rightarrow> go_error + key" where
  "KeyFromString s =
     (case hex_decode s of
        Inl e \<Rightarrow> Inl (hex_error_to_go e)
      | Inr b \<Rightarrow> if length b \<noteq> KeySize then Inl (Err ''invalid challenge key'') else Inr b)"

section \<open>The key verifier\<close>

definition key_issue :: "key \<Rightarrow> string" where
  "key_issue k = hex_encode k"

text \<open>A \<open>VerifyFunc\<close> returns a result and an error, and both are values: one does not rule out the other.\<close>

definition key_verify :: "key \<Rightarrow> bytes \<Rightarrow> VerifyResult \<times> go_error option" where
  "key_verify k token =
     (case hex_decode (string_of token) of
        Inl e \<Rightarrow> (VerifyResultFail, Some (hex_error_to_go e))
      | Inr expectedKey \<Rightarrow>
          (if length expectedKey \<noteq> KeySize then (VerifyResultFail, Some ErrInvalidToken)
           else if k = expectedKey then (VerifyResultOK, None)
           else if key_Get KeyFlagIsIPv4 k = 0 \<and> key_Get KeyFlagIsIPv4 expectedKey > 0
           then (VerifyResultOK, Some ErrMismatchedTokenHappyEyeballs)
           else (VerifyResultFail, Some ErrMismatchedToken)))"

section \<open>Lemmas\<close>

lemma key_Set_Get: "k \<noteq> [] \<Longrightarrow> key_Get f (key_Set f k) = f"
  by (simp add: key_Get_def key_Set_def word_bw_comms)

lemma key_Unset_Get: "k \<noteq> [] \<Longrightarrow> key_Get f (key_Unset f k) = 0"
  by (simp add: key_Get_def key_Unset_def word_bw_assocs)

lemma key_Set_Unset_length [simp]:
  "length (key_Set f k) = length k" "length (key_Unset f k) = length k"
  by (simp_all add: key_Set_def key_Unset_def)

lemma key_Get_disjoint: "k \<noteq> [] \<Longrightarrow> f AND g = 0 \<Longrightarrow> key_Get g (key_Set f k) = key_Get g k"
proof -
  assume a: "k \<noteq> []" "f AND g = 0"
  have "(k ! 0 OR f) AND g = (k ! 0 AND g) OR (f AND g)" by (rule word_ao_dist)
  with a show ?thesis by (simp add: key_Get_def key_Set_def)
qed

lemma key_hex [simp]: "valid_key_size k \<Longrightarrow> KeyFromString (key_issue k) = Inr k"
  by (simp add: KeyFromString_def key_issue_def valid_key_size_def hex_decode_encode)

lemma KeyFromString_size: "KeyFromString s = Inr k \<Longrightarrow> valid_key_size k"
  by (auto simp: KeyFromString_def valid_key_size_def split: sum.splits if_splits)

text \<open>The verifier accepts without an error exactly the text of the key itself, in either case of its letters.\<close>

lemma key_verify_ok_iff:
  "valid_key_size k \<Longrightarrow> key_verify k token = (VerifyResultOK, None) \<longleftrightarrow> KeyFromString (string_of token) = Inr k"
  by (auto simp: key_verify_def KeyFromString_def valid_key_size_def split: sum.splits if_splits)

lemma key_verify_issue: "valid_key_size k \<Longrightarrow> key_verify k (bytes_of (key_issue k)) = (VerifyResultOK, None)"
  by (simp add: key_verify_ok_iff)

lemma key_verify_happy_iff:
  "(\<exists>e. key_verify k token = (VerifyResultOK, Some e)) \<longleftrightarrow>
     (\<exists>kk. KeyFromString (string_of token) = Inr kk \<and> kk \<noteq> k \<and>
        key_Get KeyFlagIsIPv4 k = 0 \<and> key_Get KeyFlagIsIPv4 kk \<noteq> 0)"
  by (auto simp: key_verify_def KeyFromString_def word_neq_0_conv split: sum.splits if_splits)

lemma key_verify_total:
  "key_verify k token = (r, e) \<Longrightarrow>
     r = VerifyResultOK \<and> (e = None \<or> e = Some ErrMismatchedTokenHappyEyeballs) \<or>
     r = VerifyResultFail \<and> e \<noteq> None"
  by (auto simp: key_verify_def split: sum.splits if_splits)

section \<open>Properties\<close>



end
