(* ===== verification/Net_Addr.thy ===== *)
theory Net_Addr
  imports Strconv Query
begin

unbundle bit_operations_syntax

text \<open>
  Network addresses as \<open>net/netip\<close> represents them, the network prefix that a request is bound to
  (\<open>lib/challenge/data.go\<close>) and the address and scheme of a request (\<open>utils/http.go\<close>). The parser
  and the printer of IPv6 text are arguments; IPv4 text is parsed and printed here.
\<close>

datatype addr = AddrNone | V4 "32 word" | V6 "128 word" string

type_synonym addr_port = "addr \<times> 16 word"

definition Is4 :: "addr \<Rightarrow> bool" where
  "Is4 a = (case a of V4 _ \<Rightarrow> True | _ \<Rightarrow> False)"

definition Is6 :: "addr \<Rightarrow> bool" where
  "Is6 a = (case a of V6 _ _ \<Rightarrow> True | _ \<Rightarrow> False)"

definition Is4In6 :: "addr \<Rightarrow> bool" where
  "Is4In6 a = (case a of V6 w _ \<Rightarrow> drop_bit 32 w = 0xffff | _ \<Rightarrow> False)"

definition Unmap :: "addr \<Rightarrow> addr" where
  "Unmap a = (case a of V6 w z \<Rightarrow> if drop_bit 32 w = 0xffff then V4 (ucast w) else a | _ \<Rightarrow> a)"

text \<open>Big-endian bytes of a word.\<close>

definition be_bytes :: "nat \<Rightarrow> 'a::len word \<Rightarrow> bytes" where
  "be_bytes n w = map (\<lambda>i. ucast (drop_bit (8 * i) w)) (rev [0..<n])"

definition AsSlice :: "addr \<Rightarrow> bytes" where
  "AsSlice a = (case a of AddrNone \<Rightarrow> [] | V4 w \<Rightarrow> be_bytes 4 w | V6 w _ \<Rightarrow> be_bytes 16 w)"

definition As16_word :: "addr \<Rightarrow> 128 word" where
  "As16_word a = (case a of AddrNone \<Rightarrow> 0 | V4 w \<Rightarrow> 0xffff00000000 OR ucast w | V6 w _ \<Rightarrow> w)"

definition As16 :: "addr \<Rightarrow> bytes" where
  "As16 a = be_bytes 16 (As16_word a)"

text \<open>\<open>Addr.Prefix(b)\<close> followed by \<open>Prefix.Addr()\<close>: the low bits are cleared, a zone is dropped.\<close>

definition prefix_addr :: "nat \<Rightarrow> addr \<Rightarrow> addr" where
  "prefix_addr b a =
     (case a of
        AddrNone \<Rightarrow> AddrNone
      | V4 w \<Rightarrow> if b > 32 then AddrNone else V4 (push_bit (32 - b) (drop_bit (32 - b) w))
      | V6 w z \<Rightarrow> if b > 128 then AddrNone else V6 (push_bit (128 - b) (drop_bit (128 - b) w)) [])"

definition NetworkPrefix :: "addr_port \<Rightarrow> addr" where
  "NetworkPrefix remote =
     (let address = Unmap (fst remote) in
      if Is4 address then prefix_addr 24 address else prefix_addr 64 address)"

section \<open>Text\<close>

definition parse_octet :: "string \<Rightarrow> (8 word) option" where
  "parse_octet s =
     (if length s > 1 \<and> hd s = CHR ''0'' then None else map_option word_of_nat (ParseUint 8 s))"

definition octets4 :: "8 word \<Rightarrow> 8 word \<Rightarrow> 8 word \<Rightarrow> 8 word \<Rightarrow> 32 word" where
  "octets4 a b c d = (push_bit 24 (ucast a)) OR (push_bit 16 (ucast b)) OR (push_bit 8 (ucast c)) OR ucast d"

definition parseIPv4 :: "string \<Rightarrow> addr option" where
  "parseIPv4 s =
     (case map parse_octet (Split (CHR ''.'') s) of
        [Some a, Some b, Some c, Some d] \<Rightarrow> Some (V4 (octets4 a b c d))
      | _ \<Rightarrow> None)"

fun ParseAddr_scan :: "(string \<Rightarrow> addr option) \<Rightarrow> string \<Rightarrow> string \<Rightarrow> addr option" where
  "ParseAddr_scan p6 s [] = None"
| "ParseAddr_scan p6 s (c # cs) =
     (if c = CHR ''.'' then parseIPv4 s
      else if c = CHR '':'' then p6 s
      else if c = percent then None
      else ParseAddr_scan p6 s cs)"

definition ParseAddr :: "(string \<Rightarrow> addr option) \<Rightarrow> string \<Rightarrow> addr option" where
  "ParseAddr p6 s = ParseAddr_scan p6 s s"

text \<open>The text is cut at its last colon; an IPv6 address must be in square brackets.\<close>

fun cut_last :: "char \<Rightarrow> string \<Rightarrow> (string \<times> string) option" where
  "cut_last c [] = None"
| "cut_last c (x # xs) =
     (case cut_last c xs of
        Some (a, b) \<Rightarrow> Some (x # a, b)
      | None \<Rightarrow> if x = c then Some ([], xs) else None)"

definition ParseAddrPort :: "(string \<Rightarrow> addr option) \<Rightarrow> string \<Rightarrow> addr_port option" where
  "ParseAddrPort p6 s =
     (case cut_last (CHR '':'') s of
        None \<Rightarrow> None
      | Some (ip, port) \<Rightarrow>
          (if ip = [] \<or> port = [] then None
           else if hd ip = CHR ''['' \<and> (length ip < 2 \<or> last ip \<noteq> CHR '']'') then None
           else
             (let v6 = (hd ip = CHR ''['');
                  ip' = (if v6 then butlast (tl ip) else ip)
              in case (ParseUint 16 port, ParseAddr p6 ip') of
                (Some n, Some a) \<Rightarrow>
                  (if v6 \<and> Is4 a \<or> \<not> v6 \<and> Is6 a then None else Some (a, word_of_nat n))
              | _ \<Rightarrow> None)))"

definition addr_string :: "(addr \<Rightarrow> string) \<Rightarrow> addr \<Rightarrow> string" where
  "addr_string s6 a =
     (case a of
        AddrNone \<Rightarrow> ''invalid IP''
      | V4 w \<Rightarrow> Join ''.'' (map (\<lambda>b. decimal (unat b)) (be_bytes 4 w))
      | V6 _ _ \<Rightarrow> s6 a)"

section \<open>The address and the scheme of a request\<close>

definition GetRequestScheme :: "header \<Rightarrow> bool \<Rightarrow> string" where
  "GetRequestScheme header tls =
     (let proto = header_get header ''X-Forwarded-Proto'' in
      if proto = ''http'' \<or> proto = ''https'' then proto
      else if tls then ''https'' else ''http'')"

definition GetRequestAddress ::
    "(string \<Rightarrow> addr option) \<Rightarrow> string \<Rightarrow> header \<Rightarrow> string \<Rightarrow> addr_port" where
  "GetRequestAddress p6 remoteAddr header clientHeader =
     (let strVal = (if clientHeader \<noteq> [] then header_get header clientHeader else remoteAddr);
          strVal = (if strVal \<noteq> [] then hd (Split (CHR '','') strVal) else strVal);
          strVal = (if strVal = [] then remoteAddr else strVal)
      in case ParseAddrPort p6 strVal of
           Some ap \<Rightarrow> ap
         | None \<Rightarrow> (case ParseAddr p6 strVal of None \<Rightarrow> (AddrNone, 0) | Some a \<Rightarrow> (a, 0)))"

section \<open>Lemmas\<close>

lemma length_be_bytes [simp]: "length (be_bytes n w) = n"
  by (simp add: be_bytes_def)

lemma be_bytes_inj:
  fixes v w :: "'a::len word"
  assumes "LENGTH('a) \<le> 8 * n" "be_bytes n v = be_bytes n w"
  shows "v = w"
proof (rule bit_word_eqI)
  fix m assume m: "m < LENGTH('a)"
  define i where "i = m div 8"
  have i: "i < n" using m assms(1) by (simp add: i_def)
  have "\<forall>i \<in> set (rev [0..<n]). (ucast (drop_bit (8 * i) v) :: byte) = ucast (drop_bit (8 * i) w)"
    using assms(2) by (simp add: be_bytes_def)
  with i have "(ucast (drop_bit (8 * i) v) :: byte) = ucast (drop_bit (8 * i) w)" by simp
  then have "bit (ucast (drop_bit (8 * i) v) :: byte) (m mod 8) = bit (ucast (drop_bit (8 * i) w) :: byte) (m mod 8)"
    by simp
  then show "bit v m = bit w m"
    by (simp add: bit_simps i_def mult.commute)
qed

lemma As16_inj: "As16 a = As16 b \<longleftrightarrow> As16_word a = As16_word b"
  unfolding As16_def by (auto intro: be_bytes_inj)

lemma prefix_word_eq:
  fixes v w :: "'a::len word"
  shows "push_bit k (drop_bit k v) = push_bit k (drop_bit k w) \<longleftrightarrow> drop_bit k v = drop_bit k w"
proof
  assume e: "push_bit k (drop_bit k v) = push_bit k (drop_bit k w)"
  show "drop_bit k v = drop_bit k w"
  proof (rule bit_word_eqI)
    fix m
    show "bit (drop_bit k v) m = bit (drop_bit k w) m"
    proof (cases "k + m < LENGTH('a)")
      case True
      from e have "bit (push_bit k (drop_bit k v)) (k + m) = bit (push_bit k (drop_bit k w)) (k + m)" by simp
      with True show ?thesis by (simp add: bit_simps)
    next
      case False
      then have "\<not> bit v (k + m)" "\<not> bit w (k + m)" using bit_imp_le_length linorder_not_le by blast+
      then show ?thesis by (simp add: bit_simps)
    qed
  qed
qed simp

lemma Unmap_idem [simp]: "Unmap (Unmap a) = Unmap a"
  by (auto simp: Unmap_def split: addr.splits)

text \<open>
  The network of an address: its version and its upper 24 or 64 bits. Two requests are bound to the
  same bytes exactly when their networks agree; the zero address counts as an IPv6 address of zeros.
\<close>

definition network :: "addr \<Rightarrow> bool \<times> nat" where
  "network a =
     (case Unmap a of
        AddrNone \<Rightarrow> (False, 0)
      | V4 w \<Rightarrow> (True, unat (drop_bit 8 w))
      | V6 w _ \<Rightarrow> (False, unat (drop_bit 64 w)))"

lemma mapped_word:
  fixes w :: "32 word"
  shows "bit (0xffff00000000 OR (ucast w :: 128 word)) 47"
    "bit (0xffff00000000 OR (ucast w :: 128 word)) m = (if m < 32 then bit w m else m < 48)"
proof -
  have m: "(0xffff00000000 :: 128 word) = push_bit 32 (mask 16)"
    by (simp add: mask_eq_exp_minus_1)
  show "bit (0xffff00000000 OR (ucast w :: 128 word)) 47"
    unfolding m by (simp add: bit_simps)
  show "bit (0xffff00000000 OR (ucast w :: 128 word)) m = (if m < 32 then bit w m else m < 48)"
    unfolding m by (auto simp: bit_simps dest: bit_imp_le_length)
qed

lemma As16_NetworkPrefix_word:
  "As16_word (NetworkPrefix (a, p)) =
     (case Unmap a of
        AddrNone \<Rightarrow> 0
      | V4 w \<Rightarrow> 0xffff00000000 OR ucast (push_bit 8 (drop_bit 8 w))
      | V6 w _ \<Rightarrow> push_bit 64 (drop_bit 64 w))"
  by (auto simp: NetworkPrefix_def Is4_def prefix_addr_def As16_word_def Let_def split: addr.splits)

lemma mapped_not_v6: "(0xffff00000000 OR (ucast (w :: 32 word) :: 128 word)) \<noteq> push_bit 64 x"
proof
  assume "0xffff00000000 OR (ucast w :: 128 word) = push_bit 64 x"
  then have "bit (0xffff00000000 OR (ucast w :: 128 word)) 47 = bit (push_bit 64 x) 47" by simp
  with mapped_word(1) show False by (simp add: bit_simps)
qed

lemma mapped_inj:
  "(0xffff00000000 OR (ucast (v :: 32 word) :: 128 word)) = 0xffff00000000 OR ucast (w :: 32 word) \<longleftrightarrow> v = w"
proof
  assume e: "(0xffff00000000 OR (ucast v :: 128 word)) = 0xffff00000000 OR ucast w"
  show "v = w"
  proof (rule bit_word_eqI)
    fix m assume m: "m < LENGTH(32)"
    from e have "bit (0xffff00000000 OR (ucast v :: 128 word)) m = bit (0xffff00000000 OR (ucast w :: 128 word)) m"
      by simp
    with m show "bit v m = bit w m" unfolding mapped_word(2) by simp
  qed
qed simp

lemma As16_NetworkPrefix:
  "As16 (NetworkPrefix (a, p)) = As16 (NetworkPrefix (b, q)) \<longleftrightarrow> network a = network b"
proof -
  have z: "(0 :: 128 word) = push_bit 64 (drop_bit 64 0)" by simp
  have d0: "push_bit 64 (drop_bit 64 (w :: 128 word)) = 0 \<longleftrightarrow> drop_bit 64 w = 0" for w
    using prefix_word_eq [of 64 w 0] by simp
  have u: "unat x = unat y \<longleftrightarrow> x = y" for x y :: "'b::len word" by (simp add: word_unat_eq_iff)
  have n0: "(0xffff00000000 OR (ucast (w :: 32 word) :: 128 word)) \<noteq> 0" for w
    using mapped_not_v6 [of w 0] by simp
  show ?thesis
    unfolding As16_inj As16_NetworkPrefix_word network_def
    using n0 [symmetric]
    by (cases "Unmap a"; cases "Unmap b")
      (simp_all add: n0 mapped_inj prefix_word_eq d0 mapped_not_v6 mapped_not_v6 [symmetric] eq_commute [of "0 :: 128 word"]
        eq_commute [of "0 :: nat"] unat_eq_0 word_unat_eq_iff [symmetric])
qed

section \<open>IPv4 text\<close>

lemma octets4_bytes: "be_bytes 4 w = [a, b, c, d] \<Longrightarrow> octets4 a b c d = (w :: 32 word)"
proof -
  assume e: "be_bytes 4 w = [a, b, c, d]"
  have u: "rev [0..<4] = [3, 2, 1, 0 :: nat]" by (simp add: upt_rec)
  have abcd: "a = ucast (drop_bit 24 w)" "b = ucast (drop_bit 16 w)" "c = ucast (drop_bit 8 w)" "d = ucast w"
    using e by (simp_all add: be_bytes_def u)
  show ?thesis
  proof (rule bit_word_eqI)
    fix m assume m: "m < LENGTH(32)"
    consider "m < 8" | "8 \<le> m" "m < 16" | "16 \<le> m" "m < 24" | "24 \<le> m" by linarith
    then show "bit (octets4 a b c d) m = bit w m"
      using m by cases (auto simp: octets4_def abcd bit_simps)
  qed
qed

lemma be_bytes_4: obtains a b c d where "be_bytes 4 w = [a, b, c, d]"
  by (simp add: be_bytes_def upt_rec)

lemma parse_octet_decimal: "parse_octet (decimal (unat b)) = Some (b :: 8 word)"
proof -
  have "\<not> (length (decimal (unat b)) > 1 \<and> hd (decimal (unat b)) = CHR ''0'')"
    using decimal_hd_zero [of "unat b"] by (cases "decimal (unat b)") auto
  moreover have "unat b < 2 ^ 8" using unsigned_less [of b] by simp
  ultimately show ?thesis unfolding parse_octet_def by (simp only: ParseUint_decimal if_False option.map) simp
qed

lemma dot_not_decimal: "CHR ''.'' \<notin> set (decimal n)"
  using decimal_is_digit [of "CHR ''.''" n] by (auto simp: is_digit_def)

lemma parseIPv4_string: "parseIPv4 (addr_string s6 (V4 w)) = Some (V4 w)"
proof -
  obtain a b c d where e: "be_bytes 4 w = [a, b, c, d]" by (rule be_bytes_4)
  have "Split (CHR ''.'') (addr_string s6 (V4 w)) = map (\<lambda>b. decimal (unat b)) (be_bytes 4 w)"
    unfolding addr_string_def addr.case by (rule Split_Join) (auto simp: e dot_not_decimal)
  then have "map parse_octet (Split (CHR ''.'') (addr_string s6 (V4 w))) = [Some a, Some b, Some c, Some d]"
    by (simp add: e parse_octet_decimal)
  then show ?thesis using octets4_bytes [OF e] by (simp add: parseIPv4_def)
qed

lemma scan_digits:
  "list_all is_digit a \<Longrightarrow> ParseAddr_scan p6 s (a @ CHR ''.'' # t) = parseIPv4 s"
  by (induction a) (auto simp: is_digit_def percent_def)

lemma ParseAddr_string: "ParseAddr p6 (addr_string s6 (V4 w)) = Some (V4 w)"
proof -
  obtain a b c d where e: "be_bytes 4 w = [a, b, c, d]" by (rule be_bytes_4)
  have "\<exists>t. addr_string s6 (V4 w) = decimal (unat a) @ CHR ''.'' # t"
    by (simp add: addr_string_def e)
  then obtain t where t: "addr_string s6 (V4 w) = decimal (unat a) @ CHR ''.'' # t" ..
  have "list_all is_digit (decimal (unat a))" by (simp add: list_all_iff decimal_is_digit)
  then have "ParseAddr_scan p6 s (decimal (unat a) @ CHR ''.'' # t) = parseIPv4 s" for s
    by (rule scan_digits)
  then have "ParseAddr p6 (addr_string s6 (V4 w)) = parseIPv4 (addr_string s6 (V4 w))"
    unfolding ParseAddr_def t by simp
  then show ?thesis by (simp add: parseIPv4_string)
qed

text \<open>What reaches the parser: the first element of the client header, or the peer's address.\<close>

definition client_text :: "string \<Rightarrow> header \<Rightarrow> string \<Rightarrow> string" where
  "client_text remoteAddr header clientHeader =
     (let v = (if clientHeader \<noteq> [] then header_get header clientHeader else remoteAddr) in
      if fst (Cut (CHR '','') v) = [] then remoteAddr else fst (Cut (CHR '','') v))"

lemma hd_Split: "hd (Split c s) = fst (Cut c s)"
  by (induction s) (auto split: list.splits prod.splits)

lemma GetRequestAddress_eq:
  "GetRequestAddress p6 remoteAddr header clientHeader =
     (case ParseAddrPort p6 (client_text remoteAddr header clientHeader) of
        Some ap \<Rightarrow> ap
      | None \<Rightarrow> (case ParseAddr p6 (client_text remoteAddr header clientHeader) of
          None \<Rightarrow> (AddrNone, 0) | Some a \<Rightarrow> (a, 0)))"
proof -
  have "(let strVal = (if clientHeader \<noteq> [] then header_get header clientHeader else remoteAddr);
          strVal = (if strVal \<noteq> [] then hd (Split (CHR '','') strVal) else strVal)
        in if strVal = [] then remoteAddr else strVal) = client_text remoteAddr header clientHeader"
    by (auto simp: client_text_def hd_Split Let_def)
  then show ?thesis by (simp only: GetRequestAddress_def Let_def)
qed

section \<open>Properties\<close>

text \<open>
  two clients are bound to the same network bytes exactly when their addresses, with IPv4-mapped
  addresses read as IPv4, have the same version and agree in the upper 24 bits (IPv4) or the upper 64
  bits (IPv6); the port plays no part.
\<close>

theorem NetworkPrefix_same_network:
  "As16 (NetworkPrefix (a, p)) = As16 (NetworkPrefix (b, q)) \<longleftrightarrow> network a = network b"
  by (rule As16_NetworkPrefix)

text \<open>
  the address of a request. Without a client header it is the peer's; with one it is the first
  element of the header's list, and the peer's again when that is empty. An IPv4 address in the
  header is read back exactly, with port zero.
\<close>

theorem GetRequestAddress_forwarded:
  assumes "h \<noteq> []" "header_get header h = addr_string s6 (V4 w) @ rest" "rest = [] \<or> hd rest = CHR '',''"
  shows "GetRequestAddress p6 remote header h = (V4 w, 0) \<and>
    GetRequestAddress p6 (addr_string s6 (V4 w)) header [] = (V4 w, 0)"
proof -
  obtain a b c d where e: "be_bytes 4 w = [a, b, c, d]" by (rule be_bytes_4)
  define t where "t = addr_string s6 (V4 w)"
  have dig: "x = CHR ''.'' \<or> is_digit x" if "x \<in> set t" for x
    using that by (auto simp: t_def addr_string_def e decimal_is_digit)
  have no: "CHR '','' \<notin> set t" "CHR '':'' \<notin> set t"
    using dig [of "CHR '',''"] dig [of "CHR '':''"] by (auto simp: is_digit_def)
  have ne: "t \<noteq> []" by (simp add: t_def addr_string_def e)
  have cl: "x \<notin> set s \<Longrightarrow> cut_last x s = None" for x s by (induction s) auto
  have p: "ParseAddrPort p6 t = None" "ParseAddr p6 t = Some (V4 w)"
    using ParseAddr_string [of p6 s6 w] by (simp_all add: ParseAddrPort_def cl no t_def [symmetric])
  have "fst (Cut (CHR '','') (t @ rest)) = t"
    using no(1) assms(3) by (cases rest) auto
  then have c1: "client_text remote header h = t"
    using assms(1,2) ne by (simp add: client_text_def Let_def t_def)
  have c2: "client_text t header [] = t"
    using no(1) ne by (simp add: client_text_def Let_def)
  show ?thesis unfolding GetRequestAddress_eq t_def [symmetric] c1 c2 by (simp add: p)
qed

theorem GetRequestAddress_forwarded_witness:
  "GetRequestAddress (\<lambda>_. None) ''10.0.0.1:80'' [(''X-Forwarded-For'', [''192.0.2.7, 10.0.0.9''])] ''X-Forwarded-For'' =
     (V4 0xC0000207, 0)"
proof -
  have d: "decimal 192 = ''192''" "decimal 2 = ''2''" "decimal 7 = ''7''" "decimal 0 = ''0''" by code_simp+
  have b: "be_bytes 4 (0xC0000207 :: 32 word) = [192, 0, 2, 7]" by (simp add: be_bytes_def upt_rec)
  have c: "CanonicalMIMEHeaderKey ''X-Forwarded-For'' = ''X-Forwarded-For''" by (simp add: canon_eval)
  have "addr_string (\<lambda>_. []) (V4 0xC0000207) = ''192.0.2.7''" by (simp add: addr_string_def b d)
  then show ?thesis
    using GetRequestAddress_forwarded [of "''X-Forwarded-For''" "[(''X-Forwarded-For'', [''192.0.2.7, 10.0.0.9''])]"
        "\<lambda>_. []" "0xC0000207" "'', 10.0.0.9''" "\<lambda>_. None" "''10.0.0.1:80''"]
    by (simp add: header_get_def c mget_or_def mget_Cons)
qed

end
