(* ===== verification/Cookies.thy ===== *)
theory Cookies
  imports Net_Addr Go_Time
begin

text \<open>
  Cookies: \<open>utils/cookie.go\<close> with the parser and the printer of \<open>net/http\<close>. A response cookie is kept
  as the structure that is handed to \<open>http.SetCookie\<close>.
\<close>

section \<open>Request cookies\<close>

record cookie =
  c_name :: string
  c_value :: string
  c_quoted :: bool

definition ascii_space :: "char \<Rightarrow> bool" where
  "ascii_space c \<longleftrightarrow> c \<in> {CHR '' '', CHR 0x09, CHR 0x0A, CHR 0x0D}"

definition TrimString :: "string \<Rightarrow> string" where
  "TrimString s = rev (dropWhile ascii_space (rev (dropWhile ascii_space s)))"

definition validCookieValueByte :: "char \<Rightarrow> bool" where
  "validCookieValueByte c \<longleftrightarrow>
     32 \<le> (of_char c :: nat) \<and> (of_char c :: nat) < 127 \<and> c \<noteq> CHR 0x22 \<and> c \<noteq> CHR '';'' \<and> c \<noteq> CHR 0x5C"

definition isToken :: "string \<Rightarrow> bool" where
  "isToken s \<longleftrightarrow> s \<noteq> [] \<and> valid_key s"

definition parseCookieValue :: "string \<Rightarrow> (string \<times> bool) option" where
  "parseCookieValue raw =
     (let quoted = (length raw > 1 \<and> hd raw = CHR 0x22 \<and> last raw = CHR 0x22);
          v = (if quoted then butlast (tl raw) else raw)
      in if list_all validCookieValueByte v then Some (v, quoted) else None)"

definition read_part :: "string \<Rightarrow> cookie list" where
  "read_part part =
     (let part = TrimString part in
      if part = [] then []
      else (case Cut (CHR ''='') part of (name, val, _) \<Rightarrow>
        if \<not> isToken (TrimString name) then []
        else (case parseCookieValue val of
            None \<Rightarrow> []
          | Some (v, q) \<Rightarrow> [\<lparr>c_name = TrimString name, c_value = v, c_quoted = q\<rparr>])))"

definition read_line :: "string \<Rightarrow> cookie list" where
  "read_line line = concat (map read_part (Split (CHR '';'') (TrimString line)))"

definition readCookies :: "header \<Rightarrow> cookie list" where
  "readCookies h = concat (map read_line (mget_or [] h ''Cookie''))"

definition CookiesNamed :: "header \<Rightarrow> string \<Rightarrow> cookie list" where
  "CookiesNamed h name = (if name = [] then [] else filter (\<lambda>c. c_name c = name) (readCookies h))"

text \<open>\<open>Request.Cookie\<close>: the first cookie of that name, or \<open>ErrNoCookie\<close>.\<close>

definition Cookie :: "header \<Rightarrow> string \<Rightarrow> go_error + cookie" where
  "Cookie h name = (case CookiesNamed h name of [] \<Rightarrow> Inl ErrNoCookie | c # _ \<Rightarrow> Inr c)"

definition cookie_pair :: "cookie \<Rightarrow> string" where
  "cookie_pair c =
     (let v = filter validCookieValueByte (c_value c) in
      map (\<lambda>x. if x = CHR 0x0A \<or> x = CHR 0x0D then CHR ''-'' else x) (c_name c) @ ''='' @
      (if v = [] then []
       else if CHR '' '' \<in> set v \<or> CHR '','' \<in> set v \<or> c_quoted c
       then [CHR 0x22] @ v @ [CHR 0x22] else v))"

definition AddCookie :: "cookie \<Rightarrow> header \<Rightarrow> header" where
  "AddCookie c h =
     (let old = header_get h ''Cookie'' in
      header_set h ''Cookie'' (if old \<noteq> [] then old @ ''; '' @ cookie_pair c else cookie_pair c))"

section \<open>Response cookies\<close>

record set_cookie =
  sc_name :: string
  sc_value :: string
  sc_expires :: go_time
  sc_maxage :: int
  sc_domain :: string
  sc_path :: string
  sc_lax :: bool

definition DefaultCookiePrefix :: string where
  "DefaultCookiePrefix = ''.go-away-''"

definition SplitHostPort :: "string \<Rightarrow> (string \<times> string) option" where
  "SplitHostPort hostport =
     (case cut_last (CHR '':'') hostport of
        None \<Rightarrow> None
      | Some (before, port) \<Rightarrow>
          (if hd hostport = CHR ''['' then
             (let inner = takeWhile (\<lambda>c. c \<noteq> CHR '']'') hostport in
              if length inner = length hostport \<or> length inner + 1 \<noteq> length before then None
              else if CHR ''['' \<in> set (tl hostport) \<or> CHR '']'' \<in> set (drop (length inner + 1) hostport) then None
              else Some (tl inner, port))
           else if CHR '':'' \<in> set before then None
           else if CHR ''['' \<in> set hostport \<or> CHR '']'' \<in> set hostport then None
           else Some (before, port)))"

definition getValidHost :: "string \<Rightarrow> string" where
  "getValidHost host =
     (let ipStr = (case SplitHostPort host of None \<Rightarrow> host | Some (h, _) \<Rightarrow> h) in
      if length ipStr > 0 \<and> hd ipStr = CHR ''['' \<and> last ipStr = CHR '']''
      then drop 1 (butlast ipStr) else ipStr)"

definition ParseIP :: "(string \<Rightarrow> addr option) \<Rightarrow> string \<Rightarrow> addr option" where
  "ParseIP p6 s =
     (case ParseAddr p6 s of
        Some (V6 w z) \<Rightarrow> if z = [] then Some (V6 w z) else None
      | a \<Rightarrow> a)"

definition cookie_domain :: "(string \<Rightarrow> addr option) \<Rightarrow> string \<Rightarrow> string" where
  "cookie_domain p6 r_host =
     (let host = getValidHost r_host in if host \<noteq> ''localhost'' \<and> ParseIP p6 host = None then host else [])"

definition SetCookie :: "(string \<Rightarrow> addr option) \<Rightarrow> string \<Rightarrow> string \<Rightarrow> go_time \<Rightarrow> string \<Rightarrow> set_cookie" where
  "SetCookie p6 name value expiry r_host =
     \<lparr>sc_name = name, sc_value = value, sc_expires = expiry, sc_maxage = 0,
      sc_domain = cookie_domain p6 r_host, sc_path = ''/'', sc_lax = True\<rparr>"

definition ClearCookie :: "(string \<Rightarrow> addr option) \<Rightarrow> string \<Rightarrow> go_time \<Rightarrow> string \<Rightarrow> set_cookie" where
  "ClearCookie p6 name now r_host =
     \<lparr>sc_name = name, sc_value = [], sc_expires = now - hour, sc_maxage = - 1,
      sc_domain = cookie_domain p6 r_host, sc_path = [], sc_lax = True\<rparr>"

section \<open>The cookies that a cleaned request forwards\<close>

text \<open>
  The loop of \<open>cleanupRequest\<close> in \<open>lib/http.go\<close>: the cookies are read, the header is dropped, and the
  cookies whose name does not carry the prefix are added again.
\<close>

definition strip_cookies :: "header \<Rightarrow> header" where
  "strip_cookies h =
     fold (\<lambda>c h. if \<not> HasPrefix (c_name c) DefaultCookiePrefix then AddCookie c h else h)
       (readCookies h) (header_del h ''Cookie'')"

section \<open>Reading back what was printed\<close>

definition good_cookie :: "cookie \<Rightarrow> bool" where
  "good_cookie c \<longleftrightarrow> isToken (c_name c) \<and> list_all validCookieValueByte (c_value c)"

definition forwarded :: "cookie \<Rightarrow> cookie" where
  "forwarded c = c\<lparr>c_quoted := c_value c \<noteq> [] \<and>
     (CHR '' '' \<in> set (c_value c) \<or> CHR '','' \<in> set (c_value c) \<or> c_quoted c)\<rparr>"

lemma parseCookieValue_good: "parseCookieValue raw = Some (v, q) \<Longrightarrow> list_all validCookieValueByte v"
  unfolding parseCookieValue_def Let_def by (metis option.distinct(1) option.inject prod.inject)

lemma read_part_good: "c \<in> set (read_part part) \<Longrightarrow> good_cookie c"
  unfolding read_part_def Let_def
  by (cases "Cut (CHR ''='') (TrimString part)")
    (auto simp: good_cookie_def split: if_split_asm option.split_asm dest: parseCookieValue_good [OF sym])

lemma readCookies_good: "c \<in> set (readCookies h) \<Longrightarrow> good_cookie c"
  unfolding readCookies_def read_line_def by (auto intro: read_part_good)

lemma Canonical_Cookie [simp]: "CanonicalMIMEHeaderKey ''Cookie'' = ''Cookie''"
  by (simp add: canon_eval)

lemma token_char:
  assumes "isToken s" "c \<in> set s"
  shows "c \<noteq> CHR '';'' \<and> c \<noteq> CHR ''='' \<and> \<not> ascii_space c \<and> c \<noteq> CHR 0x22"
proof -
  have "validHeaderFieldByte (byte_of c)"
    using assms by (auto simp: isToken_def valid_key_def list_all_iff bytes_of_def)
  then have "tchar_code (of_char c)" by (simp add: valid_tchar)
  then show ?thesis
    by (auto simp: tchar_code_def ascii_space_def)
qed

lemma value_char:
  "validCookieValueByte c \<Longrightarrow> c \<noteq> CHR '';'' \<and> c \<noteq> CHR 0x22 \<and> (ascii_space c \<longrightarrow> c = CHR '' '')"
  by (auto simp: validCookieValueByte_def ascii_space_def)

lemma TrimString_id: "s = [] \<or> \<not> ascii_space (hd s) \<and> \<not> ascii_space (last s) \<Longrightarrow> TrimString s = s"
proof (cases "s = []")
  case False
  assume "s = [] \<or> \<not> ascii_space (hd s) \<and> \<not> ascii_space (last s)"
  with False have h: "\<not> ascii_space (hd s)" "\<not> ascii_space (hd (rev s))" by (simp_all add: hd_rev)
  have d: "dropWhile ascii_space t = t" if "t \<noteq> []" "\<not> ascii_space (hd t)" for t
    using that by (cases t) auto
  from False h show ?thesis by (simp add: TrimString_def d)
qed (simp add: TrimString_def)

lemma TrimString_space: "s = [] \<or> \<not> ascii_space (hd s) \<and> \<not> ascii_space (last s) \<Longrightarrow> TrimString (CHR '' '' # s) = s"
  using TrimString_id [of s] by (simp add: TrimString_def ascii_space_def)

definition pair_value :: "cookie \<Rightarrow> string" where
  "pair_value c =
     (if c_value c = [] then []
      else if CHR '' '' \<in> set (c_value c) \<or> CHR '','' \<in> set (c_value c) \<or> c_quoted c
      then [CHR 0x22] @ c_value c @ [CHR 0x22] else c_value c)"

lemma cookie_pair_good: "good_cookie c \<Longrightarrow> cookie_pair c = c_name c @ CHR ''='' # pair_value c"
proof -
  assume g: "good_cookie c"
  have "x \<noteq> CHR 0x0A \<and> x \<noteq> CHR 0x0D" if "x \<in> set (c_name c)" for x
    using g that token_char by (auto simp: good_cookie_def ascii_space_def)
  then have "map (\<lambda>x. if x = CHR 0x0A \<or> x = CHR 0x0D then CHR ''-'' else x) (c_name c) = c_name c"
    by (intro map_idI) auto
  moreover have "filter validCookieValueByte (c_value c) = c_value c"
    using g by (auto simp: good_cookie_def list_all_iff filter_id_conv)
  ultimately show ?thesis by (simp add: cookie_pair_def pair_value_def Let_def)
qed

lemma parse_pair_value: "good_cookie c \<Longrightarrow> parseCookieValue (pair_value c) = Some (c_value c, c_quoted (forwarded c))"
proof -
  assume "good_cookie c"
  then have v: "list_all validCookieValueByte (c_value c)" by (simp add: good_cookie_def)
  then have "c_value c \<noteq> [] \<Longrightarrow> hd (c_value c) \<noteq> CHR 0x22"
    by (cases "c_value c") (auto dest: value_char)
  with v show ?thesis by (auto simp: parseCookieValue_def pair_value_def forwarded_def Let_def)
qed

lemma pair_ends:
  assumes "good_cookie c"
  shows "cookie_pair c \<noteq> [] \<and> \<not> ascii_space (hd (cookie_pair c)) \<and> \<not> ascii_space (last (cookie_pair c)) \<and>
    CHR '';'' \<notin> set (cookie_pair c)"
proof -
  have t: "isToken (c_name c)" and v: "list_all validCookieValueByte (c_value c)"
    using assms by (auto simp: good_cookie_def)
  from t obtain x xs where n: "c_name c = x # xs" by (cases "c_name c") (auto simp: isToken_def)
  have "\<not> ascii_space x" using token_char [OF t] n by simp
  moreover have "\<not> ascii_space (last (CHR ''='' # pair_value c))"
  proof (cases "c_value c = [] \<or> CHR '' '' \<in> set (c_value c) \<or> CHR '','' \<in> set (c_value c) \<or> c_quoted c")
    case True
    then show ?thesis by (auto simp: pair_value_def ascii_space_def)
  next
    case False
    then have "last (c_value c) \<in> set (c_value c)" by simp
    with v False have "validCookieValueByte (last (c_value c))" "last (c_value c) \<noteq> CHR '' ''"
      by (metis list_all_iff) (metis False \<open>last (c_value c) \<in> set (c_value c)\<close>)
    with False show ?thesis by (auto simp: pair_value_def dest: value_char)
  qed
  moreover have "CHR '';'' \<notin> set (c_name c)" using token_char [OF t] by blast
  moreover have "CHR '';'' \<notin> set (pair_value c)" using v by (auto simp: pair_value_def list_all_iff dest: value_char)
  ultimately show ?thesis using n by (simp add: cookie_pair_good [OF assms])
qed

lemma read_part_pair:
  assumes "good_cookie c" "s = cookie_pair c \<or> s = CHR '' '' # cookie_pair c"
  shows "read_part s = [forwarded c]"
proof -
  have tr: "TrimString s = cookie_pair c"
    using assms(2) pair_ends [OF assms(1)] TrimString_id TrimString_space by blast
  have t: "isToken (c_name c)" using assms(1) by (simp add: good_cookie_def)
  then have nt: "TrimString (c_name c) = c_name c"
    using token_char [OF t] by (intro TrimString_id) (auto simp: isToken_def)
  have cut: "Cut (CHR ''='') (cookie_pair c) = (c_name c, pair_value c, True)"
    unfolding cookie_pair_good [OF assms(1)] using token_char [OF t] by (intro Cut_found) blast
  show ?thesis
    using pair_ends [OF assms(1)] t
    by (simp add: read_part_def tr cut nt parse_pair_value [OF assms(1)] Let_def forwarded_def)
qed

definition cookie_text :: "cookie list \<Rightarrow> string" where
  "cookie_text cs = Join ''; '' (map cookie_pair cs)"

lemma cookie_text_Cons:
  "cookie_text (c # cs) = cookie_pair c @ concat (map (\<lambda>c. ''; '' @ cookie_pair c) cs)"
  by (induction cs arbitrary: c) (auto simp: cookie_text_def)

lemma cookie_text_snoc:
  "cookie_text (cs @ [c]) = (if cs = [] then cookie_pair c else cookie_text cs @ ''; '' @ cookie_pair c)"
proof (cases cs)
  case Nil
  then show ?thesis by (simp add: cookie_text_def)
next
  case (Cons d ds)
  then show ?thesis by (simp add: cookie_text_Cons)
qed

lemma Split_pairs:
  assumes "good_cookie c" "list_all good_cookie cs"
  shows "Split (CHR '';'') (cookie_pair c @ concat (map (\<lambda>c. ''; '' @ cookie_pair c) cs)) =
    cookie_pair c # map (\<lambda>c. CHR '' '' # cookie_pair c) cs"
  using assms
proof (induction cs arbitrary: c)
  case Nil
  then show ?case using pair_ends by simp
next
  case (Cons d cs)
  have "Split (CHR '';'') (cookie_pair c @ CHR '';'' # CHR '' '' # cookie_pair d @ concat (map (\<lambda>c. ''; '' @ cookie_pair c) cs)) =
     cookie_pair c # Split (CHR '';'') (CHR '' '' # cookie_pair d @ concat (map (\<lambda>c. ''; '' @ cookie_pair c) cs))"
    using Cons.prems pair_ends by (intro Split_append_sep) blast
  also have "Split (CHR '';'') (CHR '' '' # cookie_pair d @ concat (map (\<lambda>c. ''; '' @ cookie_pair c) cs)) =
     (CHR '' '' # cookie_pair d) # map (\<lambda>c. CHR '' '' # cookie_pair c) cs"
    using Cons.IH [of d] Cons.prems by simp
  finally show ?case by simp
qed

lemma cookie_text_ends:
  assumes "list_all good_cookie cs" "cs \<noteq> []"
  shows "cookie_text cs \<noteq> [] \<and> \<not> ascii_space (hd (cookie_text cs)) \<and> \<not> ascii_space (last (cookie_text cs))"
proof -
  obtain ds d where "cs = ds @ [d]" using assms(2) by (cases cs rule: rev_cases) auto
  obtain c es where "cs = c # es" using assms(2) by (cases cs) auto
  have "\<not> ascii_space (last (cookie_text (ds @ [d])))"
    using pair_ends [of d] assms(1) \<open>cs = ds @ [d]\<close> by (auto simp: cookie_text_snoc)
  moreover have "cookie_text (c # es) \<noteq> [] \<and> \<not> ascii_space (hd (cookie_text (c # es)))"
    using pair_ends [of c] assms(1) \<open>cs = c # es\<close> by (simp add: cookie_text_Cons)
  ultimately show ?thesis using \<open>cs = c # es\<close> \<open>cs = ds @ [d]\<close> by simp
qed

lemma read_line_text:
  assumes "list_all good_cookie cs" "cs \<noteq> []"
  shows "read_line (cookie_text cs) = map forwarded cs"
proof -
  obtain c ds where cs: "cs = c # ds" using assms(2) by (cases cs) auto
  have "TrimString (cookie_text cs) = cookie_text cs"
    using cookie_text_ends [OF assms] by (intro TrimString_id) simp
  then have "read_line (cookie_text cs) =
      concat (map read_part (cookie_pair c # map (\<lambda>c. CHR '' '' # cookie_pair c) ds))"
    using Split_pairs [of c ds] assms(1) by (simp add: read_line_def cs cookie_text_Cons)
  also have "\<dots> = map forwarded cs"
  proof -
    have "list_all good_cookie ds \<Longrightarrow> concat (map read_part (map (\<lambda>c. CHR '' '' # cookie_pair c) ds)) = map forwarded ds"
      by (induction ds) (auto simp: read_part_pair)
    with assms(1) show ?thesis by (simp add: cs read_part_pair)
  qed
  finally show ?thesis .
qed

lemma fold_AddCookie:
  assumes "list_all good_cookie cs"
  shows "mget_or [] (fold AddCookie cs (header_del h ''Cookie'')) ''Cookie'' =
      (if cs = [] then [] else [cookie_text cs])"
    and "k \<noteq> ''Cookie'' \<Longrightarrow> mget (fold AddCookie cs (header_del h ''Cookie'')) k = mget h k"
proof -
  have s: "mget_or [] (fold AddCookie cs (header_del h ''Cookie'')) ''Cookie'' =
      (if cs = [] then [] else [cookie_text cs]) \<and>
      (k \<noteq> ''Cookie'' \<longrightarrow> mget (fold AddCookie cs (header_del h ''Cookie'')) k = mget h k)"
    using assms
  proof (induction cs rule: rev_induct)
    case Nil
    then show ?case by (simp add: header_del_def mget_or_def)
  next
    case (snoc c cs)
    then have ih: "mget_or [] (fold AddCookie cs (header_del h ''Cookie'')) ''Cookie'' =
        (if cs = [] then [] else [cookie_text cs])" by simp
    have "cs \<noteq> [] \<Longrightarrow> cookie_text cs \<noteq> []" using snoc.prems cookie_text_ends by simp
    with snoc ih show ?case
      by (auto simp: AddCookie_def header_get_def header_set_def cookie_text_snoc Let_def)
  qed
  then show "mget_or [] (fold AddCookie cs (header_del h ''Cookie'')) ''Cookie'' =
      (if cs = [] then [] else [cookie_text cs])"
    and "k \<noteq> ''Cookie'' \<Longrightarrow> mget (fold AddCookie cs (header_del h ''Cookie'')) k = mget h k"
    by blast+
qed

lemma strip_cookies_fold:
  "strip_cookies h =
     fold AddCookie (filter (\<lambda>c. \<not> HasPrefix (c_name c) DefaultCookiePrefix) (readCookies h))
       (header_del h ''Cookie'')"
proof -
  have "fold (\<lambda>c h. if \<not> HasPrefix (c_name c) DefaultCookiePrefix then AddCookie c h else h) cs g =
      fold AddCookie (filter (\<lambda>c. \<not> HasPrefix (c_name c) DefaultCookiePrefix) cs) g" for cs g
    by (induction cs arbitrary: g) auto
  then show ?thesis by (simp add: strip_cookies_def)
qed

lemma strip_cookies_read:
  "readCookies (strip_cookies h) =
     map forwarded (filter (\<lambda>c. \<not> HasPrefix (c_name c) DefaultCookiePrefix) (readCookies h))"
proof -
  define cs where "cs = filter (\<lambda>c. \<not> HasPrefix (c_name c) DefaultCookiePrefix) (readCookies h)"
  have g: "list_all good_cookie cs" by (auto simp: cs_def list_all_iff intro: readCookies_good)
  have "readCookies (fold AddCookie cs (header_del h ''Cookie'')) = map forwarded cs"
    unfolding readCookies_def fold_AddCookie(1) [OF g] using read_line_text [OF g] by simp
  then show ?thesis unfolding strip_cookies_fold cs_def .
qed

lemma strip_cookies_other: "k \<noteq> ''Cookie'' \<Longrightarrow> mget (strip_cookies h) k = mget h k"
  unfolding strip_cookies_fold
  by (rule fold_AddCookie(2)) (auto simp: list_all_iff intro: readCookies_good)

section \<open>Properties\<close>

text \<open>
  cleaning a request removes exactly the cookies of the program. Reading the cookies of the
  cleaned header gives the other cookies of the request, in their order, with their names and values;
  no other header changes.
\<close>

theorem strip_cookies_correct:
  "map (\<lambda>c. (c_name c, c_value c)) (readCookies (strip_cookies h)) =
     filter (\<lambda>(n, v). \<not> HasPrefix n DefaultCookiePrefix) (map (\<lambda>c. (c_name c, c_value c)) (readCookies h)) \<and>
   (k = ''Cookie'' \<or> mget (strip_cookies h) k = mget h k)"
  using strip_cookies_other [of k h]
  by (auto simp: strip_cookies_read filter_map comp_def forwarded_def)

end
