(* ===== verification/Decay_Map.thy ===== *)
theory Decay_Map
  imports Go_Time
begin

text \<open>
  The map with expiring entries (\<open>utils/decaymap.go\<close>): its operations, the contract that its users
  rely on, and the two-phase lookup as steps of concurrent goroutines.
\<close>

section \<open>Operations\<close>

record 'v entry =
  en_value :: 'v
  en_expiry :: go_time

type_synonym ('k, 'v) decay_map = "('k, 'v entry) gomap"

text \<open>\<open>time.Now().After(value.expiry)\<close>; the time is an argument of each operation.\<close>

definition expired :: "go_time \<Rightarrow> 'v entry \<Rightarrow> bool" where
  "expired now e \<longleftrightarrow> now > en_expiry e"

definition decay_get :: "go_time \<Rightarrow> 'k \<Rightarrow> ('k, 'v) decay_map \<Rightarrow> 'v option \<times> ('k, 'v) decay_map" where
  "decay_get now key m =
     (case mget m key of
        None \<Rightarrow> (None, m)
      | Some value \<Rightarrow>
          (if expired now value then
             (None, if map_option en_expiry (mget m key) = Some (en_expiry value) then mdel key m else m)
           else (Some (en_value value), m)))"

definition decay_set :: "go_time \<Rightarrow> 'k \<Rightarrow> 'v \<Rightarrow> duration \<Rightarrow> ('k, 'v) decay_map \<Rightarrow> ('k, 'v) decay_map" where
  "decay_set now key v ttl m = mset_key key \<lparr>en_value = v, en_expiry = now + ttl\<rparr> m"

fun decay_loop :: "go_time \<Rightarrow> ('k \<times> 'v entry) list \<Rightarrow> ('k, 'v) decay_map \<Rightarrow> ('k, 'v) decay_map" where
  "decay_loop now [] m = m"
| "decay_loop now ((key, e) # es) m = decay_loop now es (if expired now e then mdel key m else m)"

definition decay :: "go_time \<Rightarrow> ('k, 'v) decay_map \<Rightarrow> ('k, 'v) decay_map" where
  "decay now m = decay_loop now m m"

section \<open>The contract\<close>

text \<open>What a user sees at a time: the values of the entries that have not expired.\<close>

definition live :: "go_time \<Rightarrow> ('k, 'v) decay_map \<Rightarrow> 'k \<Rightarrow> 'v option" where
  "live now m k = (case mget m k of Some e \<Rightarrow> if expired now e then None else Some (en_value e) | None \<Rightarrow> None)"

lemma mget_decay_loop:
  "mget (decay_loop now es m) k =
     (if \<exists>e. (k, e) \<in> set es \<and> expired now e then None else mget m k)"
  by (induction now es m rule: decay_loop.induct) auto

lemma mget_decay:
  assumes "wf_map m"
  shows "mget (decay now m) k = (case mget m k of Some e \<Rightarrow> if expired now e then None else Some e | None \<Rightarrow> None)"
proof -
  have "(k, e) \<in> set m \<longleftrightarrow> mget m k = Some e" for e by (simp add: mget_in_set [OF assms])
  then show ?thesis unfolding decay_def mget_decay_loop by (simp split: option.split)
qed

lemma decay_get_value: "fst (decay_get now k m) = live now m k"
  by (simp add: decay_get_def live_def split: option.splits)

lemma expired_mono: "expired now e \<Longrightarrow> now \<le> later \<Longrightarrow> expired later e"
  by (simp add: expired_def)

lemma live_decay_get: "now \<le> later \<Longrightarrow> live later (snd (decay_get now k m)) k' = live later m k'"
  by (auto simp: decay_get_def live_def expired_def split: option.splits)

lemma live_decay: "wf_map m \<Longrightarrow> now \<le> later \<Longrightarrow> live later (decay now m) k = live later m k"
  by (auto simp: live_def mget_decay expired_def split: option.splits)

lemma live_decay_set:
  "live later (decay_set now k v ttl m) k' =
     (if k' = k then (if later \<le> now + ttl then Some v else None) else live later m k')"
  by (auto simp: live_def decay_set_def expired_def)

lemma wf_decay [simp]:
  "wf_map m \<Longrightarrow> wf_map (snd (decay_get now k m))" "wf_map m \<Longrightarrow> wf_map (decay_set now k v ttl m)"
  "wf_map m \<Longrightarrow> wf_map (decay now m)"
proof -
  assume m: "wf_map m"
  show "wf_map (snd (decay_get now k m))" "wf_map (decay_set now k v ttl m)"
    using m by (simp_all add: decay_get_def decay_set_def split: option.splits)
  have "wf_map x \<Longrightarrow> wf_map (decay_loop now es x)" for es x
    by (induction now es x rule: decay_loop.induct) auto
  then show "wf_map (decay now m)" using m by (simp add: decay_def)
qed

text \<open>
  The interface of a store with expiring entries: \<open>view now s\<close> is what a reader sees at a time. Only a
  set changes a later view; lookups and clean-ups do not.
\<close>

locale expiring_store =
  fixes get :: "go_time \<Rightarrow> 'k \<Rightarrow> 's \<Rightarrow> 'v option \<times> 's"
    and set_at :: "go_time \<Rightarrow> 'k \<Rightarrow> 'v \<Rightarrow> duration \<Rightarrow> 's \<Rightarrow> 's"
    and clean :: "go_time \<Rightarrow> 's \<Rightarrow> 's"
    and view :: "go_time \<Rightarrow> 's \<Rightarrow> 'k \<Rightarrow> 'v option"
    and ok :: "'s \<Rightarrow> bool"
  assumes get_view: "ok s \<Longrightarrow> fst (get now k s) = view now s k"
    and get_later: "ok s \<Longrightarrow> now \<le> later \<Longrightarrow> view later (snd (get now k s)) k' = view later s k'"
    and set_view: "ok s \<Longrightarrow> view later (set_at now k v ttl s) k' =
       (if k' = k then (if later \<le> now + ttl then Some v else None) else view later s k')"
    and clean_later: "ok s \<Longrightarrow> now \<le> later \<Longrightarrow> view later (clean now s) k' = view later s k'"
    and ok_get: "ok s \<Longrightarrow> ok (snd (get now k s))"
    and ok_set: "ok s \<Longrightarrow> ok (set_at now k v ttl s)"
    and ok_clean: "ok s \<Longrightarrow> ok (clean now s)"
begin

text \<open>The way the code uses such a store: a value is taken from it, or computed and stored.\<close>

definition cached :: "go_time \<Rightarrow> go_time \<Rightarrow> duration \<Rightarrow> 'k \<Rightarrow> 'v \<Rightarrow> 's \<Rightarrow> 'v \<times> 's" where
  "cached now now' ttl k v s =
     (case get now k s of
        (Some x, s') \<Rightarrow> (x, s')
      | (None, s') \<Rightarrow> (v, set_at now' k v ttl s'))"

text \<open>
  If every visible value of the store is the answer of a function, so is the result of a cached
  lookup, and the store stays that way.
\<close>

definition answers :: "go_time \<Rightarrow> ('k \<Rightarrow> 'v) \<Rightarrow> 's \<Rightarrow> bool" where
  "answers now f s \<longleftrightarrow> ok s \<and> (\<forall>later k v. now \<le> later \<longrightarrow> view later s k = Some v \<longrightarrow> v = f k)"

lemma cached_answers:
  assumes "answers now f s" "now \<le> now'"
  shows "fst (cached now now' ttl k (f k) s) = f k" "answers now' f (snd (cached now now' ttl k (f k) s))"
proof -
  obtain r s' where g: "get now k s = (r, s')" by (cases "get now k s")
  have ok: "ok s" using assms(1) by (simp add: answers_def)
  have ok': "ok s'" using ok_get [OF ok, of now k] g by simp
  have v: "r = view now s k" using get_view [OF ok, of now k] g by simp
  have same: "now \<le> later \<Longrightarrow> view later s' k' = view later s k'" for later k'
    using get_later [OF ok, of now later k k'] g by simp
  have s': "answers now' f s'" unfolding answers_def
  proof (intro conjI allI impI)
    fix later k' v
    assume a: "now' \<le> later" "view later s' k' = Some v"
    then have "view later s k' = Some v" using same [of later k'] assms(2) by simp
    moreover have "now \<le> later" using a(1) assms(2) by linarith
    ultimately show "v = f k'" using assms(1) by (auto simp: answers_def)
  qed (rule ok')
  show "fst (cached now now' ttl k (f k) s) = f k"
  proof (cases r)
    case None
    with g show ?thesis by (simp add: cached_def)
  next
    case (Some x)
    with assms(1) v have "x = f k" unfolding answers_def by (metis order_refl)
    with Some g show ?thesis by (simp add: cached_def)
  qed
  show "answers now' f (snd (cached now now' ttl k (f k) s))"
    using s' ok' set_view [OF ok'] ok_set [OF ok'] g
    by (cases r) (auto simp: cached_def answers_def split: if_splits)
qed

text \<open>A value that was set is what a lookup returns until it expires, unless the key is set again.\<close>

lemma set_get:
  "ok s \<Longrightarrow> later \<le> now + ttl \<Longrightarrow> fst (get later k (set_at now k v ttl s)) = Some v"
  by (simp add: get_view ok_set set_view)

lemma set_get_expired:
  "ok s \<Longrightarrow> now + ttl < later \<Longrightarrow> fst (get later k (set_at now k v ttl s)) = None"
  by (simp add: get_view ok_set set_view)

end

interpretation decay_store: expiring_store decay_get decay_set decay live wf_map
  by unfold_locales (simp_all add: decay_get_value live_decay_get live_decay_set live_decay)

section \<open>Concurrent lookups\<close>

text \<open>
  A goroutine that looks a key up reads the entry under the read lock, reads the clock without a
  lock, and if the entry has expired takes the write lock and deletes the key when its expiry is
  still the one that was read. Reading a missing key for that comparison gives the zero time. Each
  locked section is one step; the clock never goes back.
\<close>

datatype ('k, 'v) pc = Idle | Loaded 'k "'v entry" | Stale 'k go_time

record ('k, 'v) shared =
  sh_map :: "('k, 'v) decay_map"
  sh_clock :: go_time
  sh_pc :: "nat \<Rightarrow> ('k, 'v) pc"

datatype ('k, 'v) label = Tick | SetKey 'k 'v duration | Look nat 'k | Answer nat "'v option" | Clean

definition stale_delete :: "'k \<Rightarrow> go_time \<Rightarrow> ('k, 'v) decay_map \<Rightarrow> ('k, 'v) decay_map" where
  "stale_delete k expiry m =
     (if (case mget m k of None \<Rightarrow> 0 | Some e \<Rightarrow> en_expiry e) = expiry then mdel k m else m)"

inductive map_step :: "('k, 'v) shared \<Rightarrow> ('k, 'v) label \<Rightarrow> ('k, 'v) shared \<Rightarrow> bool" where
  tick: "sh_clock s \<le> t \<Longrightarrow> map_step s Tick (s\<lparr>sh_clock := t\<rparr>)"
| set_key: "map_step s (SetKey k v ttl) (s\<lparr>sh_map := decay_set (sh_clock s) k v ttl (sh_map s)\<rparr>)"
| miss: "sh_pc s i = Idle \<Longrightarrow> mget (sh_map s) k = None \<Longrightarrow> map_step s (Answer i None) s"
| load: "sh_pc s i = Idle \<Longrightarrow> mget (sh_map s) k = Some e \<Longrightarrow>
    map_step s (Look i k) (s\<lparr>sh_pc := (sh_pc s)(i := Loaded k e)\<rparr>)"
| hit: "sh_pc s i = Loaded k e \<Longrightarrow> \<not> expired (sh_clock s) e \<Longrightarrow>
    map_step s (Answer i (Some (en_value e))) (s\<lparr>sh_pc := (sh_pc s)(i := Idle)\<rparr>)"
| stale: "sh_pc s i = Loaded k e \<Longrightarrow> expired (sh_clock s) e \<Longrightarrow>
    map_step s (Look i k) (s\<lparr>sh_pc := (sh_pc s)(i := Stale k (en_expiry e))\<rparr>)"
| delete: "sh_pc s i = Stale k x \<Longrightarrow>
    map_step s (Answer i None) (s\<lparr>sh_map := stale_delete k x (sh_map s), sh_pc := (sh_pc s)(i := Idle)\<rparr>)"
| clean: "map_step s Clean (s\<lparr>sh_map := decay (sh_clock s) (sh_map s)\<rparr>)"

inductive_cases map_stepE: "map_step s l s'"

inductive reachable_map :: "go_time \<Rightarrow> ('k, 'v) shared \<Rightarrow> bool" for t0 where
  init: "sh_map s = [] \<Longrightarrow> sh_clock s = t0 \<Longrightarrow> (\<And>i. sh_pc s i = Idle) \<Longrightarrow> reachable_map t0 s"
| step: "reachable_map t0 s \<Longrightarrow> map_step s l s' \<Longrightarrow> reachable_map t0 s'"

text \<open>The invariant: whoever is about to delete has seen an expiry that is past.\<close>

definition map_inv :: "('k, 'v) shared \<Rightarrow> bool" where
  "map_inv s \<longleftrightarrow> wf_map (sh_map s) \<and> (\<forall>i k x. sh_pc s i = Stale k x \<longrightarrow> x < sh_clock s)"

lemma wf_stale_delete [simp]: "wf_map m \<Longrightarrow> wf_map (stale_delete k x m)"
  by (simp add: stale_delete_def)

lemma map_inv_step:
  assumes "map_step s l s'" "map_inv s"
  shows "map_inv s'"
  using assms by (induction rule: map_step.induct) (fastforce simp: map_inv_def expired_def)+

lemma reachable_map_inv: "reachable_map t0 s \<Longrightarrow> map_inv s"
proof (induction rule: reachable_map.induct)
  case (init s)
  then show ?case by (simp add: map_inv_def)
next
  case (step s l s')
  then show ?case by (blast intro: map_inv_step)
qed

lemma step_keeps_live:
  assumes "map_step s l s'" "map_inv s" "live (sh_clock s) (sh_map s) k = Some v"
    and "\<And>v ttl. l \<noteq> SetKey k v ttl"
  shows "mget (sh_map s') k = mget (sh_map s) k"
  using assms
proof (induction rule: map_step.induct)
  case (delete s i k' x)
  then have "x < sh_clock s" by (auto simp: map_inv_def)
  with delete show ?case
    by (auto simp: stale_delete_def live_def expired_def split: option.splits if_splits)
next
  case (clean s)
  then show ?case by (auto simp: map_inv_def mget_decay live_def split: option.splits if_splits)
qed (auto simp: decay_set_def)

text \<open>What a lookup answers was in the map, unexpired on the clock of the answer.\<close>

definition seen_inv :: "(('k \<times> 'v) \<Rightarrow> bool) \<Rightarrow> ('k, 'v) shared \<Rightarrow> bool" where
  "seen_inv P s \<longleftrightarrow> (\<forall>k e. mget (sh_map s) k = Some e \<longrightarrow> P (k, en_value e)) \<and>
     (\<forall>i k e. sh_pc s i = Loaded k e \<longrightarrow> P (k, en_value e))"

lemma seen_inv_step:
  assumes "map_step s l s'" "map_inv s" "seen_inv P s" "\<And>k v ttl. l = SetKey k v ttl \<Longrightarrow> P (k, v)"
  shows "seen_inv P s'"
  using assms
proof (induction rule: map_step.induct)
  case (clean s)
  then show ?case by (auto simp: seen_inv_def map_inv_def mget_decay split: option.splits if_splits)
qed (auto simp: seen_inv_def decay_set_def stale_delete_def split: if_splits)

section \<open>Properties\<close>

text \<open>
  C13: no interleaving of lookups, sets and clean-ups loses a live entry. In every reachable state, a
  step that does not set a key leaves the entry of that key alone as long as it has not expired, also
  when a goroutine that saw an older, expired entry of the key is about to delete it.
\<close>

theorem concurrent_get_keeps_live:
  assumes "reachable_map t0 s" "map_step s l s'" "live (sh_clock s) (sh_map s) k = Some v"
    and "\<And>v ttl. l \<noteq> SetKey k v ttl"
  shows "mget (sh_map s') k = mget (sh_map s) k"
  using step_keeps_live [OF assms(2) reachable_map_inv [OF assms(1)] assms(3,4)] .

theorem concurrent_get_keeps_live_witness:
  "\<exists>s s' :: (nat, nat) shared. reachable_map 5 s \<and> map_step s Clean s' \<and> mget (sh_map s') 1 = Some \<lparr>en_value = 7, en_expiry = 8\<rparr>"
proof -
  define s0 :: "(nat, nat) shared" where "s0 = \<lparr>sh_map = [], sh_clock = 5, sh_pc = (\<lambda>_. Idle)\<rparr>"
  define s1 where "s1 = s0\<lparr>sh_map := decay_set (sh_clock s0) 1 7 3 (sh_map s0)\<rparr>"
  define s2 where "s2 = s1\<lparr>sh_map := decay (sh_clock s1) (sh_map s1)\<rparr>"
  have "reachable_map 5 s0" by (rule init) (simp_all add: s0_def)
  then have r: "reachable_map 5 s1" unfolding s1_def by (rule step [OF _ set_key])
  have c: "map_step s1 Clean s2" unfolding s2_def by (rule clean)
  have l: "live (sh_clock s1) (sh_map s1) 1 = Some 7" by (simp add: s1_def s0_def live_decay_set)
  have "mget (sh_map s2) 1 = mget (sh_map s1) 1"
    by (rule concurrent_get_keeps_live [OF r c l]) simp
  also have "\<dots> = Some \<lparr>en_value = 7, en_expiry = 8\<rparr>" by (simp add: s1_def s0_def decay_set_def)
  finally show ?thesis using r c by blast
qed

text \<open>
  C14: lookups and clean-ups are invisible: after them every later lookup gives what it would have
  given without them, and a lookup after a set gives the value until its time to live has passed.
\<close>

theorem decay_map_contract:
  assumes "wf_map m" "now \<le> later"
  shows "fst (decay_get later k (snd (decay_get now j m))) = fst (decay_get later k m) \<and>
    fst (decay_get later k (decay now m)) = fst (decay_get later k m) \<and>
    fst (decay_get later k (decay_set now j v ttl m)) =
      (if k = j then (if later \<le> now + ttl then Some v else None) else fst (decay_get later k m))"
  using assms
  by (simp add: decay_store.get_view decay_store.get_later decay_store.clean_later decay_store.set_view)

theorem decay_map_contract_witness:
  "fst (decay_get 9 (1 :: nat) (decay_set 5 1 (7 :: nat) 3 [])) = None \<and>
   fst (decay_get 8 (1 :: nat) (decay_set 5 1 (7 :: nat) 3 [])) = Some 7"
  using decay_map_contract [of "[] :: (nat, nat) decay_map" 5 9 1 1 7 3]
    decay_map_contract [of "[] :: (nat, nat) decay_map" 5 8 1 1 7 3] by simp

end
