(* ===== verification/Context.thy ===== *)
theory Context
  imports Complex_Main Url Challenge_Types Cookies Decay_Map
begin

text \<open>
  The data that a request travels with: the request, the response being written, the request data of
  \<open>lib/challenge/data.go\<close>, the registrations of \<open>lib/challenge/register.go\<close> and the record of what the
  code does not define itself. Every handler takes the environment \<open>env\<close>, which does not change, and
  the world of one request, which it returns changed.

  The environment holds the settings of the state and the functions of the code's libraries: the
  hash, the sealing and opening of tokens, the evaluation of conditions, name lookups, requests to
  other servers, page templates. What varies from call to call (the clock, random numbers, answers
  of the network) takes the number of external readings made so far as an argument.
\<close>

section \<open>Tokens\<close>

record token_challenge =
  tc_key :: bytes
  tc_result :: bytes
  tc_ok :: bool
  tc_expiry :: int
  tc_not_before :: int
  tc_issued_at :: int

type_synonym token_map = "(string, token_challenge) gomap"

record token =
  t_state :: token_map
  t_expiry :: int
  t_not_before :: int
  t_issued_at :: int

section \<open>Requests and responses\<close>

record http_request =
  r_method :: string
  r_host :: string
  r_url :: url
  r_header :: header
  r_remote :: string
  r_tls :: bool
  r_proto :: string
  r_proto_major :: nat
  r_body :: bytes

type_synonym backend = string

datatype event =
    WriteHeader nat
  | WriteBody bytes
  | Redirected string nat
  | HttpError nat
  | Served backend http_request
  | StaticAsset string
  | Hijacked
  | Solved string VerifyResult

datatype metric =
    MetricRule string string
  | MetricAction string
  | MetricChallenge string string

record html_attr =
  a_ns :: string
  a_key :: string
  a_val :: string

record html_node =
  n_ns :: string
  n_data :: string
  n_attr :: "html_attr list"

text \<open>A parsed document: a node, whether it is an element, and its children.\<close>

datatype html_tree = HtmlTree bool html_node "html_tree list"

text \<open>The answer of a backend to a request for a page, with the result of parsing its body.\<close>

record page =
  pg_code :: nat
  pg_header :: header
  pg_document :: "go_error + html_tree"

section \<open>Request data\<close>

record request_data =
  d_id :: bytes
  d_time :: go_time
  d_verify :: "(int, VerifyResult) gomap"
  d_state :: "(int, VerifyState) gomap"
  d_map :: token_map
  d_modified :: bool
  d_remote :: addr_port
  d_cookie_name :: string
  d_issued :: string
  d_extra :: header
  d_fp :: "(string, string) gomap"
  d_query :: url_values
  d_opts :: "(string, string) gomap"

record world =
  w_req :: http_request
  w_data :: request_data
  w_header :: header
  w_cookies :: "set_cookie list"
  w_events :: "event list"
  w_metrics :: "metric list"
  w_ticks :: nat
  w_tags :: "(string, html_node list) decay_map"
  w_dnsbl :: "(int \<times> bytes, byte) decay_map"
  w_hijacker :: bool
  w_pusher :: bool

section \<open>Registrations\<close>

record http_params =
  hp_method :: string
  hp_code :: nat
  hp_cookie :: string
  hp_url :: string

record wasm_params =
  wp_runtime :: string
  wp_loader :: string
  wp_settings :: "(string, string) gomap"

text \<open>
  The functions that a runtime stores in a registration (\<open>Verify\<close>, \<open>IssueChallenge\<close> and \<open>Handler\<close>) are
  determined by the runtime and its parameters, which stand for them here.
\<close>

datatype runtime =
    RCookie
  | RDnsbl string duration duration
  | RHttp http_params
  | RPreloadLink duration
  | RRefresh string
  | RResourceLoad
  | RWasm wasm_params

type_synonym cel_program = string

record registration =
  reg_id :: int
  reg_name :: string
  reg_class :: Class
  reg_condition :: "cel_program option"
  reg_path :: string
  reg_duration :: duration
  reg_runtime :: runtime
  reg_probability :: rat
  reg_key_headers :: "string list"

section \<open>The environment\<close>

datatype cel_value =
    CelBool bool
  | CelString string
  | CelBytes bytes
  | CelStringMap "(string, string) gomap"
  | CelValues "(string, string list) gomap"

type_synonym activation = "string \<Rightarrow> cel_value option"

datatype tvalue =
    TString string
  | TSafe string
  | TLinks "(string \<times> string) list"
  | TStrings "(string, string) gomap"
  | TTags "((string, string) gomap) list"
  | THtml "string list"

type_synonym template_input = "(string, tvalue) gomap"

text \<open>What a WASM runtime answers: \<open>VerifyChallengeOutput\<close> and \<open>MakeChallengeOutput\<close>.\<close>

datatype verify_output = OutputOK | OutputFailed | OutputError

record make_output =
  mo_data :: bytes
  mo_code :: nat
  mo_headers :: header

record env =
  e_sha256 :: "bytes \<Rightarrow> bytes"
  e_now :: "nat \<Rightarrow> go_time"
  e_float64 :: "nat \<Rightarrow> rat"
  e_random_id :: "nat \<Rightarrow> bytes"
  e_parse_ip6 :: "string \<Rightarrow> addr option"
  e_print_ip6 :: "addr \<Rightarrow> string"
  e_authority :: authority_parser
  e_eval :: "cel_program \<Rightarrow> activation \<Rightarrow> go_error + cel_value option"
  e_seal :: "bytes \<Rightarrow> bytes \<Rightarrow> nat \<Rightarrow> token \<Rightarrow> go_error + string"
  e_open :: "bytes \<Rightarrow> bytes \<Rightarrow> string \<Rightarrow> go_error + token"
  e_do :: "nat \<Rightarrow> http_request \<Rightarrow> go_error + nat"
  e_lookup_ip :: "nat \<Rightarrow> string \<Rightarrow> go_error + bytes list"
  e_await :: "nat \<Rightarrow> string \<Rightarrow> VerifyResult"
  e_fetch :: "nat \<Rightarrow> backend \<Rightarrow> url \<Rightarrow> page"
  e_media_type :: "string \<Rightarrow> string"
  e_render :: "string \<Rightarrow> template_input \<Rightarrow> go_error + bytes"
  e_wasm_verify :: "nat \<Rightarrow> wasm_params \<Rightarrow> key \<Rightarrow> bytes \<Rightarrow> go_error + verify_output"
  e_wasm_make :: "nat \<Rightarrow> wasm_params \<Rightarrow> key \<Rightarrow> http_request \<Rightarrow> go_error + make_output"
  e_private_key :: bytes
  e_public_key :: bytes
  e_fingerprint :: bytes
  e_url_path :: string
  e_main_name :: string
  e_main_version :: string
  e_client_ip_header :: string
  e_backend_ip_header :: string
  e_response_code :: nat
  e_backends :: "(string, backend) gomap"
  e_challenges :: "(int, registration) gomap"
  e_template :: string
  e_overrides :: "(string, string) gomap"
  e_links :: "(string \<times> string) list"
  e_strings :: "(string, string) gomap"
  e_cache_bust :: string

section \<open>Readings of the outside\<close>

definition tick :: "world \<Rightarrow> world" where
  "tick w = w\<lparr>w_ticks := w_ticks w + 1\<rparr>"

definition now :: "env \<Rightarrow> world \<Rightarrow> go_time \<times> world" where
  "now env w = (e_now env (w_ticks w), tick w)"

text \<open>A clock that does not go back.\<close>

definition clock_ok :: "env \<Rightarrow> bool" where
  "clock_ok env \<longleftrightarrow> mono (e_now env)"

section \<open>Writing the response\<close>

definition set_header :: "string \<Rightarrow> string \<Rightarrow> world \<Rightarrow> world" where
  "set_header k v w = w\<lparr>w_header := header_set (w_header w) k v\<rparr>"

definition del_header :: "string \<Rightarrow> world \<Rightarrow> world" where
  "del_header k w = w\<lparr>w_header := header_del (w_header w) k\<rparr>"

definition emit :: "event \<Rightarrow> world \<Rightarrow> world" where
  "emit e w = w\<lparr>w_events := w_events w @ [e]\<rparr>"

definition count_metric :: "metric \<Rightarrow> world \<Rightarrow> world" where
  "count_metric m w = w\<lparr>w_metrics := w_metrics w @ [m]\<rparr>"

definition set_req :: "(http_request \<Rightarrow> http_request) \<Rightarrow> world \<Rightarrow> world" where
  "set_req f w = w\<lparr>w_req := f (w_req w)\<rparr>"

definition set_data :: "(request_data \<Rightarrow> request_data) \<Rightarrow> world \<Rightarrow> world" where
  "set_data f w = w\<lparr>w_data := f (w_data w)\<rparr>"

section \<open>The callbacks of the state (\<open>lib/interface.go\<close>)\<close>

definition ChallengeFailed :: "registration \<Rightarrow> world \<Rightarrow> world" where
  "ChallengeFailed reg = count_metric (MetricChallenge (reg_name reg) ''fail'')"

definition ChallengePassed :: "registration \<Rightarrow> world \<Rightarrow> world" where
  "ChallengePassed reg = count_metric (MetricChallenge (reg_name reg) ''pass'')"

definition ChallengeIssued :: "registration \<Rightarrow> world \<Rightarrow> world" where
  "ChallengeIssued reg = count_metric (MetricChallenge (reg_name reg) ''issue'')"

definition ChallengeChecked :: "registration \<Rightarrow> world \<Rightarrow> world" where
  "ChallengeChecked reg = count_metric (MetricChallenge (reg_name reg) ''check'')"

definition RuleHit :: "string \<Rightarrow> world \<Rightarrow> world" where
  "RuleHit name = count_metric (MetricRule name ''hit'')"

definition RuleMiss :: "string \<Rightarrow> world \<Rightarrow> world" where
  "RuleMiss name = count_metric (MetricRule name ''miss'')"

definition ActionHit :: "string \<Rightarrow> world \<Rightarrow> world" where
  "ActionHit name = count_metric (MetricAction name)"

definition GetBackend :: "env \<Rightarrow> string \<Rightarrow> backend option" where
  "GetBackend env host = SelectHTTPHandler (e_backends env) host"

definition GetChallenge :: "env \<Rightarrow> int \<Rightarrow> registration option" where
  "GetChallenge env cid = mget (e_challenges env) cid"

section \<open>What the small steps leave alone\<close>

lemma tick_simps [simp]:
  "w_req (tick w) = w_req w" "w_data (tick w) = w_data w" "w_header (tick w) = w_header w"
  "w_cookies (tick w) = w_cookies w" "w_events (tick w) = w_events w" "w_metrics (tick w) = w_metrics w"
  "w_ticks (tick w) = Suc (w_ticks w)" "w_tags (tick w) = w_tags w" "w_dnsbl (tick w) = w_dnsbl w"
  "w_hijacker (tick w) = w_hijacker w" "w_pusher (tick w) = w_pusher w"
  by (simp_all add: tick_def)

lemma now_simps [simp]: "fst (now env w) = e_now env (w_ticks w)" "snd (now env w) = tick w"
  by (simp_all add: now_def)

lemma write_simps [simp]:
  "w_req (set_header k v w) = w_req w" "w_data (set_header k v w) = w_data w"
  "w_events (set_header k v w) = w_events w" "w_metrics (set_header k v w) = w_metrics w"
  "w_cookies (set_header k v w) = w_cookies w" "w_ticks (set_header k v w) = w_ticks w"
  "w_header (set_header k v w) = header_set (w_header w) k v"
  "w_req (del_header k w) = w_req w" "w_data (del_header k w) = w_data w"
  "w_events (del_header k w) = w_events w" "w_metrics (del_header k w) = w_metrics w"
  "w_cookies (del_header k w) = w_cookies w" "w_ticks (del_header k w) = w_ticks w"
  "w_header (del_header k w) = header_del (w_header w) k"
  "w_req (emit e w) = w_req w" "w_data (emit e w) = w_data w" "w_header (emit e w) = w_header w"
  "w_events (emit e w) = w_events w @ [e]" "w_metrics (emit e w) = w_metrics w"
  "w_cookies (emit e w) = w_cookies w" "w_ticks (emit e w) = w_ticks w"
  "w_req (count_metric m w) = w_req w" "w_data (count_metric m w) = w_data w"
  "w_header (count_metric m w) = w_header w" "w_events (count_metric m w) = w_events w"
  "w_metrics (count_metric m w) = w_metrics w @ [m]" "w_cookies (count_metric m w) = w_cookies w"
  "w_ticks (count_metric m w) = w_ticks w"
  by (simp_all add: set_header_def del_header_def emit_def count_metric_def)

lemma set_data_simps [simp]:
  "w_req (set_data f w) = w_req w" "w_data (set_data f w) = f (w_data w)"
  "w_header (set_data f w) = w_header w" "w_events (set_data f w) = w_events w"
  "w_metrics (set_data f w) = w_metrics w" "w_cookies (set_data f w) = w_cookies w"
  "w_ticks (set_data f w) = w_ticks w"
  "w_req (set_req g w) = g (w_req w)" "w_data (set_req g w) = w_data w"
  "w_header (set_req g w) = w_header w" "w_events (set_req g w) = w_events w"
  "w_metrics (set_req g w) = w_metrics w" "w_cookies (set_req g w) = w_cookies w"
  "w_ticks (set_req g w) = w_ticks w"
  by (simp_all add: set_data_def set_req_def)

lemmas callback_defs = ChallengeFailed_def ChallengePassed_def ChallengeIssued_def ChallengeChecked_def
  RuleHit_def RuleMiss_def ActionHit_def

end
