(* ===== verification/Register.thy ===== *)
theory Register
  imports Context
begin

text \<open>
  The register of challenges (\<open>lib/challenge/register.go\<close>): a map from identifiers to registrations, with
  a counter for new identifiers. A registration that is added under a name that is known keeps the
  identifier of that name.
\<close>

section \<open>Operations\<close>

type_synonym register = "(int, registration) gomap"

definition Register_Get :: "register \<Rightarrow> int \<Rightarrow> registration option" where
  "Register_Get r i = mget r i"

text \<open>\<open>GetByName\<close> returns at the first match of the loop over the map.\<close>

fun GetByName :: "register \<Rightarrow> string \<Rightarrow> (registration \<times> int) option" where
  "GetByName [] name = None"
| "GetByName ((i, c) # r) name = (if reg_name c = name then Some (c, i) else GetByName r name)"

text \<open>The package variable \<open>idCounter\<close> is passed with the register.\<close>

definition assign_id :: "int \<Rightarrow> register \<Rightarrow> string \<Rightarrow> int \<times> int" where
  "assign_id counter r name =
     (case GetByName r name of Some (_, oldId) \<Rightarrow> (counter, oldId) | None \<Rightarrow> (counter + 1, counter + 1))"

definition Register_Add :: "int \<Rightarrow> register \<Rightarrow> registration \<Rightarrow> int \<times> register \<times> int" where
  "Register_Add counter r c =
     (case assign_id counter r (reg_name c) of
        (counter', i) \<Rightarrow> (counter', mset_key i (c\<lparr>reg_id := i\<rparr>) r, i))"

definition DefaultKeyHeaders :: "string list" where
  "DefaultKeyHeaders = [''User-Agent'', ''Accept-Language'']"

definition MinimalKeyHeaders :: "string list" where
  "MinimalKeyHeaders = [''Accept-Language'', ''User-Agent'']"

record 'p policy_challenge =
  pc_conditions :: "string list"
  pc_runtime :: string
  pc_duration :: duration
  pc_parameters :: 'p

text \<open>
  \<open>Create\<close>. The table of runtimes, the compiler of conditions and the replacer of named conditions are
  arguments; \<open>join_path\<close> stands for \<open>path.Join\<close>. A registration starts with the zero values of its
  fields, which the runtime then fills in.
\<close>

definition new_registration :: "string \<Rightarrow> string \<Rightarrow> duration \<Rightarrow> registration" where
  "new_registration name p d =
     \<lparr>reg_id = 0, reg_name = name, reg_class = ClassTransparent, reg_condition = None, reg_path = p,
      reg_duration = (if d = 0 then DefaultDuration else d), reg_runtime = RCookie, reg_probability = 0,
      reg_key_headers = DefaultKeyHeaders\<rparr>"

definition Create ::
    "(string \<Rightarrow> ('p \<Rightarrow> registration \<Rightarrow> go_error + registration) option) \<Rightarrow>
     (string list \<Rightarrow> go_error + cel_program) \<Rightarrow> (string \<Rightarrow> string) option \<Rightarrow> (string list \<Rightarrow> string) \<Rightarrow>
     string \<Rightarrow> string \<Rightarrow> 'p policy_challenge \<Rightarrow> int \<Rightarrow> register \<Rightarrow>
     (go_error + registration \<times> int) \<times> int \<times> register" where
  "Create runtimes compile replacer join_path urlPath name pol counter r =
     (case runtimes (pc_runtime pol) of
        None \<Rightarrow> (Inl (Err (''unknown challenge runtime '' @ pc_runtime pol)), counter, r)
      | Some fill \<Rightarrow>
          (let reg = new_registration name (join_path [urlPath, ''challenge'', name]) (pc_duration pol);
               conditions = map (\<lambda>c. case replacer of None \<Rightarrow> c | Some f \<Rightarrow> f c) (pc_conditions pol)
           in case (if conditions = [] then Inr reg
                    else (case compile conditions of
                        Inl e \<Rightarrow> Inl (Wrap ''error compiling condition'' e)
                      | Inr prog \<Rightarrow> Inr (reg\<lparr>reg_condition := Some prog\<rparr>))) of
             Inl e \<Rightarrow> (Inl e, counter, r)
           | Inr reg' \<Rightarrow>
               (case assign_id counter r (reg_name reg') of (counter', i) \<Rightarrow>
                  (case fill (pc_parameters pol) (reg'\<lparr>reg_id := i\<rparr>) of
                     Inl e \<Rightarrow> (Inl (Err (''error filling registration: '' @ error_text e)), counter', r)
                   | Inr reg'' \<Rightarrow> (Inr (reg'', reg_id reg''), counter', mset_key (reg_id reg'') reg'' r)))))"

section \<open>The invariant\<close>

text \<open>
  Every registration is stored under its own identifier, which the counter has passed, and no two
  registrations share a name.
\<close>

definition register_inv :: "int \<Rightarrow> register \<Rightarrow> bool" where
  "register_inv counter r \<longleftrightarrow> wf_map r \<and>
     (\<forall>i c. mget r i = Some c \<longrightarrow> reg_id c = i \<and> 0 < i \<and> i \<le> counter) \<and>
     (\<forall>i j c d. mget r i = Some c \<longrightarrow> mget r j = Some d \<longrightarrow> reg_name c = reg_name d \<longrightarrow> i = j)"

lemma GetByName_Some: "wf_map r \<Longrightarrow> GetByName r name = Some (c, i) \<Longrightarrow> mget r i = Some c \<and> reg_name c = name"
proof (induction r name rule: GetByName.induct)
  case (2 j d r name)
  then show ?case
    by (auto simp: mget_Cons wf_map_def mkeys_def split: if_splits)
      (metis mget_def map_of_SomeD fst_conv image_eqI)
qed simp

lemma GetByName_None: "GetByName r name = None \<Longrightarrow> mget r i = Some c \<Longrightarrow> reg_name c \<noteq> name"
  by (induction r name rule: GetByName.induct) (auto simp: mget_Cons split: if_splits)

lemma GetByName_complete:
  assumes "register_inv n r" "mget r i = Some c"
  shows "GetByName r (reg_name c) = Some (c, i)"
proof (cases "GetByName r (reg_name c)")
  case None
  with assms(2) show ?thesis using GetByName_None by blast
next
  case (Some p)
  obtain d j where p: "p = (d, j)" by (cases p)
  with Some have d: "mget r j = Some d" "reg_name d = reg_name c"
    using GetByName_Some assms(1) by (auto simp: register_inv_def)
  then have "j = i" using assms by (auto simp: register_inv_def)
  with d assms(2) Some p show ?thesis by simp
qed

lemma assign_id_known: "register_inv n r \<Longrightarrow> assign_id n r name = (n', i) \<Longrightarrow>
  n \<le> n' \<and> 0 \<le> n \<longrightarrow> (0 < i \<and> i \<le> n' \<and> (\<forall>c. mget r i = Some c \<longrightarrow> reg_name c = name) \<and>
    (\<forall>j c. mget r j = Some c \<longrightarrow> reg_name c = name \<longrightarrow> j = i))"
proof -
  assume inv: "register_inv n r" and a: "assign_id n r name = (n', i)"
  show ?thesis
  proof (cases "GetByName r name")
    case None
    with a have i: "n' = n + 1" "i = n + 1" by (auto simp: assign_id_def)
    have "mget r i \<noteq> Some c" for c
    proof
      assume "mget r i = Some c"
      then have "i \<le> n" using inv unfolding register_inv_def by blast
      with i show False by simp
    qed
    moreover have "mget r j = Some c \<Longrightarrow> reg_name c \<noteq> name" for j c using None by (rule GetByName_None)
    ultimately show ?thesis using i by auto
  next
    case (Some p)
    obtain d j where p: "p = (d, j)" by (cases p)
    with Some a have ij: "n' = n" "i = j" by (auto simp: assign_id_def)
    have d: "mget r j = Some d" "reg_name d = name"
      using Some p GetByName_Some inv by (auto simp: register_inv_def)
    with inv ij show ?thesis by (auto simp: register_inv_def)
  qed
qed

lemma assign_id_counter: "assign_id n r name = (n', i) \<Longrightarrow> n \<le> n'"
  by (auto simp: assign_id_def split: option.splits)

lemma register_invD:
  assumes "register_inv n r"
  shows "wf_map r" "mget r i = Some c \<Longrightarrow> reg_id c = i" "mget r i = Some c \<Longrightarrow> 0 < i" "mget r i = Some c \<Longrightarrow> i \<le> n"
    "mget r i = Some c \<Longrightarrow> mget r j = Some d \<Longrightarrow> reg_name c = reg_name d \<Longrightarrow> i = j"
  using assms unfolding register_inv_def by blast+

lemma register_inv_store:
  assumes inv: "register_inv n r" and n: "0 \<le> n" and a: "assign_id n r (reg_name c) = (n', i)" and c: "reg_id c = i"
  shows "register_inv n' (mset_key i c r)"
proof -
  have k: "0 < i" "i \<le> n'" and u: "\<And>j d. mget r j = Some d \<Longrightarrow> reg_name d = reg_name c \<Longrightarrow> j = i"
    using assign_id_known [OF inv a] assign_id_counter [OF a] n by blast+
  show ?thesis unfolding register_inv_def
  proof (intro conjI allI impI)
    show "wf_map (mset_key i c r)" using register_invD(1) [OF inv] by simp
  next
    fix j d assume d: "mget (mset_key i c r) j = Some d"
    have "reg_id d = j \<and> 0 < j \<and> j \<le> n'"
    proof (cases "j = i")
      case True
      then show ?thesis using d k c by simp
    next
      case False
      then have "mget r j = Some d" using d by simp
      with register_invD(2-4) [OF inv] assign_id_counter [OF a] show ?thesis by fastforce
    qed
    then show "reg_id d = j" "0 < j" "j \<le> n'" by blast+
  next
    fix j l d e
    assume d: "mget (mset_key i c r) j = Some d" and e: "mget (mset_key i c r) l = Some e" and n: "reg_name d = reg_name e"
    show "j = l"
    proof (cases "j = i")
      case True
      then show ?thesis using d e n u [of l e] by (cases "l = i") auto
    next
      case False
      then show ?thesis using d e n u [of j d] register_invD(5) [OF inv, of j d l e] by (cases "l = i") auto
    qed
  qed
qed

lemma Register_Add_inv:
  assumes "register_inv n r" "0 \<le> n" "Register_Add n r c = (n', r', i)"
  shows "register_inv n' r'" "0 \<le> n'" "mget r' i = Some (c\<lparr>reg_id := i\<rparr>)"
    "\<And>j. j \<noteq> i \<Longrightarrow> mget r' j = mget r j"
    "\<And>d. GetByName r (reg_name c) = Some (d, j) \<Longrightarrow> i = j"
proof -
  obtain m k where a: "assign_id n r (reg_name c) = (m, k)" by (cases "assign_id n r (reg_name c)")
  with assms(3) have e: "n' = m" "i = k" "r' = mset_key k (c\<lparr>reg_id := k\<rparr>) r" by (auto simp: Register_Add_def)
  show "register_inv n' r'" unfolding e by (rule register_inv_store [OF assms(1,2)]) (use a in simp_all)
  show "0 \<le> n'" using assign_id_counter [OF a] assms(2) e by simp
  show "mget r' i = Some (c\<lparr>reg_id := i\<rparr>)" "\<And>j. j \<noteq> i \<Longrightarrow> mget r' j = mget r j" by (simp_all add: e)
  show "\<And>d. GetByName r (reg_name c) = Some (d, j) \<Longrightarrow> i = j" using a e by (simp add: assign_id_def)
qed

text \<open>The contract of a runtime: it fills a registration in without touching its identity.\<close>

definition fills :: "('p \<Rightarrow> registration \<Rightarrow> go_error + registration) \<Rightarrow> bool" where
  "fills fill \<longleftrightarrow> (\<forall>p reg reg'. fill p reg = Inr reg' \<longrightarrow>
     reg_id reg' = reg_id reg \<and> reg_name reg' = reg_name reg \<and> reg_duration reg' = reg_duration reg \<and>
     reg_condition reg' = reg_condition reg \<and> reg_path reg' = reg_path reg)"

lemma Create_ok:
  assumes "Create runtimes compile replacer jp up name pol n r = (Inr (reg, i), n', r')"
    and "\<And>k fill. runtimes k = Some fill \<Longrightarrow> fills fill"
  shows "assign_id n r name = (n', i) \<and> reg_id reg = i \<and> reg_name reg = name \<and> r' = mset_key i reg r \<and>
    reg_duration reg = (if pc_duration pol = 0 then DefaultDuration else pc_duration pol) \<and>
    (reg_condition reg = None \<longleftrightarrow> pc_conditions pol = [])"
proof -
  from assms(1) obtain fill where f: "runtimes (pc_runtime pol) = Some fill"
    unfolding Create_def by (cases "runtimes (pc_runtime pol)") simp_all
  define reg0 where "reg0 = new_registration name (jp [up, ''challenge'', name]) (pc_duration pol)"
  define conds where "conds = map (\<lambda>c. case replacer of None \<Rightarrow> c | Some f \<Rightarrow> f c) (pc_conditions pol)"
  define cr where "cr = (if conds = [] then Inr reg0 else (case compile conds of
      Inl e \<Rightarrow> Inl (Wrap ''error compiling condition'' e) | Inr prog \<Rightarrow> Inr (reg0\<lparr>reg_condition := Some prog\<rparr>)))"
  have C: "(case cr of Inl e \<Rightarrow> (Inl e, n, r) | Inr reg' \<Rightarrow>
      (case assign_id n r (reg_name reg') of (counter', i) \<Rightarrow>
        (case fill (pc_parameters pol) (reg'\<lparr>reg_id := i\<rparr>) of
           Inl e \<Rightarrow> (Inl (Err (''error filling registration: '' @ error_text e)), counter', r)
         | Inr reg'' \<Rightarrow> (Inr (reg'', reg_id reg''), counter', mset_key (reg_id reg'') reg'' r)))) = (Inr (reg, i), n', r')"
    using assms(1) f unfolding Create_def Let_def reg0_def [symmetric] conds_def [symmetric] cr_def by simp
  then obtain reg1 where r1: "cr = Inr reg1" by (cases cr) auto
  obtain m k where mk: "assign_id n r (reg_name reg1) = (m, k)" by (cases "assign_id n r (reg_name reg1)")
  from C r1 mk have 1: "fill (pc_parameters pol) (reg1\<lparr>reg_id := k\<rparr>) = Inr reg"
      "i = reg_id reg" "n' = m" "r' = mset_key (reg_id reg) reg r"
    by (cases "fill (pc_parameters pol) (reg1\<lparr>reg_id := k\<rparr>)"; simp)+
  from r1 have c0: "reg1 = reg0 \<and> conds = [] \<or> conds \<noteq> [] \<and> (\<exists>prog. reg1 = reg0\<lparr>reg_condition := Some prog\<rparr>)"
    unfolding cr_def by (cases "conds = []"; cases "compile conds") auto
  from f assms(2) have "fills fill" by blast
  with 1(1) have "reg_id reg = k" "reg_name reg = reg_name reg1" "reg_duration reg = reg_duration reg1"
      "reg_condition reg = reg_condition reg1"
    unfolding fills_def by force+
  moreover have "reg_name reg1 = name" "reg_duration reg1 = (if pc_duration pol = 0 then DefaultDuration else pc_duration pol)"
      "reg_condition reg1 = None \<longleftrightarrow> pc_conditions pol = []"
    using c0 by (auto simp: reg0_def new_registration_def conds_def)
  ultimately show ?thesis using 1 mk by auto
qed

lemma Create_inv:
  assumes "register_inv n r" "0 \<le> n" "Create runtimes compile replacer jp up name pol n r = (res, n', r')"
    and "\<And>k fill. runtimes k = Some fill \<Longrightarrow> fills fill"
  shows "register_inv n' r' \<and> 0 \<le> n'"
proof (cases res)
  case (Inr p)
  obtain reg i where p: "p = (reg, i)" by (cases p)
  have c: "assign_id n r name = (n', i)" "reg_id reg = i" "reg_name reg = name" "r' = mset_key i reg r"
    using Create_ok assms(3,4) Inr p by blast+
  then show ?thesis
    using register_inv_store [OF assms(1,2)] assign_id_counter [OF c(1)] assms(2) by auto
next
  case (Inl e)
  then have "r' = r" "n \<le> n'"
    using assms(3) by (auto simp: Create_def Let_def split: option.splits sum.splits prod.splits if_splits dest: assign_id_counter)
  with assms(1,2) show ?thesis by (fastforce simp: register_inv_def)
qed

section \<open>Properties\<close>

definition add_all :: "registration list \<Rightarrow> int \<times> register \<Rightarrow> int \<times> register" where
  "add_all cs st = fold (\<lambda>c (n, r). case Register_Add n r c of (n', r', _) \<Rightarrow> (n', r')) cs st"

lemma add_all_inv: "register_inv n r \<Longrightarrow> 0 \<le> n \<Longrightarrow> add_all cs (n, r) = (n', r') \<Longrightarrow> register_inv n' r' \<and> 0 \<le> n'"
proof (induction cs arbitrary: n r)
  case (Cons c cs)
  obtain m q i where a: "Register_Add n r c = (m, q, i)" by (cases "Register_Add n r c") auto
  with Cons.prems(3) have "add_all cs (m, q) = (n', r')" by (simp add: add_all_def)
  with Cons.IH Register_Add_inv(1,2) [OF Cons.prems(1,2) a] show ?case by blast
qed (simp add: add_all_def)

text \<open>
  the register never gives two names one identifier or one name two. Starting from an empty
  register, any sequence of additions keeps every registration under its own identifier, distinct
  names under distinct identifiers, and a name that is added again keeps its identifier; the lookups
  by identifier and by name agree.
\<close>

theorem register_identifiers:
  assumes "add_all cs (0, []) = (n, r)" "Register_Add n r c = (n', r', i)"
  shows "register_inv n' r' \<and> Register_Get r' i = Some (c\<lparr>reg_id := i\<rparr>) \<and>
    GetByName r' (reg_name c) = Some (c\<lparr>reg_id := i\<rparr>, i) \<and>
    (\<forall>j. j \<noteq> i \<longrightarrow> Register_Get r' j = Register_Get r j) \<and>
    (\<forall>d j. GetByName r (reg_name c) = Some (d, j) \<longrightarrow> i = j)"
proof -
  have "register_inv 0 []" by (simp add: register_inv_def)
  with assms(1) have inv: "register_inv n r" "0 \<le> n" using add_all_inv by auto
  note add = Register_Add_inv [OF inv assms(2)]
  have "GetByName r' (reg_name (c\<lparr>reg_id := i\<rparr>)) = Some (c\<lparr>reg_id := i\<rparr>, i)"
    by (rule GetByName_complete [OF add(1,3)])
  with add show ?thesis by (simp add: Register_Get_def)
qed

theorem register_identifiers_witness:
  "let c = new_registration ''a'' [] 0; d = new_registration ''b'' [] 0 in
   \<exists>r. add_all [c, d] (0, []) = (2, r) \<and> GetByName (fst (snd (Register_Add 2 r c))) ''a'' = Some (c\<lparr>reg_id := 1\<rparr>, 1)"
proof -
  define c where "c = new_registration ''a'' [] 0"
  define d where "d = new_registration ''b'' [] 0"
  define r :: register where "r = [(1, c\<lparr>reg_id := 1\<rparr>), (2, d\<lparr>reg_id := 2\<rparr>)]"
  have n: "reg_name c = ''a''" "reg_name d = ''b''" by (simp_all add: c_def d_def new_registration_def)
  have a: "add_all [c, d] (0, []) = (2, r)"
    by (simp add: add_all_def Register_Add_def assign_id_def n mset_key_def r_def)
  obtain n' r' where b: "Register_Add 2 r c = (n', r', 1)"
    by (simp add: Register_Add_def assign_id_def n r_def)
  show ?thesis
    using register_identifiers [OF a b] a b n unfolding c_def [symmetric] d_def [symmetric] Let_def by auto
qed

end
