(* ===== verification/Verifiers.thy ===== *)
theory Verifiers
  imports Register
begin

text \<open>
  The functions that check the result of a challenge: the \<open>Verify\<close> field of a registration, as
  \<open>lib/challenge/http/http.go\<close>, \<open>lib/challenge/wasm/registration.go\<close> and the runtimes built on
  \<open>NewKeyVerifier\<close> (\<open>lib/challenge/helper.go\<close>) set it.
\<close>

type_synonym verify_result = "VerifyResult \<times> go_error option"

text \<open>The hash of the value of the configured cookie, bound to the key of the request.\<close>

definition bindAuthValue :: "env \<Rightarrow> http_params \<Rightarrow> key \<Rightarrow> http_request \<Rightarrow> go_error + bytes" where
  "bindAuthValue env p k r =
     (case Cookie (r_header r) (hp_cookie p) of
        Inl e \<Rightarrow> Inl ErrNoCookie
      | Inr c \<Rightarrow> Inr (e_sha256 env (bytes_of (c_value c) @ [0] @ k)))"

definition http_verify :: "env \<Rightarrow> http_params \<Rightarrow> key \<Rightarrow> bytes \<Rightarrow> http_request \<Rightarrow> verify_result" where
  "http_verify env p k token r =
     (case bindAuthValue env p k r of
        Inl e \<Rightarrow> (VerifyResultFail, Some e)
      | Inr h \<Rightarrow>
          (if h = token then (VerifyResultOK, None)
           else (VerifyResultFail, Some (Err ''invalid cookie value''))))"

definition wasm_verify :: "env \<Rightarrow> wasm_params \<Rightarrow> key \<Rightarrow> bytes \<Rightarrow> world \<Rightarrow> verify_result \<times> world" where
  "wasm_verify env p k token w =
     ((case e_wasm_verify env (w_ticks w) p k token of
         Inl e \<Rightarrow> (VerifyResultFail, Some e)
       | Inr OutputError \<Rightarrow> (VerifyResultFail, Some (Err ''error checking challenge''))
       | Inr OutputOK \<Rightarrow> (VerifyResultOK, None)
       | Inr OutputFailed \<Rightarrow> (VerifyResultFail, None)), tick w)"

text \<open>The \<open>Verify\<close> field: absent for the runtimes that have nothing to check again.\<close>

fun Verify :: "env \<Rightarrow> registration \<Rightarrow> (key \<Rightarrow> bytes \<Rightarrow> world \<Rightarrow> verify_result \<times> world) option" where
  "Verify env reg =
     (case reg_runtime reg of
        RCookie \<Rightarrow> None
      | RDnsbl _ _ _ \<Rightarrow> None
      | RHttp p \<Rightarrow>
          (if hp_cookie p \<noteq> [] then Some (\<lambda>k token w. (http_verify env p k token (w_req w), w)) else None)
      | RPreloadLink _ \<Rightarrow> Some (\<lambda>k token w. (key_verify k token, w))
      | RRefresh _ \<Rightarrow> Some (\<lambda>k token w. (key_verify k token, w))
      | RResourceLoad \<Rightarrow> Some (\<lambda>k token w. (key_verify k token, w))
      | RWasm p \<Rightarrow> Some (wasm_verify env p))"

declare Verify.simps [simp del]

lemma Verify_world:
  "Verify env reg = Some v \<Longrightarrow> v k token w = (r, w') \<Longrightarrow> w' = w \<or> w' = tick w"
  by (auto simp: Verify.simps wasm_verify_def split: runtime.splits if_splits)

text \<open>No verifier answers with anything but OK or Fail.\<close>

lemma Verify_OK_or_Fail:
  assumes "Verify env reg = Some v" "v k token w = ((r, e), w')"
  shows "r = VerifyResultOK \<or> r = VerifyResultFail"
proof -
  have "r = VerifyResultOK \<or> r = VerifyResultFail" if "key_verify k token = (r, e)"
    using key_verify_total [OF that] by blast
  moreover have "r = VerifyResultOK \<or> r = VerifyResultFail" if "http_verify env p k token x = (r, e)" for p x
    using that by (auto simp: http_verify_def split: sum.splits if_splits)
  moreover have "r = VerifyResultOK \<or> r = VerifyResultFail" if "wasm_verify env p k token w = ((r, e), w')" for p
    using that by (auto simp: wasm_verify_def split: sum.splits verify_output.splits)
  ultimately show ?thesis using assms by (auto simp: Verify.simps split: runtime.splits if_splits)
qed

text \<open>The cookie challenge re-verifies exactly for the cookie value that was bound.\<close>

lemma http_verify_OK_iff:
  "fst (http_verify env p k token r) = VerifyResultOK \<longleftrightarrow>
     (\<exists>c. Cookie (r_header r) (hp_cookie p) = Inr c \<and> token = e_sha256 env (bytes_of (c_value c) @ [0] @ k))"
  by (auto simp: http_verify_def bindAuthValue_def split: sum.splits)

end
