(* ===== verification/Request_Data.thy ===== *)
theory Request_Data
  imports Verifiers
begin

unbundle bit_operations_syntax

text \<open>
  The request data (\<open>lib/challenge/data.go\<close>) and the key of a challenge (\<open>lib/challenge/key.go\<close>): how the
  data of a request are created, how tokens are issued, sealed into the cookie, read back and
  verified, and the headers that the program adds to requests and responses.
\<close>

section \<open>Names of the query arguments (\<open>helper.go\<close>)\<close>

definition QueryArgPrefix :: string where "QueryArgPrefix = ''__goaway''"
definition QueryArgReferer :: string where "QueryArgReferer = QueryArgPrefix @ ''_referer''"
definition QueryArgRedirect :: string where "QueryArgRedirect = QueryArgPrefix @ ''_redirect''"
definition QueryArgRequestId :: string where "QueryArgRequestId = QueryArgPrefix @ ''_id''"
definition QueryArgChallenge :: string where "QueryArgChallenge = QueryArgPrefix @ ''_challenge''"
definition QueryArgToken :: string where "QueryArgToken = QueryArgPrefix @ ''_token''"
definition QueryArgBust :: string where "QueryArgBust = QueryArgPrefix @ ''_bust''"

text \<open>Deleting the arguments that the program added; the loop ranges over the map it deletes from.\<close>

definition strip_args :: "url_values \<Rightarrow> url_values" where
  "strip_args q = del_where (\<lambda>k. HasPrefix k QueryArgPrefix) q"

section \<open>Hashes\<close>

definition cookieKey :: "env \<Rightarrow> string \<Rightarrow> addr_port \<Rightarrow> bytes" where
  "cookieKey env host remote =
     e_sha256 env (bytes_of host @ [0] @ AsSlice (NetworkPrefix remote) @ [0] @ e_private_key env @ [0] @
       bytes_of ''1.0/DEFLATE'' @ [0])"

definition cookieHostKey :: "env \<Rightarrow> string \<Rightarrow> addr_port \<Rightarrow> bytes" where
  "cookieHostKey env host remote =
     take 6 (e_sha256 env (bytes_of host @ [0] @ AsSlice (NetworkPrefix remote) @ [0]))"

definition cookie_name :: "env \<Rightarrow> string \<Rightarrow> addr_port \<Rightarrow> string" where
  "cookie_name env host remote =
     DefaultCookiePrefix @ hex_encode (cookieHostKey env host remote) @ ''-state''"

text \<open>Eight bytes of an \<open>int64\<close>, least significant first.\<close>

definition le64 :: "int \<Rightarrow> bytes" where
  "le64 i = rev (be_bytes 8 (word_of_int i :: 64 word))"

definition key_material :: "env \<Rightarrow> registration \<Rightarrow> go_time \<Rightarrow> header \<Rightarrow> addr_port \<Rightarrow> bytes" where
  "key_material env reg until header remote =
     bytes_of ''challenge'' @ [0] @ bytes_of (reg_name reg) @ [0] @ As16 (NetworkPrefix remote) @ [0] @
     concat (map (\<lambda>k. bytes_of k @ [0] @ concat (map (\<lambda>v. bytes_of v @ [1]) (header_values header k)) @ [0])
       (reg_key_headers reg)) @ [0] @
     le64 (Unix until) @ [0] @ e_fingerprint env @ [0]"

definition GetChallengeKeyForRequest :: "env \<Rightarrow> registration \<Rightarrow> go_time \<Rightarrow> world \<Rightarrow> key" where
  "GetChallengeKeyForRequest env reg until w =
     (let remote = d_remote (w_data w);
          k = (e_sha256 env (key_material env reg until (r_header (w_req w)) remote))[0 := 0]
      in if Is4 (Unmap (fst remote)) then key_Set KeyFlagIsIPv4 k else k)"

section \<open>Creation\<close>

definition CreateRequestData :: "env \<Rightarrow> nat \<Rightarrow> (string \<times> string) option \<Rightarrow> http_request \<Rightarrow> request_data \<times> nat" where
  "CreateRequestData env t fingerprint r =
     (let remote = GetRequestAddress (e_parse_ip6 env) (r_remote r) (r_header r) (e_client_ip_header env);
          q = url_query (u_rawquery (r_url r))
      in (\<lparr>d_id = e_random_id env t, d_time = e_now env (t + 1), d_verify = [], d_state = [], d_map = [],
           d_modified = False, d_remote = remote, d_cookie_name = cookie_name env (r_host r) remote,
           d_issued = (if mget q QueryArgChallenge \<noteq> None then values_get q QueryArgChallenge else []),
           d_extra = [],
           d_fp = (case fingerprint of None \<Rightarrow> [] | Some (ja3n, ja4) \<Rightarrow> [(''ja3n'', ja3n), (''ja4'', ja4)]),
           d_query = strip_args q, d_opts = []\<rparr>, t + 2))"

definition ResolveName :: "world \<Rightarrow> activation" where
  "ResolveName w name =
     (if name = ''host'' then Some (CelString (r_host (w_req w)))
      else if name = ''method'' then Some (CelString (r_method (w_req w)))
      else if name = ''remoteAddress'' then Some (CelBytes (AsSlice (fst (d_remote (w_data w)))))
      else if name = ''userAgent'' then Some (CelString (header_get (r_header (w_req w)) ''User-Agent''))
      else if name = ''path'' then Some (CelString (u_path (r_url (w_req w))))
      else if name = ''query'' then Some (CelValues (d_query (w_data w)))
      else if name = ''headers'' then Some (CelValues (r_header (w_req w)))
      else if name = ''fp'' then Some (CelStringMap (d_fp (w_data w)))
      else None)"

section \<open>Options\<close>

definition SetOpt :: "string \<Rightarrow> string \<Rightarrow> request_data \<Rightarrow> request_data" where
  "SetOpt n v d = d\<lparr>d_opts := mset_key n v (d_opts d)\<rparr>"

definition GetOpt :: "request_data \<Rightarrow> string \<Rightarrow> string \<Rightarrow> string" where
  "GetOpt d n def = mget_or def (d_opts d) n"

definition GetOptBool :: "request_data \<Rightarrow> string \<Rightarrow> bool \<Rightarrow> bool" where
  "GetOptBool d n def =
     (case mget (d_opts d) n of
        None \<Rightarrow> def
      | Some v \<Rightarrow>
          (if v \<in> {''true'', ''t'', ''1'', ''yes'', ''yep'', ''y'', ''ok''} then True
           else if v \<in> {''false'', ''f'', ''0'', ''no'', ''nope'', ''n'', ''err''} then False
           else def))"

definition RequestOptBackendHost :: string where "RequestOptBackendHost = ''backend-host''"
definition RequestOptProxyMetaTags :: string where "RequestOptProxyMetaTags = ''proxy-meta-tags''"
definition RequestOptProxySafeLinkTags :: string where "RequestOptProxySafeLinkTags = ''proxy-safe-link-tags''"

definition BackendHost :: "env \<Rightarrow> world \<Rightarrow> backend option \<times> string" where
  "BackendHost env w =
     (let host = r_host (w_req w);
          opt = GetOpt (w_data w) RequestOptBackendHost [];
          host = (if opt \<noteq> [] \<and> opt \<noteq> host then r_host (w_req w) else host)
      in (GetBackend env host, host))"

section \<open>Tokens\<close>

definition ClearChallengeToken :: "registration \<Rightarrow> world \<Rightarrow> world" where
  "ClearChallengeToken reg = set_data (\<lambda>d. d\<lparr>d_map := mdel (reg_name reg) (d_map d), d_modified := True\<rparr>)"

definition IssueChallengeToken :: "env \<Rightarrow> registration \<Rightarrow> key \<Rightarrow> bytes \<Rightarrow> go_time \<Rightarrow> bool \<Rightarrow> world \<Rightarrow> world" where
  "IssueChallengeToken env reg k result until ok w =
     (case now env w of (t, w) \<Rightarrow>
        set_data (\<lambda>d. d\<lparr>d_map := mset_key (reg_name reg)
            \<lparr>tc_key = k, tc_result = result, tc_ok = ok, tc_expiry = Unix until, tc_not_before = 0,
             tc_issued_at = Unix t\<rparr> (d_map d), d_modified := True\<rparr>) w)"

definition VerifyChallengeToken ::
    "env \<Rightarrow> registration \<Rightarrow> token_challenge \<Rightarrow> key \<Rightarrow> world \<Rightarrow>
       (VerifyResult \<times> VerifyState \<times> go_error option) \<times> world" where
  "VerifyChallengeToken env reg token expectedKey w0 =
     (case now env w0 of (t1, w1) \<Rightarrow>
      if from_unix (tc_expiry token) < t1 then ((VerifyResultFail, VerifyStateNone, Some ErrTokenExpired), w1)
      else (case now env w1 of (t2, w2) \<Rightarrow>
      if from_unix (tc_not_before token) > t2
      then ((VerifyResultFail, VerifyStateNone, Some (Err ''token not valid yet'')), w2)
      else if expectedKey \<noteq> tc_key token
      then ((VerifyResultFail, VerifyStateNone, Some ErrVerifyKeyMismatch), w2)
      else
        (let brief = (if tc_ok token then VerifyResultOK else VerifyResultNotOK, VerifyStateBrief, None) in
         case Verify env reg of
           None \<Rightarrow> (brief, w2)
         | Some verify \<Rightarrow>
             (if e_float64 env (w_ticks w2) < reg_probability reg then
                (case verify expectedKey (tc_result token) (tick w2) of ((ok, err), w3) \<Rightarrow>
                   (case err of
                      Some e \<Rightarrow> ((VerifyResultFail, VerifyStateFull, Some e), w3)
                    | None \<Rightarrow>
                        (if ok = VerifyResultNotOK then ((VerifyResultNotOK, VerifyStateFull, None), w3)
                         else if \<not> result_Ok ok
                         then ((ok, VerifyStateFull, Some ErrVerifyVerifyMismatch), w3)
                         else ((ok, VerifyStateFull, None), w3))))
              else (brief, tick w2)))))"

definition eval_condition :: "env \<Rightarrow> cel_program \<Rightarrow> world \<Rightarrow> go_error + cel_value option" where
  "eval_condition env prog w = e_eval env prog (ResolveName w)"

definition verifyChallenge ::
    "env \<Rightarrow> registration \<Rightarrow> key \<Rightarrow> world \<Rightarrow> (VerifyResult \<times> VerifyState \<times> go_error option) \<times> world" where
  "verifyChallenge env reg k w =
     (let finish = (\<lambda>r s e w.
            ((if \<not> result_Ok r \<and> d_issued (w_data w) = reg_name reg then VerifyResultSkip else r, s, e), w))
      in case mget (d_map (w_data w)) (reg_name reg) of
           None \<Rightarrow> finish VerifyResultFail VerifyStateNone None w
         | Some token \<Rightarrow>
             (case VerifyChallengeToken env reg token k w of ((r, s, err), w1) \<Rightarrow>
               (let w2 = (case err of
                       None \<Rightarrow> w1
                     | Some e \<Rightarrow>
                         if \<not> errors_is e ErrNoCookie \<and> \<not> errors_is e ErrVerifyKeyMismatch
                         then ClearChallengeToken reg w1 else w1)
                in case (if \<not> result_Ok r then reg_condition reg else None) of
                     None \<Rightarrow> finish r s err w2
                   | Some prog \<Rightarrow>
                       (case eval_condition env prog w2 of
                          Inr (Some (CelBool False)) \<Rightarrow> ((VerifyResultSkip, s, None), w2)
                        | _ \<Rightarrow> finish r s err w2))))"

section \<open>The cookie\<close>

definition verifyChallengeStateCookie :: "env \<Rightarrow> cookie \<Rightarrow> world \<Rightarrow> (go_error + token_map) \<times> world" where
  "verifyChallengeStateCookie env argument w =
     (case Cookie (r_header (w_req w)) (d_cookie_name (w_data w)) of
        Inl e \<Rightarrow> (Inl e, w)
      | Inr c \<Rightarrow>
          (case e_open env (cookieKey env (r_host (w_req w)) (d_remote (w_data w))) (e_public_key env) (c_value c) of
             Inl e \<Rightarrow> (Inl e, w)
           | Inr i \<Rightarrow>
               (case now env w of (t1, w1) \<Rightarrow>
                if from_unix (t_expiry i) < t1 then (Inl ErrTokenExpired, w1)
                else (case now env w1 of (t2, w2) \<Rightarrow>
                if from_unix (t_not_before i) > t2 then (Inl (Err ''token not valid yet''), w2)
                else (Inr (t_state i), w2)))))"

fun try_cookies :: "env \<Rightarrow> cookie list \<Rightarrow> go_error \<Rightarrow> world \<Rightarrow> (go_error + token_map) \<times> world" where
  "try_cookies env [] err w = (Inl err, w)"
| "try_cookies env (c # cs) err w =
     (case verifyChallengeStateCookie env c w of
        (Inr state, w') \<Rightarrow> (Inr state, w')
      | (Inl e, w') \<Rightarrow> try_cookies env cs e w')"

definition verifyChallengeState :: "env \<Rightarrow> world \<Rightarrow> (go_error + token_map) \<times> world" where
  "verifyChallengeState env w =
     try_cookies env (CookiesNamed (r_header (w_req w)) (d_cookie_name (w_data w))) ErrNoCookie w"

text \<open>\<open>AddDate(0, 0, -1)\<close> in UTC is 24 hours earlier.\<close>

definition issueChallengeState :: "env \<Rightarrow> go_time \<Rightarrow> world \<Rightarrow> (go_error + string) \<times> world" where
  "issueChallengeState env until w =
     (case now env w of (t1, w1) \<Rightarrow> case now env w1 of (t2, w2) \<Rightarrow>
        (e_seal env (e_private_key env) (cookieKey env (r_host (w_req w)) (d_remote (w_data w))) (w_ticks w2)
           \<lparr>t_state = d_map (w_data w), t_expiry = Unix until, t_not_before = Unix (t1 - 24 * hour),
            t_issued_at = Unix t2\<rparr>, tick w2))"

section \<open>Evaluation of all challenges\<close>

definition evaluate_one :: "env \<Rightarrow> registration \<Rightarrow> world \<Rightarrow> world" where
  "evaluate_one env reg w =
     (let k = GetChallengeKeyForRequest env reg (Expiration (d_time (w_data w)) (reg_duration reg)) w in
      case verifyChallenge env reg k w of ((r, s, err), w1) \<Rightarrow>
        (let w2 = (if err \<noteq> None then ClearChallengeToken reg w1 else w1) in
         set_data (\<lambda>d. d\<lparr>d_verify := mset_key (reg_id reg) r (d_verify d),
           d_state := mset_key (reg_id reg) s (d_state d)\<rparr>) w2))"

definition load_state :: "env \<Rightarrow> world \<Rightarrow> world" where
  "load_state env w =
     (case verifyChallengeState env w of
        (Inr m, w1) \<Rightarrow> set_data (\<lambda>d. d\<lparr>d_map := m\<rparr>) w1
      | (Inl e, w1) \<Rightarrow>
          set_data (\<lambda>d. d\<lparr>d_map := [], d_modified := (if errors_is e ErrNoCookie then d_modified d else True)\<rparr>) w1)"

fun evaluate_all :: "env \<Rightarrow> (int \<times> registration) list \<Rightarrow> world \<Rightarrow> world" where
  "evaluate_all env [] w = w"
| "evaluate_all env ((_, reg) # regs) w = evaluate_all env regs (evaluate_one env reg w)"

definition EvaluateChallenges :: "env \<Rightarrow> world \<Rightarrow> world" where
  "EvaluateChallenges env w = evaluate_all env (e_challenges env) (load_state env w)"

definition HasValidChallenge :: "request_data \<Rightarrow> int \<Rightarrow> bool" where
  "HasValidChallenge d i = result_Ok (mget_or VerifyResultNone (d_verify d) i)"

section \<open>Headers\<close>

definition ResponseHeaders :: "env \<Rightarrow> world \<Rightarrow> world" where
  "ResponseHeaders env w =
     (let w1 = set_header ''Vary'' ''Cookie, Accept, Accept-Encoding, Accept-Language, User-Agent'' w;
          w2 = (if e_main_name env \<noteq> [] then
                  w1\<lparr>w_header := header_add (w_header w1) ''Via''
                    (r_proto (w_req w1) @ '' '' @ e_main_name env @ ''@'' @ e_main_version env)\<rparr>
                else w1)
      in if d_modified (w_data w2) then
           (let expiration = Expiration (d_time (w_data w2)) DefaultDuration in
            case issueChallengeState env expiration w2 of
              (Inr token, w3) \<Rightarrow>
                w3\<lparr>w_cookies := w_cookies w3 @
                  [SetCookie (e_parse_ip6 env) (d_cookie_name (w_data w3)) token expiration (r_host (w_req w3))]\<rparr>
            | (Inl e, w3) \<Rightarrow> w3)
         else w2)"

fun result_headers ::
    "env \<Rightarrow> (int, VerifyState) gomap \<Rightarrow> (int, VerifyResult) gomap \<Rightarrow> header \<Rightarrow> go_error + header" where
  "result_headers env states [] h = Inr h"
| "result_headers env states ((i, r) # rs) h =
     (if result_Ok r then
        (case GetChallenge env i of
           None \<Rightarrow> Inl (Err ''challenge not found'')
         | Some c \<Rightarrow>
             (let h1 = header_set h (''X-Away-Challenge-'' @ reg_name c @ ''-Result'') (result_String r) in
              case state_String (mget_or VerifyStateNone states i) of
                Inl e \<Rightarrow> Inl e
              | Inr s \<Rightarrow>
                  result_headers env states rs (header_set h1 (''X-Away-Challenge-'' @ reg_name c @ ''-State'') s)))
      else result_headers env states rs h)"

text \<open>\<open>RequestHeaders\<close> fills a header in; the left result is a panic.\<close>

definition RequestHeaders :: "env \<Rightarrow> request_data \<Rightarrow> header \<Rightarrow> go_error + header" where
  "RequestHeaders env d headers =
     (let h1 = header_set headers ''X-Away-Id'' (hex_encode (d_id d));
          h2 = (if e_backend_ip_header env \<noteq> [] then
                  header_set (if e_client_ip_header env \<noteq> [] then header_del h1 (e_client_ip_header env) else h1)
                    (e_backend_ip_header env) (addr_string (e_print_ip6 env) (Unmap (fst (d_remote d))))
                else h1)
      in case result_headers env (d_state d) (d_verify d) h2 of
           Inl e \<Rightarrow> Inl e
         | Inr h3 \<Rightarrow>
             (let h4 = (case mget (d_fp d) ''ja4'' of None \<Rightarrow> h3 | Some v \<Rightarrow> header_set h3 ''X-TLS-Fingerprint-JA4'' v);
                  h5 = (case mget (d_fp d) ''ja3n'' of None \<Rightarrow> h4 | Some v \<Rightarrow> header_set h4 ''X-TLS-Fingerprint-JA3N'' v)
              in Inr (fold (\<lambda>(k, v). mset_key k v) (d_extra d) h5)))"

end
