(* ===== verification/Sample.thy ===== *)
theory Sample
  imports Register
begin

text \<open>
  A small concrete environment: one challenge of the cookie runtime, a clock that stands still in
  1970, a hash with a fixed value, and a token library that seals a single token. The witnesses of the
  theorems about requests are evaluated in it.
\<close>

definition sample_epoch :: go_time where "sample_epoch = from_unix 0"

definition sample_reg :: registration where
  "sample_reg = \<lparr>reg_id = 1, reg_name = ''c'', reg_class = ClassBlocking, reg_condition = None, reg_path = ''/c'',
     reg_duration = hour, reg_runtime = RCookie, reg_probability = 0, reg_key_headers = DefaultKeyHeaders\<rparr>"

definition sample_hash :: string where "sample_hash = hex_encode (replicate 10 7)"

definition sample_key :: key where "sample_key = 0 # replicate 31 7"

definition sample_token :: token where
  "sample_token = \<lparr>t_state = [(''c'', \<lparr>tc_key = sample_key, tc_result = [], tc_ok = True,
       tc_expiry = Unix (Expiration sample_epoch hour), tc_not_before = 0, tc_issued_at = 0\<rparr>)],
     t_expiry = Unix (Expiration sample_epoch DefaultDuration), t_not_before = - 86400, t_issued_at = 0\<rparr>"

definition sample_env :: env where
  "sample_env = \<lparr>e_sha256 = (\<lambda>_. replicate 32 7), e_now = (\<lambda>_. sample_epoch), e_float64 = (\<lambda>_. 1 / 2),
     e_random_id = (\<lambda>_. replicate 16 1), e_parse_ip6 = (\<lambda>_. None), e_print_ip6 = (\<lambda>_. []),
     e_authority = (\<lambda>h. Inr (None, h)), e_eval = (\<lambda>_ _. Inr (Some (CelBool True))),
     e_seal = (\<lambda>_ _ _ t. if t = sample_token then Inr ''sealed'' else Inl (Err ''seal'')),
     e_open = (\<lambda>_ _ s. if s = ''sealed'' then Inr sample_token else Inl (Err ''open'')),
     e_do = (\<lambda>_ _. Inr 200), e_lookup_ip = (\<lambda>_ _. Inr []), e_await = (\<lambda>_ _. VerifyResultNone),
     e_fetch = (\<lambda>_ _ _. \<lparr>pg_code = 404, pg_header = [], pg_document = Inl (Err ''document'')\<rparr>),
     e_media_type = (\<lambda>s. s), e_render = (\<lambda>_ _. Inr []),
     e_wasm_verify = (\<lambda>_ _ _ _. Inr OutputOK), e_wasm_make = (\<lambda>_ _ _ _. Inl (Err ''wasm'')),
     e_private_key = [1], e_public_key = [2], e_fingerprint = replicate 32 7, e_url_path = ''/away'',
     e_main_name = [], e_main_version = [], e_client_ip_header = [], e_backend_ip_header = [],
     e_response_code = 418, e_backends = [(''*'', ''backend'')], e_challenges = [(1, sample_reg)],
     e_template = ''anubis'', e_overrides = [], e_links = [], e_strings = [], e_cache_bust = ''x''\<rparr>"

definition sample_request :: http_request where
  "sample_request = \<lparr>r_method = ''GET'', r_host = ''h'', r_url = empty_url\<lparr>u_path := ''/''\<rparr>, r_header = [],
     r_remote = ''192.0.2.7:80'', r_tls = False, r_proto = ''HTTP/1.1'', r_proto_major = 1, r_body = []\<rparr>"

definition sample_data :: request_data where
  "sample_data = \<lparr>d_id = replicate 16 1, d_time = sample_epoch, d_verify = [], d_state = [], d_map = [], d_modified = False,
     d_remote = (AddrNone, 0), d_cookie_name = ''n'', d_issued = [], d_extra = [], d_fp = [], d_query = [], d_opts = []\<rparr>"

definition sample_world :: world where
  "sample_world = \<lparr>w_req = sample_request, w_data = sample_data, w_header = [], w_cookies = [], w_events = [],
     w_metrics = [], w_ticks = 0, w_tags = [], w_dnsbl = [], w_hijacker = False, w_pusher = False\<rparr>"

text \<open>The next request of the same client, which sends the sealed cookie back.\<close>

definition sample_next :: world where
  "sample_next = sample_world\<lparr>w_req := sample_request\<lparr>r_header := [(''Cookie'', [''n=sealed''])]\<rparr>, w_ticks := 9\<rparr>"

lemmas sample_defs = sample_env_def sample_request_def sample_data_def sample_world_def sample_next_def sample_reg_def

lemma sample_clock [simp]: "clock_ok sample_env"
  by (simp add: clock_ok_def sample_env_def mono_def)

lemma sample_simps [simp]:
  "e_now sample_env t = sample_epoch" "e_sha256 sample_env b = replicate 32 7"
  "e_challenges sample_env = [(1, sample_reg)]" "e_open sample_env k q ''sealed'' = Inr sample_token"
  "d_time (w_data sample_world) = sample_epoch" "d_time (w_data sample_next) = sample_epoch"
  "d_verify (w_data sample_world) = []" "d_verify (w_data sample_next) = []"
  "reg_duration sample_reg = hour" "reg_id sample_reg = 1" "reg_name sample_reg = ''c''" "reg_runtime sample_reg = RCookie"
  by (simp_all add: sample_defs)

lemma sample_register [simp]: "register_inv 1 [(1, sample_reg)]"
  by (auto simp: register_inv_def wf_map_def mkeys_def mget_Cons split: if_splits)

lemma sample_cookie: "Cookie [(''Cookie'', [''n=sealed''])] ''n'' = Inr \<lparr>c_name = ''n'', c_value = ''sealed'', c_quoted = False\<rparr>"
proof -
  define c where "c = \<lparr>c_name = ''n'', c_value = ''sealed'', c_quoted = False\<rparr>"
  have g: "good_cookie c"
    by (simp add: c_def good_cookie_def isToken_def valid_key_def valid_tchar tchar_code_def validCookieValueByte_def)
  have "cookie_text [c] = ''n=sealed''"
    using cookie_pair_good [OF g] by (simp add: cookie_text_def c_def pair_value_def)
  then have "read_line ''n=sealed'' = [forwarded c]" using read_line_text [of "[c]"] g by simp
  moreover have "forwarded c = c" by (simp add: forwarded_def c_def)
  ultimately show ?thesis by (simp add: Cookie_def CookiesNamed_def readCookies_def mget_or_def mget_Cons c_def)
qed

end
