(* ===== verification/Request_Laws.thy ===== *)
theory Request_Laws
  imports Request_Data Sample
begin

text \<open>
  What the operations of the request data guarantee: verified results come from valid tokens, tokens
  survive the trip through the cookie, and the headers for the backend can always be written.
\<close>

section \<open>Frames\<close>

definition only_ticks :: "world \<Rightarrow> world \<Rightarrow> bool" where
  "only_ticks w w' \<longleftrightarrow> (\<exists>n \<ge> w_ticks w. w' = w\<lparr>w_ticks := n\<rparr>)"

lemma only_ticks_refl [simp, intro]: "only_ticks w w"
  unfolding only_ticks_def by (intro exI [of _ "w_ticks w"]) simp

lemma only_ticks_tick [simp, intro]: "only_ticks w (tick w)"
  unfolding only_ticks_def tick_def by (intro exI [of _ "Suc (w_ticks w)"]) simp

lemma only_ticks_trans: "only_ticks a b \<Longrightarrow> only_ticks b c \<Longrightarrow> only_ticks a c"
proof -
  assume "only_ticks a b" "only_ticks b c"
  then obtain m n where "w_ticks a \<le> m" "b = a\<lparr>w_ticks := m\<rparr>" "m \<le> n" "c = b\<lparr>w_ticks := n\<rparr>"
    unfolding only_ticks_def by auto
  then show ?thesis unfolding only_ticks_def by (intro exI [of _ n]) simp
qed

lemma only_ticks_tick': "only_ticks a b \<Longrightarrow> only_ticks a (tick b)"
  using only_ticks_trans only_ticks_tick by blast

lemma only_ticksD:
  assumes "only_ticks w w'"
  shows "w_req w' = w_req w" "w_data w' = w_data w" "w_header w' = w_header w" "w_cookies w' = w_cookies w"
    "w_events w' = w_events w" "w_metrics w' = w_metrics w" "w_ticks w \<le> w_ticks w'"
    "w_tags w' = w_tags w" "w_dnsbl w' = w_dnsbl w"
  using assms unfolding only_ticks_def by auto

lemma Verify_only_ticks:
  "Verify env reg = Some v \<Longrightarrow> v k token w = (r, w') \<Longrightarrow> only_ticks w w'"
  using Verify_world by blast

section \<open>A single token\<close>

text \<open>What makes a token valid for a key at some later reading of the clock.\<close>

definition token_backed :: "env \<Rightarrow> registration \<Rightarrow> token_challenge \<Rightarrow> key \<Rightarrow> nat \<Rightarrow> VerifyState \<Rightarrow> bool" where
  "token_backed env reg token k t s \<longleftrightarrow>
     tc_key token = k \<and> (\<exists>n \<ge> t. e_now env n \<le> from_unix (tc_expiry token)) \<and>
     (s = VerifyStateBrief \<and> tc_ok token \<or>
      s = VerifyStateFull \<and> (\<exists>v x. Verify env reg = Some v \<and> fst (v k (tc_result token) x) = (VerifyResultOK, None)))"

lemma VerifyChallengeToken_frame:
  assumes "VerifyChallengeToken env reg token k w = (res, w')"
  shows "only_ticks w w'"
proof -
  have tt: "only_ticks w (tick w)" "only_ticks w (tick (tick w))" "only_ticks w (tick (tick (tick w)))"
    by (blast intro: only_ticks_tick')+
  show ?thesis
  proof (cases "Verify env reg")
    case None
    with assms tt show ?thesis
      unfolding VerifyChallengeToken_def now_def by (auto split: if_splits)
  next
    case (Some v)
    obtain ok err w3 where v: "v k (tc_result token) (tick (tick (tick w))) = ((ok, err), w3)"
      by (metis prod.collapse)
    with Some Verify_only_ticks have "only_ticks (tick (tick (tick w))) w3" by blast
    with tt only_ticks_trans have "only_ticks w w3" by blast
    with assms tt Some v show ?thesis
      unfolding VerifyChallengeToken_def now_def by (auto simp: Let_def split: if_splits option.splits)
  qed
qed

lemma VerifyChallengeToken_OK:
  assumes "VerifyChallengeToken env reg token k w = ((r, s, e), w')" "r = VerifyResultOK"
  shows "e = None \<and> token_backed env reg token k (w_ticks w) s"
proof (cases "Verify env reg")
  case None
  with assms show ?thesis
    unfolding VerifyChallengeToken_def now_def token_backed_def
    by (auto simp: not_less split: if_splits)
next
  case (Some v)
  obtain ok err w3 where v: "v k (tc_result token) (tick (tick (tick w))) = ((ok, err), w3)"
    by (metis prod.collapse)
  then have "\<exists>x. fst (v k (tc_result token) x) = (ok, err)" by (metis fst_conv)
  with Some v assms show ?thesis
    unfolding VerifyChallengeToken_def now_def token_backed_def
    by (auto simp: Let_def not_less split: if_splits option.splits)
qed

text \<open>
  A token that was issued under a key verifies under it until it expires, when a spot check, if one
  is made, accepts its result.
\<close>

definition settled :: "env \<Rightarrow> registration \<Rightarrow> key \<Rightarrow> bytes \<Rightarrow> bool" where
  "settled env reg k result \<longleftrightarrow>
     (\<forall>v. Verify env reg = Some v \<longrightarrow>
        (\<forall>n. reg_probability reg \<le> e_float64 env n) \<or> (\<forall>w. fst (v k result w) = (VerifyResultOK, None)))"

lemma VerifyChallengeToken_fresh:
  assumes "tc_key token = k" "e_now env (w_ticks w) \<le> from_unix (tc_expiry token)"
    and "from_unix (tc_not_before token) \<le> e_now env (Suc (w_ticks w))"
    and "settled env reg k (tc_result token)" "tc_ok token"
  shows "\<exists>s w'. VerifyChallengeToken env reg token k w = ((VerifyResultOK, s, None), w')"
proof (cases "Verify env reg")
  case None
  with assms show ?thesis unfolding VerifyChallengeToken_def now_def by (auto simp: not_less)
next
  case (Some v)
  obtain ok err w3 where v: "v k (tc_result token) (tick (tick (tick w))) = ((ok, err), w3)"
    by (metis prod.collapse)
  from assms(4) Some have "\<not> e_float64 env (Suc (Suc (w_ticks w))) < reg_probability reg \<or> ok = VerifyResultOK \<and> err = None"
    unfolding settled_def using v by (metis fst_conv prod.inject not_less)
  with assms Some v show ?thesis
    unfolding VerifyChallengeToken_def now_def by (auto simp: not_less Let_def)
qed

lemma VerifyChallengeToken_wrong_key:
  "tc_key token \<noteq> k \<Longrightarrow> fst (fst (VerifyChallengeToken env reg token k w)) = VerifyResultFail"
  unfolding VerifyChallengeToken_def now_def by (auto simp: Let_def)

lemma VerifyChallengeToken_expired:
  "from_unix (tc_expiry token) < e_now env (w_ticks w) \<Longrightarrow>
     VerifyChallengeToken env reg token k w = ((VerifyResultFail, VerifyStateNone, Some ErrTokenExpired), tick w)"
  unfolding VerifyChallengeToken_def now_def by simp

section \<open>One challenge\<close>

definition shrinks :: "string \<Rightarrow> world \<Rightarrow> world \<Rightarrow> bool" where
  "shrinks name w w' \<longleftrightarrow> w_req w' = w_req w \<and> w_ticks w \<le> w_ticks w' \<and>
     (\<exists>m b. w_data w' = (w_data w)\<lparr>d_map := m, d_modified := b\<rparr> \<and>
        (\<forall>n. mget m n = mget (d_map (w_data w)) n \<or> n = name \<and> mget m n = None))"

lemma only_ticks_shrinks: "only_ticks w w' \<Longrightarrow> shrinks name w w'"
  unfolding shrinks_def using only_ticksD [of w w']
  by (auto intro!: exI [of _ "d_map (w_data w)"] exI [of _ "d_modified (w_data w)"])

lemma Clear_shrinks: "shrinks (reg_name reg) w w1 \<Longrightarrow> shrinks (reg_name reg) w (ClearChallengeToken reg w1)"
proof -
  assume "shrinks (reg_name reg) w w1"
  then obtain m b where d: "w_data w1 = (w_data w)\<lparr>d_map := m, d_modified := b\<rparr>" "w_req w1 = w_req w"
      "w_ticks w \<le> w_ticks w1" and m: "\<And>n. mget m n = mget (d_map (w_data w)) n \<or> n = reg_name reg \<and> mget m n = None"
    unfolding shrinks_def by auto
  have "mget (mdel (reg_name reg) m) n = mget (d_map (w_data w)) n \<or> n = reg_name reg \<and> mget (mdel (reg_name reg) m) n = None" for n
    using m [of n] by auto
  with d show ?thesis unfolding shrinks_def ClearChallengeToken_def
    by (intro conjI exI [of _ "mdel (reg_name reg) m"] exI [of _ True]) simp_all
qed

lemma verifyChallenge_shrinks:
  assumes "verifyChallenge env reg k w = (res, w')"
  shows "shrinks (reg_name reg) w w'"
proof (cases "mget (d_map (w_data w)) (reg_name reg)")
  case None
  with assms show ?thesis by (auto simp: verifyChallenge_def intro: only_ticks_shrinks)
next
  case (Some token)
  obtain r s err w1 where v: "VerifyChallengeToken env reg token k w = ((r, s, err), w1)"
    by (metis prod.collapse)
  have 1: "shrinks (reg_name reg) w w1" using v by (intro only_ticks_shrinks VerifyChallengeToken_frame)
  then have 2: "shrinks (reg_name reg) w (ClearChallengeToken reg w1)" by (rule Clear_shrinks)
  show ?thesis
    using assms Some v 1 2 unfolding verifyChallenge_def Let_def
    by (auto split: option.splits if_splits sum.splits cel_value.splits bool.splits)
qed

lemma verifyChallenge_OK:
  assumes "verifyChallenge env reg k w = ((r, s, e), w')" "r = VerifyResultOK"
  shows "e = None \<and> only_ticks w w' \<and>
    (\<exists>token. mget (d_map (w_data w)) (reg_name reg) = Some token \<and> token_backed env reg token k (w_ticks w) s)"
proof (cases "mget (d_map (w_data w)) (reg_name reg)")
  case None
  with assms show ?thesis by (auto simp: verifyChallenge_def split: if_splits)
next
  case (Some token)
  obtain r1 s1 err w1 where v: "VerifyChallengeToken env reg token k w = ((r1, s1, err), w1)"
    by (metis prod.collapse)
  have r1: "r1 = VerifyResultOK"
    using assms Some v unfolding verifyChallenge_def Let_def
    by (auto split: option.splits if_splits sum.splits cel_value.splits bool.splits)
  have tb: "err = None" "token_backed env reg token k (w_ticks w) s1"
    using VerifyChallengeToken_OK [OF v r1] by blast+
  have "s = s1 \<and> e = err \<and> w' = w1"
    using assms Some v r1 tb(1) unfolding verifyChallenge_def Let_def by (auto split: if_splits)
  with tb Some VerifyChallengeToken_frame [OF v] show ?thesis by auto
qed

lemma verifyChallenge_pass:
  assumes "mget (d_map (w_data w)) (reg_name reg) = Some token"
    and "VerifyChallengeToken env reg token k w = ((VerifyResultOK, s, None), w1)"
  shows "verifyChallenge env reg k w = ((VerifyResultOK, s, None), w1)"
  using assms unfolding verifyChallenge_def by simp

section \<open>All challenges\<close>

text \<open>What the data must look like while the loop runs, relative to the data it started with.\<close>

definition backed :: "env \<Rightarrow> world \<Rightarrow> int \<Rightarrow> VerifyState \<Rightarrow> bool" where
  "backed env w i s \<longleftrightarrow> (\<exists>reg token. reg \<in> snd ` set (e_challenges env) \<and> reg_id reg = i \<and>
     mget (d_map (w_data w)) (reg_name reg) = Some token \<and>
     token_backed env reg token
       (GetChallengeKeyForRequest env reg (Expiration (d_time (w_data w)) (reg_duration reg)) w) (w_ticks w) s)"

definition eval_inv :: "env \<Rightarrow> world \<Rightarrow> world \<Rightarrow> bool" where
  "eval_inv env w0 w \<longleftrightarrow> w_req w = w_req w0 \<and> w_ticks w0 \<le> w_ticks w \<and>
     d_remote (w_data w) = d_remote (w_data w0) \<and> d_time (w_data w) = d_time (w_data w0) \<and>
     (\<forall>n t. mget (d_map (w_data w)) n = Some t \<longrightarrow> mget (d_map (w_data w0)) n = Some t) \<and>
     (\<forall>i. mget (d_verify (w_data w)) i = Some VerifyResultOK \<longrightarrow>
        (\<exists>s. mget (d_state (w_data w)) i = Some s \<and> backed env w0 i s))"

lemma key_frame:
  "w_req w = w_req w0 \<Longrightarrow> d_remote (w_data w) = d_remote (w_data w0) \<Longrightarrow>
     GetChallengeKeyForRequest env reg until w = GetChallengeKeyForRequest env reg until w0"
  by (simp add: GetChallengeKeyForRequest_def)

lemma token_backed_mono: "token_backed env reg token k n s \<Longrightarrow> m \<le> n \<Longrightarrow> token_backed env reg token k m s"
  unfolding token_backed_def using order_trans by blast

lemma evaluate_one_inv:
  assumes inv: "eval_inv env w0 w" and reg: "reg \<in> snd ` set (e_challenges env)"
  shows "eval_inv env w0 (evaluate_one env reg w)"
proof -
  define k where "k = GetChallengeKeyForRequest env reg (Expiration (d_time (w_data w)) (reg_duration reg)) w"
  obtain r s err w1 where v: "verifyChallenge env reg k w = ((r, s, err), w1)" by (metis prod.collapse)
  define w2 where "w2 = (if err \<noteq> None then ClearChallengeToken reg w1 else w1)"
  have e: "evaluate_one env reg w = set_data (\<lambda>d. d\<lparr>d_verify := mset_key (reg_id reg) r (d_verify d),
      d_state := mset_key (reg_id reg) s (d_state d)\<rparr>) w2"
    unfolding evaluate_one_def k_def [symmetric] Let_def v w2_def by simp
  have sh: "shrinks (reg_name reg) w w2"
    using verifyChallenge_shrinks [OF v] Clear_shrinks by (auto simp: w2_def)
  then obtain m b where d: "w_data w2 = (w_data w)\<lparr>d_map := m, d_modified := b\<rparr>" and
      m': "\<And>n. mget m n = mget (d_map (w_data w)) n \<or> n = reg_name reg \<and> mget m n = None" and
      q: "w_req w2 = w_req w" "w_ticks w \<le> w_ticks w2"
    unfolding shrinks_def by auto
  have m: "mget (d_map (w_data w)) n = Some t" if "mget m n = Some t" for n t
    using m' [of n] that by auto
  have i: "w_req w = w_req w0" "w_ticks w0 \<le> w_ticks w" "d_remote (w_data w) = d_remote (w_data w0)"
      "d_time (w_data w) = d_time (w_data w0)"
      "\<And>n t. mget (d_map (w_data w)) n = Some t \<Longrightarrow> mget (d_map (w_data w0)) n = Some t"
      "\<And>j. mget (d_verify (w_data w)) j = Some VerifyResultOK \<Longrightarrow>
        \<exists>s. mget (d_state (w_data w)) j = Some s \<and> backed env w0 j s"
    using inv unfolding eval_inv_def by auto
  have new: "backed env w0 (reg_id reg) s" if ok: "r = VerifyResultOK"
  proof -
    obtain token where t: "mget (d_map (w_data w)) (reg_name reg) = Some token"
        "token_backed env reg token k (w_ticks w) s"
      using verifyChallenge_OK [OF v] ok by blast
    have "k = GetChallengeKeyForRequest env reg (Expiration (d_time (w_data w0)) (reg_duration reg)) w0"
      unfolding k_def i(4) by (rule key_frame [OF i(1,3)])
    with token_backed_mono [OF t(2) i(2)] i(5) [OF t(1)] reg show ?thesis
      unfolding backed_def by (intro exI [of _ reg] exI [of _ token]) simp
  qed
  show ?thesis unfolding e eval_inv_def
  proof (intro conjI allI impI)
    fix n t
    assume "mget (d_map (w_data (set_data (\<lambda>d. d\<lparr>d_verify := mset_key (reg_id reg) r (d_verify d),
      d_state := mset_key (reg_id reg) s (d_state d)\<rparr>) w2))) n = Some t"
    then have "mget m n = Some t" by (simp add: d)
    then show "mget (d_map (w_data w0)) n = Some t" using m i(5) by blast
  next
    fix j
    assume "mget (d_verify (w_data (set_data (\<lambda>d. d\<lparr>d_verify := mset_key (reg_id reg) r (d_verify d),
      d_state := mset_key (reg_id reg) s (d_state d)\<rparr>) w2))) j = Some VerifyResultOK"
    then have j: "if j = reg_id reg then r = VerifyResultOK else mget (d_verify (w_data w)) j = Some VerifyResultOK"
      by (simp add: d split: if_split_asm)
    show "\<exists>s'. mget (d_state (w_data (set_data (\<lambda>d. d\<lparr>d_verify := mset_key (reg_id reg) r (d_verify d),
      d_state := mset_key (reg_id reg) s (d_state d)\<rparr>) w2))) j = Some s' \<and> backed env w0 j s'"
      using j new i(6) [of j] by (cases "j = reg_id reg") (simp_all add: d)
  qed (use i q in \<open>simp_all add: d\<close>)
qed

lemma evaluate_all_append: "evaluate_all env (xs @ ys) w = evaluate_all env ys (evaluate_all env xs w)"
  by (induction env xs w rule: evaluate_all.induct) auto

lemma evaluate_all_inv:
  "eval_inv env w0 w \<Longrightarrow> set rs \<subseteq> set (e_challenges env) \<Longrightarrow>
     eval_inv env w0 (evaluate_all env rs w)"
proof (induction rs arbitrary: w)
  case (Cons a rs)
  obtain i reg where a: "a = (i, reg)" by (cases a)
  with Cons.prems have "reg \<in> snd ` set (e_challenges env)" by force
  with Cons a show ?case by (auto intro: evaluate_one_inv)
qed simp

lemma stateCookie_frame: "verifyChallengeStateCookie env c w = (res, w') \<Longrightarrow> only_ticks w w'"
  unfolding verifyChallengeStateCookie_def now_def
  by (auto split: sum.splits if_splits intro: only_ticks_tick')

lemma try_cookies_frame: "try_cookies env cs err w = (res, w') \<Longrightarrow> only_ticks w w'"
proof (induction env cs err w rule: try_cookies.induct)
  case (2 env c cs err w)
  obtain r w1 where v: "verifyChallengeStateCookie env c w = (r, w1)" by (cases "verifyChallengeStateCookie env c w")
  have 1: "only_ticks w w1" by (rule stateCookie_frame [OF v])
  show ?case
  proof (cases r)
    case (Inl e)
    with "2.prems" v have "try_cookies env cs e w1 = (res, w')" by simp
    with "2.IH" [OF v [symmetric] Inl] have "only_ticks w1 w'" by simp
    with 1 show ?thesis by (rule only_ticks_trans)
  next
    case (Inr m)
    with "2.prems" v 1 show ?thesis by simp
  qed
qed simp

lemma state_frame: "verifyChallengeState env w = (res, w') \<Longrightarrow> only_ticks w w'"
  unfolding verifyChallengeState_def by (rule try_cookies_frame)

text \<open>The state that is loaded comes from a cookie of the request that the server sealed and that has not expired.\<close>

definition sealed_state :: "env \<Rightarrow> world \<Rightarrow> token_map \<Rightarrow> bool" where
  "sealed_state env w m \<longleftrightarrow> (\<exists>c T. Cookie (r_header (w_req w)) (d_cookie_name (w_data w)) = Inr c \<and>
     e_open env (cookieKey env (r_host (w_req w)) (d_remote (w_data w))) (e_public_key env) (c_value c) = Inr T \<and>
     t_state T = m \<and> (\<exists>n \<ge> w_ticks w. e_now env n \<le> from_unix (t_expiry T)))"

lemma stateCookie_sealed:
  "verifyChallengeStateCookie env c w = (Inr m, w') \<Longrightarrow> sealed_state env w m"
  unfolding verifyChallengeStateCookie_def now_def sealed_state_def
  by (auto simp: not_less split: sum.splits if_splits)

lemma sealed_state_mono: "sealed_state env w' m \<Longrightarrow> only_ticks w w' \<Longrightarrow> sealed_state env w m"
proof -
  assume s: "sealed_state env w' m" and o: "only_ticks w w'"
  then show ?thesis unfolding sealed_state_def only_ticksD(1,2) [OF o] using only_ticksD(7) [OF o] order_trans by blast
qed

lemma try_cookies_sealed: "try_cookies env cs err w = (Inr m, w') \<Longrightarrow> sealed_state env w m"
proof (induction env cs err w rule: try_cookies.induct)
  case (2 env c cs err w)
  obtain r w1 where v: "verifyChallengeStateCookie env c w = (r, w1)" by (cases "verifyChallengeStateCookie env c w")
  show ?case
  proof (cases r)
    case (Inl e)
    with "2.prems" v have "try_cookies env cs e w1 = (Inr m, w')" by simp
    with "2.IH" [OF v [symmetric] Inl] have "sealed_state env w1 m" by simp
    then show ?thesis using stateCookie_frame [OF v] by (rule sealed_state_mono)
  next
    case (Inr m')
    with "2.prems" v show ?thesis by (auto intro: stateCookie_sealed)
  qed
qed simp

lemma load_state_cases:
  obtains m n b where "load_state env w = set_data (\<lambda>d. d\<lparr>d_map := m, d_modified := b\<rparr>) (w\<lparr>w_ticks := n\<rparr>)"
    "w_ticks w \<le> n" "m = [] \<or> sealed_state env w m"
    "fst (verifyChallengeState env w) = Inr m \<or> (\<exists>e. fst (verifyChallengeState env w) = Inl e \<and> m = [])"
proof -
  obtain r w1 where v: "verifyChallengeState env w = (r, w1)" by (cases "verifyChallengeState env w")
  obtain n where n: "w_ticks w \<le> n" "w1 = w\<lparr>w_ticks := n\<rparr>"
    using state_frame [OF v] unfolding only_ticks_def by auto
  show ?thesis
  proof (cases r)
    case (Inl e)
    then show ?thesis
      using v n by (intro that [where m = "[]" and b = "if errors_is e ErrNoCookie then d_modified (w_data w) else True" and n = n])
        (simp_all add: load_state_def set_data_def)
  next
    case (Inr m)
    then have "sealed_state env w m" using v unfolding verifyChallengeState_def by (auto intro: try_cookies_sealed)
    with Inr show ?thesis
      using v n by (intro that [where m = m and b = "d_modified (w_data w)" and n = n]) (simp_all add: load_state_def set_data_def)
  qed
qed

lemma EvaluateChallenges_inv:
  assumes "d_verify (w_data w) = []"
  shows "eval_inv env (load_state env w) (EvaluateChallenges env w)"
proof -
  have "d_verify (w_data (load_state env w)) = []" by (rule load_state_cases [of env w]) (simp add: assms)
  then have "eval_inv env (load_state env w) (load_state env w)" by (simp add: eval_inv_def)
  then show ?thesis unfolding EvaluateChallenges_def by (rule evaluate_all_inv) simp
qed

lemma EvaluateChallenges_sound:
  assumes "d_verify (w_data w) = []"
    and "mget (d_verify (w_data (EvaluateChallenges env w))) i = Some VerifyResultOK"
  shows "\<exists>reg m token s. reg \<in> snd ` set (e_challenges env) \<and> reg_id reg = i \<and> sealed_state env w m \<and>
    mget m (reg_name reg) = Some token \<and> mget (d_state (w_data (EvaluateChallenges env w))) i = Some s \<and>
    token_backed env reg token
      (GetChallengeKeyForRequest env reg (Expiration (d_time (w_data w)) (reg_duration reg)) w) (w_ticks w) s"
proof -
  from EvaluateChallenges_inv [OF assms(1), of env] assms(2) obtain s where
    s: "mget (d_state (w_data (EvaluateChallenges env w))) i = Some s" "backed env (load_state env w) i s"
    unfolding eval_inv_def by blast
  obtain m n b where l: "load_state env w = set_data (\<lambda>d. d\<lparr>d_map := m, d_modified := b\<rparr>) (w\<lparr>w_ticks := n\<rparr>)"
      "w_ticks w \<le> n" "m = [] \<or> sealed_state env w m"
    by (rule load_state_cases)
  from s(2) obtain reg token where t: "reg \<in> snd ` set (e_challenges env)" "reg_id reg = i"
      "mget m (reg_name reg) = Some token" "token_backed env reg token
        (GetChallengeKeyForRequest env reg (Expiration (d_time (w_data w)) (reg_duration reg)) (load_state env w)) n s"
    unfolding backed_def l(1) by auto
  have "GetChallengeKeyForRequest env reg (Expiration (d_time (w_data w)) (reg_duration reg)) (load_state env w) =
      GetChallengeKeyForRequest env reg (Expiration (d_time (w_data w)) (reg_duration reg)) w"
    by (rule key_frame) (simp_all add: l(1))
  with t s(1) l(2,3) token_backed_mono show ?thesis by fastforce
qed

section \<open>The loop, challenge by challenge\<close>

lemma evaluate_one_effect:
  obtains r s err w1 m b where
    "verifyChallenge env reg
       (GetChallengeKeyForRequest env reg (Expiration (d_time (w_data w)) (reg_duration reg)) w) w = ((r, s, err), w1)"
    "w_data (evaluate_one env reg w) = (w_data w)\<lparr>d_map := m, d_modified := b,
       d_verify := mset_key (reg_id reg) r (d_verify (w_data w)), d_state := mset_key (reg_id reg) s (d_state (w_data w))\<rparr>"
    "\<And>n. mget m n = mget (d_map (w_data w)) n \<or> n = reg_name reg \<and> mget m n = None"
    "w_req (evaluate_one env reg w) = w_req w" "w_ticks w \<le> w_ticks (evaluate_one env reg w)"
proof -
  define k where "k = GetChallengeKeyForRequest env reg (Expiration (d_time (w_data w)) (reg_duration reg)) w"
  obtain r s err w1 where v: "verifyChallenge env reg k w = ((r, s, err), w1)" by (metis prod.collapse)
  define w2 where "w2 = (if err \<noteq> None then ClearChallengeToken reg w1 else w1)"
  have e: "evaluate_one env reg w = set_data (\<lambda>d. d\<lparr>d_verify := mset_key (reg_id reg) r (d_verify d),
      d_state := mset_key (reg_id reg) s (d_state d)\<rparr>) w2"
    unfolding evaluate_one_def k_def [symmetric] Let_def v w2_def by simp
  have "shrinks (reg_name reg) w w2"
    using verifyChallenge_shrinks [OF v] Clear_shrinks by (auto simp: w2_def)
  then obtain m b where d: "w_data w2 = (w_data w)\<lparr>d_map := m, d_modified := b\<rparr>" and
      m: "\<And>n. mget m n = mget (d_map (w_data w)) n \<or> n = reg_name reg \<and> mget m n = None" and
      q: "w_req w2 = w_req w" "w_ticks w \<le> w_ticks w2"
    unfolding shrinks_def by auto
  show ?thesis using that [OF v [unfolded k_def] _ m] q unfolding e by (simp add: d)
qed

text \<open>After the loop the result of every challenge is recorded, and only of those.\<close>

lemma evaluate_all_dom:
  "mget (d_verify (w_data (evaluate_all env rs w))) i \<noteq> None \<longleftrightarrow>
     mget (d_verify (w_data w)) i \<noteq> None \<or> i \<in> reg_id ` snd ` set rs"
proof (induction rs arbitrary: w)
  case (Cons a rs)
  obtain j reg where a: "a = (j, reg)" by (cases a)
  have "mget (d_verify (w_data (evaluate_one env reg w))) i \<noteq> None \<longleftrightarrow>
      mget (d_verify (w_data w)) i \<noteq> None \<or> i = reg_id reg"
    by (rule evaluate_one_effect [of env reg w]) simp
  with Cons.IH [of "evaluate_one env reg w"] a show ?case by auto
qed simp

lemma evaluate_all_wf:
  "wf_map (d_verify (w_data w)) \<Longrightarrow> wf_map (d_verify (w_data (evaluate_all env rs w)))"
proof (induction rs arbitrary: w)
  case (Cons a rs)
  obtain j reg where a: "a = (j, reg)" by (cases a)
  have "wf_map (d_verify (w_data (evaluate_one env reg w)))"
    by (rule evaluate_one_effect [of env reg w]) (simp add: Cons.prems)
  with Cons.IH a show ?case by simp
qed simp

text \<open>The other challenges do not touch the token and the result of one.\<close>

lemma evaluate_all_other:
  assumes "\<forall>p \<in> set rs. reg_id (snd p) \<noteq> i \<and> reg_name (snd p) \<noteq> name"
  shows "mget (d_verify (w_data (evaluate_all env rs w))) i = mget (d_verify (w_data w)) i \<and>
    mget (d_state (w_data (evaluate_all env rs w))) i = mget (d_state (w_data w)) i \<and>
    mget (d_map (w_data (evaluate_all env rs w))) name = mget (d_map (w_data w)) name \<and>
    d_remote (w_data (evaluate_all env rs w)) = d_remote (w_data w) \<and>
    d_time (w_data (evaluate_all env rs w)) = d_time (w_data w) \<and>
    w_ticks w \<le> w_ticks (evaluate_all env rs w) \<and>
    w_req (evaluate_all env rs w) = w_req w"
  using assms
proof (induction rs arbitrary: w)
  case (Cons a rs)
  obtain j reg where a: "a = (j, reg)" by (cases a)
  have n: "reg_id reg \<noteq> i" "reg_name reg \<noteq> name" using Cons.prems a by auto
  have 1: "mget (d_verify (w_data (evaluate_one env reg w))) i = mget (d_verify (w_data w)) i \<and>
     mget (d_state (w_data (evaluate_one env reg w))) i = mget (d_state (w_data w)) i \<and>
     mget (d_map (w_data (evaluate_one env reg w))) name = mget (d_map (w_data w)) name \<and>
     d_remote (w_data (evaluate_one env reg w)) = d_remote (w_data w) \<and>
     d_time (w_data (evaluate_one env reg w)) = d_time (w_data w) \<and>
     w_ticks w \<le> w_ticks (evaluate_one env reg w) \<and> w_req (evaluate_one env reg w) = w_req w"
  proof (rule evaluate_one_effect [of env reg w])
    fix r s err w1 m b
    assume "w_data (evaluate_one env reg w) = (w_data w)\<lparr>d_map := m, d_modified := b,
         d_verify := mset_key (reg_id reg) r (d_verify (w_data w)), d_state := mset_key (reg_id reg) s (d_state (w_data w))\<rparr>"
      "\<And>n. mget m n = mget (d_map (w_data w)) n \<or> n = reg_name reg \<and> mget m n = None"
      "w_req (evaluate_one env reg w) = w_req w" "w_ticks w \<le> w_ticks (evaluate_one env reg w)"
    then show ?thesis using n by auto
  qed
  have 2: "\<forall>p \<in> set rs. reg_id (snd p) \<noteq> i \<and> reg_name (snd p) \<noteq> name" using Cons.prems by simp
  from Cons.IH [where w = "evaluate_one env reg w", OF 2] 1 a show ?case by auto
qed simp

text \<open>A challenge whose token is valid during the whole request passes, whatever the other challenges do.\<close>

lemma evaluate_one_pass:
  assumes "mget (d_map (w_data w)) (reg_name reg) = Some token"
    and "tc_key token = GetChallengeKeyForRequest env reg (Expiration (d_time (w_data w)) (reg_duration reg)) w"
    and "e_now env (w_ticks w) \<le> from_unix (tc_expiry token)"
    and "from_unix (tc_not_before token) \<le> e_now env (Suc (w_ticks w))"
    and "settled env reg (tc_key token) (tc_result token)" "tc_ok token"
  shows "mget (d_verify (w_data (evaluate_one env reg w))) (reg_id reg) = Some VerifyResultOK"
proof -
  let ?k = "GetChallengeKeyForRequest env reg (Expiration (d_time (w_data w)) (reg_duration reg)) w"
  obtain s w' where "VerifyChallengeToken env reg token ?k w = ((VerifyResultOK, s, None), w')"
    using VerifyChallengeToken_fresh [OF assms(2-4) assms(5) [unfolded assms(2)] assms(6)] by blast
  then have v: "verifyChallenge env reg ?k w = ((VerifyResultOK, s, None), w')"
    by (rule verifyChallenge_pass [OF assms(1)])
  show ?thesis by (rule evaluate_one_effect [of env reg w]) (simp add: v)
qed

lemma register_split:
  assumes "register_inv n r" "mget r i = Some reg"
  obtains as bs where "r = as @ (i, reg) # bs"
    "\<forall>p \<in> set as \<union> set bs. reg_id (snd p) \<noteq> reg_id reg \<and> reg_name (snd p) \<noteq> reg_name reg"
proof -
  have wf: "wf_map r" using assms(1) by (rule register_invD)
  then have "(i, reg) \<in> set r" using assms(2) by (simp add: mget_in_set)
  then obtain as bs where r: "r = as @ (i, reg) # bs" by (meson split_list)
  have "reg_id c \<noteq> reg_id reg \<and> reg_name c \<noteq> reg_name reg" if "(j, c) \<in> set as \<union> set bs" for j c
  proof -
    have "mget r j = Some c" using that wf by (auto simp: mget_in_set r)
    moreover have "j \<noteq> i" using that wf unfolding r wf_map_def mkeys_def by (auto simp: image_iff)
    ultimately show ?thesis using register_invD(2,5) [OF assms(1)] assms(2) by metis
  qed
  then have "\<forall>p \<in> set as \<union> set bs. reg_id (snd p) \<noteq> reg_id reg \<and> reg_name (snd p) \<noteq> reg_name reg"
    by (metis prod.collapse)
  with r that show ?thesis by blast
qed

lemma EvaluateChallenges_complete:
  assumes inv: "register_inv n (e_challenges env)" and reg: "mget (e_challenges env) i = Some reg"
    and st: "fst (verifyChallengeState env w) = Inr m" and m: "mget m (reg_name reg) = Some token"
    and key: "tc_key token = GetChallengeKeyForRequest env reg (Expiration (d_time (w_data w)) (reg_duration reg)) w"
    and clock: "clock_ok env" "e_now env (w_ticks (EvaluateChallenges env w)) \<le> from_unix (tc_expiry token)"
      "from_unix (tc_not_before token) \<le> e_now env (w_ticks w)"
    and tok: "settled env reg (tc_key token) (tc_result token)" "tc_ok token"
  shows "mget (d_verify (w_data (EvaluateChallenges env w))) i = Some VerifyResultOK"
proof -
  obtain k b where l: "load_state env w = set_data (\<lambda>d. d\<lparr>d_map := m, d_modified := b\<rparr>) (w\<lparr>w_ticks := k\<rparr>)" "w_ticks w \<le> k"
    using st by (rule_tac load_state_cases [of env w]) auto
  obtain as bs where r: "e_challenges env = as @ (i, reg) # bs" and
      o: "\<forall>p \<in> set as \<union> set bs. reg_id (snd p) \<noteq> reg_id reg \<and> reg_name (snd p) \<noteq> reg_name reg"
    by (rule register_split [OF inv reg])
  have id: "reg_id reg = i" using register_invD(2) [OF inv reg] .
  define w1 where "w1 = evaluate_all env as (load_state env w)"
  define w2 where "w2 = evaluate_one env reg w1"
  have ev: "EvaluateChallenges env w = evaluate_all env bs w2"
    by (simp add: EvaluateChallenges_def r w1_def w2_def evaluate_all_append)
  have a: "\<forall>p \<in> set as. reg_id (snd p) \<noteq> reg_id reg \<and> reg_name (snd p) \<noteq> reg_name reg"
    and b: "\<forall>p \<in> set bs. reg_id (snd p) \<noteq> reg_id reg \<and> reg_name (snd p) \<noteq> reg_name reg" using o by blast+
  note fa = evaluate_all_other [where rs = as and w = "load_state env w" and env = env, OF a, folded w1_def]
  note fb = evaluate_all_other [where rs = bs and w = w2 and env = env, OF b, folded ev]
  have 1: "mget (d_map (w_data w1)) (reg_name reg) = Some token" "d_remote (w_data w1) = d_remote (w_data w)"
      "d_time (w_data w1) = d_time (w_data w)" "w_req w1 = w_req w" "w_ticks w \<le> w_ticks w1"
    using m fa l by simp_all
  have "w_ticks w1 \<le> w_ticks w2" unfolding w2_def by (rule evaluate_one_effect [of env reg w1]) simp
  with fb have t: "w_ticks w1 \<le> w_ticks (EvaluateChallenges env w)" by simp
  have k1: "tc_key token = GetChallengeKeyForRequest env reg (Expiration (d_time (w_data w1)) (reg_duration reg)) w1"
    unfolding key 1(3) by (rule key_frame [symmetric]) (simp_all add: 1)
  have "e_now env (w_ticks w1) \<le> from_unix (tc_expiry token)"
    using clock(1,2) t unfolding clock_ok_def by (meson monoD order_trans)
  moreover have "from_unix (tc_not_before token) \<le> e_now env (Suc (w_ticks w1))"
    using clock(1,3) 1(5) unfolding clock_ok_def by (meson le_SucI monoD order_trans)
  ultimately have "mget (d_verify (w_data w2)) (reg_id reg) = Some VerifyResultOK"
    unfolding w2_def by (rule evaluate_one_pass [OF 1(1) k1 _ _ tok])
  with fb id show ?thesis by simp
qed

section \<open>A token on its way through the cookie\<close>

text \<open>
  The documented behaviour of the token library: what was signed and encrypted with the private key
  and a content key opens with the public key and the same content key.
\<close>

definition sealing :: "env \<Rightarrow> bool" where
  "sealing env \<longleftrightarrow> (\<forall>k n t s. e_seal env (e_private_key env) k n t = Inr s \<longrightarrow> e_open env k (e_public_key env) s = Inr t)"

lemma issue_then_verify:
  assumes "sealing env" "clock_ok env" and issue: "issueChallengeState env until w1 = (Inr s, w1')"
    and same: "r_host (w_req w2) = r_host (w_req w1)" "NetworkPrefix (d_remote (w_data w2)) = NetworkPrefix (d_remote (w_data w1))"
    and c: "Cookie (r_header (w_req w2)) (d_cookie_name (w_data w2)) = Inr c" "c_value c = s"
    and later: "w_ticks w1 \<le> w_ticks w2"
    and time: "e_now env (w_ticks w2) \<le> from_unix (Unix until)"
  shows "verifyChallengeState env w2 = (Inr (d_map (w_data w1)), tick (tick w2))"
proof -
  define T where "T = \<lparr>t_state = d_map (w_data w1), t_expiry = Unix until,
      t_not_before = Unix (e_now env (w_ticks w1) - 24 * hour), t_issued_at = Unix (e_now env (Suc (w_ticks w1)))\<rparr>"
  have s: "e_seal env (e_private_key env) (cookieKey env (r_host (w_req w1)) (d_remote (w_data w1))) (Suc (Suc (w_ticks w1))) T = Inr s"
    using issue by (simp add: issueChallengeState_def now_def T_def)
  have ck: "cookieKey env (r_host (w_req w2)) (d_remote (w_data w2)) = cookieKey env (r_host (w_req w1)) (d_remote (w_data w1))"
    using same by (simp add: cookieKey_def)
  have o: "e_open env (cookieKey env (r_host (w_req w2)) (d_remote (w_data w2))) (e_public_key env) (c_value c) = Inr T"
    unfolding ck c(2) using assms(1) s unfolding sealing_def by blast
  have "e_now env (w_ticks w1) - 24 * hour \<le> e_now env (w_ticks w1)" by (simp add: hour_def second_def)
  then have "from_unix (Unix (e_now env (w_ticks w1) - 24 * hour)) \<le> e_now env (w_ticks w1)"
    using from_unix_Unix(1) order_trans by blast
  also have "\<dots> \<le> e_now env (Suc (w_ticks w2))" using assms(2) later unfolding clock_ok_def by (simp add: monoD)
  finally have nb: "from_unix (t_not_before T) \<le> e_now env (Suc (w_ticks w2))" by (simp add: T_def)
  from time nb have v: "verifyChallengeStateCookie env x w2 = (Inr (t_state T), tick (tick w2))" for x
    unfolding verifyChallengeStateCookie_def c(1) by (simp add: o now_def not_less) (simp add: T_def)
  obtain y ys where "CookiesNamed (r_header (w_req w2)) (d_cookie_name (w_data w2)) = y # ys"
    using c(1) unfolding Cookie_def by (cases "CookiesNamed (r_header (w_req w2)) (d_cookie_name (w_data w2))") auto
  then show ?thesis unfolding verifyChallengeState_def by (simp add: v T_def)
qed

section \<open>The headers for the backend\<close>

text \<open>Every passed challenge is registered, and has a state with a name.\<close>

definition results_ok :: "env \<Rightarrow> request_data \<Rightarrow> bool" where
  "results_ok env d \<longleftrightarrow> wf_map (d_verify d) \<and>
     (\<forall>i. mget (d_verify d) i = Some VerifyResultOK \<longrightarrow> GetChallenge env i \<noteq> None \<and>
        mget_or VerifyStateNone (d_state d) i \<noteq> VerifyStateNone)"

lemma state_String_ok: "s \<noteq> VerifyStateNone \<Longrightarrow> \<exists>t. state_String s = Inr t"
  by (cases s) auto

lemma result_headers_ok:
  "(\<And>i. (i, VerifyResultOK) \<in> set rs \<Longrightarrow> GetChallenge env i \<noteq> None \<and> mget_or VerifyStateNone st i \<noteq> VerifyStateNone) \<Longrightarrow>
     \<exists>h'. result_headers env st rs h = Inr h'"
proof (induction env st rs h rule: result_headers.induct)
  case (2 env st i r rs h)
  show ?case
  proof (cases "r = VerifyResultOK")
    case True
    then have "GetChallenge env i \<noteq> None" "mget_or VerifyStateNone st i \<noteq> VerifyStateNone" using "2.prems" by auto
    then obtain c t where "GetChallenge env i = Some c" "state_String (mget_or VerifyStateNone st i) = Inr t"
      using state_String_ok by blast
    with True 2 show ?thesis by simp
  qed (use 2 in simp)
qed simp

lemma RequestHeaders_ok: "results_ok env d \<Longrightarrow> \<exists>h'. RequestHeaders env d h = Inr h'"
proof -
  assume "results_ok env d"
  then have "\<exists>h'. result_headers env (d_state d) (d_verify d) h2 = Inr h'" for h2
    by (intro result_headers_ok) (simp add: results_ok_def mget_in_set)
  then obtain f where "\<And>h2. result_headers env (d_state d) (d_verify d) h2 = Inr (f h2)" by metis
  then show ?thesis by (simp add: RequestHeaders_def Let_def)
qed

lemma EvaluateChallenges_results_ok:
  assumes "register_inv n (e_challenges env)" "d_verify (w_data w) = []"
  shows "results_ok env (w_data (EvaluateChallenges env w))"
  unfolding results_ok_def
proof (intro conjI allI impI)
  have "wf_map (d_verify (w_data (load_state env w)))" by (rule load_state_cases [of env w]) (simp add: assms(2))
  then show "wf_map (d_verify (w_data (EvaluateChallenges env w)))"
    unfolding EvaluateChallenges_def by (rule evaluate_all_wf)
  fix i assume "mget (d_verify (w_data (EvaluateChallenges env w))) i = Some VerifyResultOK"
  from EvaluateChallenges_sound [OF assms(2) this] obtain reg token s k where
    r: "reg \<in> snd ` set (e_challenges env)" "reg_id reg = i"
      "mget (d_state (w_data (EvaluateChallenges env w))) i = Some s" "token_backed env reg token k (w_ticks w) s"
    by blast
  from r(1) obtain j where "(j, reg) \<in> set (e_challenges env)" by auto
  then have "mget (e_challenges env) j = Some reg" using register_invD(1) [OF assms(1)] by (simp add: mget_in_set)
  with register_invD(2) [OF assms(1) this] r(2) show "GetChallenge env i \<noteq> None" by (simp add: GetChallenge_def)
  show "mget_or VerifyStateNone (d_state (w_data (EvaluateChallenges env w))) i \<noteq> VerifyStateNone"
    using r(3,4) by (auto simp: mget_or_def token_backed_def)
qed

section \<open>From one request to the next\<close>

text \<open>The key depends on the network, the chosen headers and the second of the expiration only.\<close>

lemma network_same:
  "network (fst a) = network (fst b) \<Longrightarrow> As16 (NetworkPrefix a) = As16 (NetworkPrefix b)"
  "network (fst a) = network (fst b) \<Longrightarrow> Is4 (Unmap (fst a)) = Is4 (Unmap (fst b))"
proof -
  show "network (fst a) = network (fst b) \<Longrightarrow> As16 (NetworkPrefix a) = As16 (NetworkPrefix b)"
    using As16_NetworkPrefix [of "fst a" "snd a" "fst b" "snd b"] by simp
  show "network (fst a) = network (fst b) \<Longrightarrow> Is4 (Unmap (fst a)) = Is4 (Unmap (fst b))"
    by (auto simp: network_def Is4_def split: addr.splits)
qed

lemma key_same:
  assumes "network (fst (d_remote (w_data w))) = network (fst (d_remote (w_data w')))" "Unix u = Unix u'"
    and "\<forall>k \<in> set (reg_key_headers reg). header_values (r_header (w_req w)) k = header_values (r_header (w_req w')) k"
  shows "GetChallengeKeyForRequest env reg u w = GetChallengeKeyForRequest env reg u' w'"
proof -
  have "map (\<lambda>k. bytes_of k @ [0] @ concat (map (\<lambda>v. bytes_of v @ [1]) (header_values (r_header (w_req w)) k)) @ [0]) (reg_key_headers reg) =
      map (\<lambda>k. bytes_of k @ [0] @ concat (map (\<lambda>v. bytes_of v @ [1]) (header_values (r_header (w_req w')) k)) @ [0]) (reg_key_headers reg)"
    using assms(3) by (intro map_cong) auto
  then have "key_material env reg u (r_header (w_req w)) (d_remote (w_data w)) =
      key_material env reg u' (r_header (w_req w')) (d_remote (w_data w'))"
    unfolding key_material_def network_same(1) [OF assms(1)] assms(2) by (simp only:)
  then show ?thesis unfolding GetChallengeKeyForRequest_def Let_def network_same(2) [OF assms(1)] by simp
qed

text \<open>What \<open>ResponseHeaders\<close> puts into the cookie when the tokens have changed.\<close>

lemma ResponseHeaders_cookie:
  assumes "d_modified (w_data w)" "w_cookies (ResponseHeaders env w) \<noteq> w_cookies w"
  shows "\<exists>w1 w2 s. issueChallengeState env (Expiration (d_time (w_data w)) DefaultDuration) w1 = (Inr s, w2) \<and>
    w_req w1 = w_req w \<and> w_data w1 = w_data w \<and> w_ticks w1 = w_ticks w \<and>
    w_cookies (ResponseHeaders env w) = w_cookies w @
      [SetCookie (e_parse_ip6 env) (d_cookie_name (w_data w)) s (Expiration (d_time (w_data w)) DefaultDuration) (r_host (w_req w))]"
proof -
  define w1 where "w1 = (let w1 = set_header ''Vary'' ''Cookie, Accept, Accept-Encoding, Accept-Language, User-Agent'' w
      in if e_main_name env \<noteq> [] then
           w1\<lparr>w_header := header_add (w_header w1) ''Via''
             (r_proto (w_req w1) @ '' '' @ e_main_name env @ ''@'' @ e_main_version env)\<rparr>
         else w1)"
  have f: "w_req w1 = w_req w" "w_data w1 = w_data w" "w_ticks w1 = w_ticks w" "w_cookies w1 = w_cookies w"
    by (simp_all add: w1_def Let_def)
  obtain r w2 where i: "issueChallengeState env (Expiration (d_time (w_data w)) DefaultDuration) w1 = (r, w2)"
    by (cases "issueChallengeState env (Expiration (d_time (w_data w)) DefaultDuration) w1")
  then have w2: "w2 = tick (tick (tick w1))" by (simp add: issueChallengeState_def now_def)
  have R: "ResponseHeaders env w = (case r of Inr token \<Rightarrow>
      w2\<lparr>w_cookies := w_cookies w2 @ [SetCookie (e_parse_ip6 env) (d_cookie_name (w_data w2)) token
        (Expiration (d_time (w_data w)) DefaultDuration) (r_host (w_req w2))]\<rparr> | Inl e \<Rightarrow> w2)"
    using assms(1) i unfolding ResponseHeaders_def w1_def [symmetric, unfolded Let_def] Let_def by (simp add: f split: sum.split)
  show ?thesis
  proof (cases r)
    case (Inl e)
    with R assms(2) f w2 show ?thesis by simp
  next
    case (Inr s)
    with i f w2 R show ?thesis by (intro exI [of _ w1] exI [of _ w2] exI [of _ s]) simp
  qed
qed

text \<open>
  A challenge that a client has passed stays passed: the token that was issued in one request and
  sent back in the cookie is accepted in a later request of the same client.
\<close>

lemma passed_challenge_stays_passed:
  assumes env: "sealing env" "clock_ok env" "register_inv n (e_challenges env)" "mget (e_challenges env) i = Some reg"
    and first: "u = Expiration (d_time (w_data w1)) (reg_duration reg)" "k = GetChallengeKeyForRequest env reg u w1"
      "w1' = IssueChallengeToken env reg k result u True w1" "settled env reg k result"
    and sent: "w_cookies (ResponseHeaders env w1') = w_cookies w1' @ [sc]"
    and second: "w_ticks (ResponseHeaders env w1') \<le> w_ticks w2" "r_host (w_req w2) = r_host (w_req w1)"
      "NetworkPrefix (d_remote (w_data w2)) = NetworkPrefix (d_remote (w_data w1))"
      "\<forall>k \<in> set (reg_key_headers reg). header_values (r_header (w_req w2)) k = header_values (r_header (w_req w1)) k"
      "Cookie (r_header (w_req w2)) (d_cookie_name (w_data w2)) = Inr c" "c_value c = sc_value sc"
    and time: "Expiration (d_time (w_data w2)) (reg_duration reg) = u" "from_unix 0 \<le> e_now env (w_ticks w2)"
      "e_now env (w_ticks w2) \<le> from_unix (Unix (Expiration (d_time (w_data w1)) DefaultDuration))"
      "e_now env (w_ticks (EvaluateChallenges env w2)) \<le> from_unix (Unix u)"
  shows "mget (d_verify (w_data (EvaluateChallenges env w2))) i = Some VerifyResultOK"
proof -
  have w1': "d_modified (w_data w1')" "w_req w1' = w_req w1" "d_remote (w_data w1') = d_remote (w_data w1)"
      "d_time (w_data w1') = d_time (w_data w1)" "w_ticks w1' = Suc (w_ticks w1)"
      "mget (d_map (w_data w1')) (reg_name reg) = Some \<lparr>tc_key = k, tc_result = result, tc_ok = True,
         tc_expiry = Unix u, tc_not_before = 0, tc_issued_at = Unix (e_now env (w_ticks w1))\<rparr>"
    by (simp_all add: first(3) IssueChallengeToken_def now_def)
  have ne: "w_cookies (ResponseHeaders env w1') \<noteq> w_cookies w1'" using sent by simp
  obtain v v' s where v: "issueChallengeState env (Expiration (d_time (w_data w1')) DefaultDuration) v = (Inr s, v')"
      "w_req v = w_req w1'" "w_data v = w_data w1'" "w_ticks v = w_ticks w1'"
      "w_cookies (ResponseHeaders env w1') = w_cookies w1' @
        [SetCookie (e_parse_ip6 env) (d_cookie_name (w_data w1')) s (Expiration (d_time (w_data w1')) DefaultDuration) (r_host (w_req w1'))]"
    using ResponseHeaders_cookie [OF w1'(1) ne] by blast
  have s: "c_value c = s" using sent v(5) second(6) by (auto simp: SetCookie_def)
  have "w_ticks w1' \<le> w_ticks (ResponseHeaders env w1')"
    unfolding ResponseHeaders_def issueChallengeState_def now_def Let_def by (simp split: sum.split)
  then have tk: "w_ticks v \<le> w_ticks w2" using v(4) second(1) by simp
  have st: "fst (verifyChallengeState env w2) = Inr (d_map (w_data w1'))"
    using issue_then_verify [OF env(1,2) v(1) _ _ second(5) s tk] second(2,3) time(3) v(2,3) w1' by simp
  have "network (fst (d_remote (w_data w2))) = network (fst (d_remote (w_data w1)))"
    using As16_NetworkPrefix [of "fst (d_remote (w_data w2))" "snd (d_remote (w_data w2))"
        "fst (d_remote (w_data w1))" "snd (d_remote (w_data w1))"] second(3) by simp
  then have key: "k = GetChallengeKeyForRequest env reg (Expiration (d_time (w_data w2)) (reg_duration reg)) w2"
    unfolding first(2) time(1) using second(4) by (intro key_same) auto
  show ?thesis
    by (rule EvaluateChallenges_complete [OF env(3,4) st w1'(6)])
      (use key env(2) time first(4) in simp_all)
qed

section \<open>Properties\<close>

text \<open>
  C2: no challenge passes without a token. When the evaluation of all challenges records the result
  OK for an identifier, a registered challenge has it, and the request carried a cookie that the
  server had sealed for its host and network and that had not expired, with a token for that
  challenge that was issued under the key of this very request, had not expired, and was marked as
  passed or has just been verified again by the function of the challenge.
\<close>

theorem passed_only_with_token:
  assumes "d_verify (w_data w) = []"
    and "mget (d_verify (w_data (EvaluateChallenges env w))) i = Some VerifyResultOK"
  shows "\<exists>reg m token s. reg \<in> snd ` set (e_challenges env) \<and> reg_id reg = i \<and> sealed_state env w m \<and>
    mget m (reg_name reg) = Some token \<and> mget (d_state (w_data (EvaluateChallenges env w))) i = Some s \<and>
    token_backed env reg token
      (GetChallengeKeyForRequest env reg (Expiration (d_time (w_data w)) (reg_duration reg)) w) (w_ticks w) s"
  using EvaluateChallenges_sound [OF assms] .



theorem passed_only_with_token_witness:
  "\<exists>(reg :: registration) m (token :: token_challenge). reg_id reg = 1 \<and> sealed_state sample_env sample_next m \<and> mget m (reg_name reg) = Some token"
proof -
  have k: "GetChallengeKeyForRequest sample_env sample_reg (Expiration sample_epoch hour) sample_next = sample_key"
    by (simp add: GetChallengeKeyForRequest_def sample_defs sample_key_def Unmap_def Is4_def numeral_eq_Suc)
  have st: "fst (verifyChallengeState sample_env sample_next) = Inr (t_state sample_token)"
  proof -
    have c: "Cookie (r_header (w_req sample_next)) (d_cookie_name (w_data sample_next)) =
        Inr \<lparr>c_name = ''n'', c_value = ''sealed'', c_quoted = False\<rparr>"
      using sample_cookie by (simp add: sample_next_def sample_world_def sample_data_def)
    then obtain y ys where n: "CookiesNamed (r_header (w_req sample_next)) (d_cookie_name (w_data sample_next)) = y # ys"
      unfolding Cookie_def by (cases "CookiesNamed (r_header (w_req sample_next)) (d_cookie_name (w_data sample_next))") auto
    have "sample_epoch \<le> from_unix (t_expiry sample_token)" "from_unix (t_not_before sample_token) \<le> sample_epoch"
      by (simp_all add: sample_token_def sample_epoch_def from_unix_def Unix_def Expiration_def Round_def
          DefaultDuration_def hour_def second_def unix_to_internal_def Let_def)
    moreover have "e_now sample_env t = sample_epoch" "e_open sample_env k q ''sealed'' = Inr sample_token" for t k q
      by (simp_all add: sample_env_def)
    ultimately show ?thesis unfolding verifyChallengeState_def n
      by (simp add: verifyChallengeStateCookie_def c now_def)
  qed
  have "mget (d_verify (w_data (EvaluateChallenges sample_env sample_next))) 1 = Some VerifyResultOK"
  proof (rule EvaluateChallenges_complete [where n = 1 and reg = sample_reg, OF _ _ st])
    show "mget (e_challenges sample_env) 1 = Some sample_reg" by (simp add: sample_env_def mget_Cons)
    show "mget (t_state sample_token) (reg_name sample_reg) = Some \<lparr>tc_key = sample_key, tc_result = [], tc_ok = True,
       tc_expiry = Unix (Expiration sample_epoch hour), tc_not_before = 0, tc_issued_at = 0\<rparr>"
      by (simp add: sample_token_def sample_reg_def mget_Cons)
    show "e_now sample_env (w_ticks (EvaluateChallenges sample_env sample_next))
        \<le> from_unix (tc_expiry \<lparr>tc_key = sample_key, tc_result = [], tc_ok = True,
       tc_expiry = Unix (Expiration sample_epoch hour), tc_not_before = 0, tc_issued_at = 0\<rparr>)"
      by (simp add: sample_epoch_def from_unix_def Unix_def Expiration_def Round_def hour_def second_def
          unix_to_internal_def Let_def)
  qed (use k in \<open>simp_all add: settled_def Verify.simps sample_epoch_def\<close>)
  from passed_only_with_token [OF sample_simps(8) this] show ?thesis by blast
qed

text \<open>
  writing the headers for the backend never panics after the evaluation of the challenges: every
  challenge that is recorded as passed is registered, and its state has a name.
\<close>

theorem RequestHeaders_no_panic:
  assumes "register_inv n (e_challenges env)" "d_verify (w_data w) = []"
  shows "\<exists>h'. RequestHeaders env (w_data (EvaluateChallenges env w)) h = Inr h'"
  by (rule RequestHeaders_ok [OF EvaluateChallenges_results_ok [OF assms]])

theorem RequestHeaders_no_panic_witness:
  "\<exists>h'. RequestHeaders sample_env (w_data (EvaluateChallenges sample_env sample_world)) [] = Inr h'"
  by (rule RequestHeaders_no_panic [where n = 1]) simp_all



end
