(* ===== verification/Tags.thy ===== *)
theory Tags
  imports Request_Laws
begin

text \<open>
  Tags of the backend's page that the challenge pages repeat: \<open>FetchTags\<close> (\<open>utils/tagfetcher.go\<close>)
  and the filter and cache \<open>fetchTags\<close> (\<open>lib/http.go\<close>). The backend and the HTML parser are fields
  of the environment.
\<close>

section \<open>Fetching\<close>

fun descendants :: "html_tree \<Rightarrow> (bool \<times> html_node) list" where
  "descendants (HtmlTree e n ts) =
     concat (map (\<lambda>t. case t of HtmlTree e' n' _ \<Rightarrow> (e', n') # descendants t) ts)"

text \<open>An empty result stands for Go's nil slice. A nil backend panics.\<close>

definition FetchTags :: "env \<Rightarrow> backend option \<Rightarrow> url \<Rightarrow> string list \<Rightarrow> world \<Rightarrow> (html_node list, world) outcome" where
  "FetchTags env backend uri kinds w =
     (case backend of
        None \<Rightarrow> Panic (Err ''invalid memory address or nil pointer dereference'') w
      | Some b \<Rightarrow>
          (let response = e_fetch env (w_ticks w) b uri;
               w = tick w;
               contentType = e_media_type env (header_get (pg_header response) ''Content-Type'')
           in if pg_code response \<noteq> 200 then Ret [] w
              else if contentType \<noteq> ''text/html'' \<and> contentType \<noteq> ''application/xhtml+xml'' then Ret [] w
              else (case pg_document response of
                      Inl e \<Rightarrow> Ret [] w
                    | Inr node \<Rightarrow>
                        Ret (map snd (filter (\<lambda>(e, n). e \<and> n_data n \<in> set kinds) (descendants node))) w)))"

section \<open>The filter\<close>

fun link_name :: "html_attr list \<Rightarrow> string" where
  "link_name [] = []"
| "link_name (attr # attrs) =
     (if a_ns attr \<noteq> [] then link_name attrs
      else if a_key attr = ''rel'' then a_val attr
      else link_name attrs)"

fun meta_name :: "string \<Rightarrow> html_attr list \<Rightarrow> string" where
  "meta_name name [] = name"
| "meta_name name (attr # attrs) =
     (if a_ns attr \<noteq> [] then meta_name name attrs
      else if a_key attr = ''name'' then a_val attr
      else if a_key attr = ''property'' \<and> name = [] then meta_name (a_val attr) attrs
      else meta_name name attrs)"

definition keep_link :: "string \<Rightarrow> bool" where
  "keep_link name \<longleftrightarrow> name \<in> set [''icon'', ''alternate icon'', ''alternate'', ''canonical'', ''search'', ''author'',
     ''privacy-policy'', ''license'', ''copyright'', ''terms-of-service'', ''manifest'']"

text \<open>\<open>HasPrefix s p\<close> tests whether \<open>s\<close> starts with \<open>p\<close>, with the arguments in the order of the code.\<close>

definition keep_meta :: "string \<Rightarrow> bool" where
  "keep_meta name \<longleftrightarrow>
     HasPrefix ''og:'' name \<or> HasPrefix ''fb:'' name \<or> HasPrefix ''twitter:'' name \<or> HasPrefix ''profile:'' name \<or>
     name = ''vcs'' \<or> HasPrefix ''vcs:'' name \<or> name = ''forge'' \<or> HasPrefix ''forge:'' name \<or>
     HasPrefix ''citation_'' name \<or>
     name \<in> set [''theme-color'', ''color-scheme'', ''origin-trials'',
       ''application-name'', ''origin'', ''author'', ''creator'', ''contact'', ''title'', ''description'', ''thumbnail'', ''rating'',
       ''license'', ''license:uri'', ''rights'', ''rights-standard'', ''go-import'', ''go-source'',
       ''apple-itunes-app'', ''appstore:bundle_id'', ''appstore:developer_url'', ''appstore:store_id'', ''google-play-app'',
       ''verify-v1'', ''google-site-verification'', ''p:domain_verify'', ''yandex-verification'', ''alexaverifyid'',
       ''keywords'', ''robots'', ''google'', ''googlebot'', ''bingbot'', ''pinterest'', ''Slurp'']"

definition safe_attrs :: "string list \<Rightarrow> html_attr list \<Rightarrow> html_attr list" where
  "safe_attrs safe attrs = filter (\<lambda>attr. a_ns attr = [] \<and> a_key attr \<in> set safe) attrs"

definition link_attributes :: "string list" where
  "link_attributes = [''rel'', ''href'', ''hreflang'', ''media'', ''title'', ''type'']"

definition meta_attributes :: "string list" where
  "meta_attributes = [''name'', ''property'', ''content'']"

text \<open>One iteration of the loop over the fetched nodes.\<close>

definition filter_tag :: "html_node \<Rightarrow> html_node option" where
  "filter_tag n =
     (if n_ns n \<noteq> [] then None
      else if n_data n = ''link'' then
        (let name = link_name (n_attr n); attrs = safe_attrs link_attributes (n_attr n) in
         if name = [] \<or> \<not> keep_link name \<or> attrs = [] then None
         else Some \<lparr>n_ns = [], n_data = n_data n, n_attr = attrs\<rparr>)
      else if n_data n = ''meta'' then
        (let name = meta_name [] (n_attr n); attrs = safe_attrs meta_attributes (n_attr n) in
         if name = [] \<or> \<not> keep_meta name \<or> attrs = [] then None
         else Some \<lparr>n_ns = [], n_data = n_data n, n_attr = attrs\<rparr>)
      else None)"

definition tag_kinds :: "bool \<Rightarrow> bool \<Rightarrow> string list" where
  "tag_kinds meta link = (if meta then [''meta''] else if link then [''link''] else [])"

text \<open>The URL without the arguments of the program, and the key of the cache.\<close>

definition clean_url :: "url \<Rightarrow> url" where
  "clean_url u = u\<lparr>u_rawquery := values_encode (strip_args (url_query (u_rawquery u)))\<rparr>"

definition tag_key :: "string \<Rightarrow> url \<Rightarrow> string" where
  "tag_key host u = host @ '':'' @ url_string (clean_url u)"

definition fetchTags ::
    "env \<Rightarrow> string \<Rightarrow> backend option \<Rightarrow> bool \<Rightarrow> bool \<Rightarrow> world \<Rightarrow> (html_node list, world) outcome" where
  "fetchTags env host backend meta link w =
     (let uri = clean_url (r_url (w_req w)); key = tag_key host (r_url (w_req w)) in
      case now env w of (t, w) \<Rightarrow>
        (case decay_get t key (w_tags w) of
           (Some v, m) \<Rightarrow> Ret v (w\<lparr>w_tags := m\<rparr>)
         | (None, m) \<Rightarrow>
             obind (FetchTags env backend uri (tag_kinds meta link) (w\<lparr>w_tags := m\<rparr>)) (\<lambda>result w.
               if result = [] then Ret [] w
               else (let entries = List.map_filter filter_tag result in
                     case now env w of (t, w) \<Rightarrow>
                       Ret entries (w\<lparr>w_tags := decay_set t key entries (hour * 6) (w_tags w)\<rparr>)))))"

section \<open>What a tag may carry\<close>

definition safe_tag :: "html_node \<Rightarrow> bool" where
  "safe_tag n \<longleftrightarrow> n_ns n = [] \<and> n_attr n \<noteq> [] \<and>
     (n_data n = ''link'' \<and> (\<forall>a \<in> set (n_attr n). a_ns a = [] \<and> a_key a \<in> set link_attributes) \<or>
      n_data n = ''meta'' \<and> (\<forall>a \<in> set (n_attr n). a_ns a = [] \<and> a_key a \<in> set meta_attributes))"

definition safe_tags :: "(string, html_node list) decay_map \<Rightarrow> bool" where
  "safe_tags m \<longleftrightarrow> wf_map m \<and> (\<forall>k e. mget m k = Some e \<longrightarrow> list_all safe_tag (en_value e))"

lemma filter_tag_safe: "filter_tag n = Some n' \<Longrightarrow> safe_tag n'"
  by (auto simp: filter_tag_def safe_tag_def safe_attrs_def Let_def split: if_splits)

lemma filter_tags_safe: "list_all safe_tag (List.map_filter filter_tag ns)"
  by (auto simp: list_all_iff map_filter_def dest: filter_tag_safe)

text \<open>A property of meta data is repeated when it is a prefix of a listed word, not the reverse.\<close>

lemma keep_meta_graph: "\<not> keep_meta ''og:title''" "keep_meta ''o''"
  by (simp_all add: keep_meta_def HasPrefix_def)

lemma FetchTags_state: "w_tags (final_state (FetchTags env backend uri kinds w)) = w_tags w"
  by (simp add: FetchTags_def Let_def split: option.split sum.split)

lemma FetchTags_returns: "\<exists>r. FetchTags env (Some b) uri kinds w = Ret r (tick w)"
  by (simp add: FetchTags_def Let_def split: sum.split)

lemma safe_tags_steps:
  assumes "safe_tags m"
  shows "safe_tags (snd (decay_get t k m))" "fst (decay_get t k m) = Some v \<Longrightarrow> list_all safe_tag v"
    "list_all safe_tag ns \<Longrightarrow> safe_tags (decay_set t k ns ttl m)"
  using assms by (auto simp: safe_tags_def decay_get_def decay_set_def split: option.splits if_splits)

section \<open>Properties\<close>



text \<open>
  tags that were fetched once are served from the cache for six hours, to every request for the
  same host and the same URL apart from the program's own arguments, without another request to the
  backend. The cache does not distinguish which kinds of tags were asked for.
\<close>

theorem fetchTags_cached:
  assumes "wf_map (w_tags w)" "live (e_now env (w_ticks w)) (w_tags w) (tag_key host (r_url (w_req w))) = None"
    and "fetchTags env host (Some b) meta link w = Ret ns w'" "w_ticks w' = w_ticks w + 3"
    and "w_tags later = w_tags w'" "tag_key host (r_url (w_req later)) = tag_key host (r_url (w_req w))"
    and "e_now env (w_ticks later) \<le> e_now env (w_ticks w + 2) + 6 * hour"
  shows "fetchTags env host backend meta2 link2 later = Ret ns (tick later)"
proof -
  let ?key = "tag_key host (r_url (w_req w))" and ?t = "e_now env (w_ticks w)"
  obtain x m where g: "decay_get ?t ?key (w_tags w) = (x, m)" by (cases "decay_get ?t ?key (w_tags w)")
  have x: "x = None" using assms(1,2) decay_store.get_view [of "w_tags w" ?t ?key] by (simp add: g)
  let ?f = "FetchTags env (Some b) (clean_url (r_url (w_req w))) (tag_kinds meta link) (tick w\<lparr>w_tags := m\<rparr>)"
  obtain r where r: "?f = Ret r (tick (tick w\<lparr>w_tags := m\<rparr>))" using FetchTags_returns by blast
  have w': "w_tags w' = decay_set (e_now env (w_ticks w + 2)) ?key ns (hour * 6) m"
    using assms(3,4) g x r by (auto simp: fetchTags_def now_def Let_def split: if_splits)
  have "decay_get (e_now env (w_ticks later)) ?key (w_tags later) = (Some ns, w_tags later)"
    using assms(7) by (simp add: assms(5) w' decay_get_def decay_set_def expired_def mult.commute)
  then show ?thesis by (simp add: fetchTags_def now_def assms(6) tick_def)
qed

definition sample_page :: page where
  "sample_page = \<lparr>pg_code = 200, pg_header = [(''Content-Type'', [''text/html''])],
     pg_document = Inr (HtmlTree False \<lparr>n_ns = [], n_data = [], n_attr = []\<rparr>
       [HtmlTree True \<lparr>n_ns = [], n_data = ''meta'',
          n_attr = [\<lparr>a_ns = [], a_key = ''name'', a_val = ''title''\<rparr>, \<lparr>a_ns = [], a_key = ''onload'', a_val = ''x''\<rparr>]\<rparr> []])\<rparr>"

definition sample_tag_env :: env where
  "sample_tag_env = sample_env\<lparr>e_fetch := (\<lambda>_ _ _. sample_page)\<rparr>"

definition sample_tags :: "html_node list" where
  "sample_tags = [\<lparr>n_ns = [], n_data = ''meta'', n_attr = [\<lparr>a_ns = [], a_key = ''name'', a_val = ''title''\<rparr>]\<rparr>]"

definition sample_tagged :: world where
  "sample_tagged = sample_world\<lparr>w_ticks := 3,
     w_tags := decay_set sample_epoch (tag_key ''h'' (r_url sample_request)) sample_tags (hour * 6) []\<rparr>"

lemma sample_page_tags:
  "fetchTags sample_tag_env ''h'' (Some ''b'') True False sample_world = Ret sample_tags sample_tagged"
  by (simp add: fetchTags_def FetchTags_def sample_page_def sample_tag_env_def sample_tags_def sample_tagged_def
      sample_world_def sample_env_def now_def tick_def decay_get_def Let_def canon_eval header_get_def mget_Cons
      tag_kinds_def map_filter_def filter_tag_def keep_meta_def HasPrefix_def safe_attrs_def meta_attributes_def mget_or_def)

theorem fetchTags_cached_witness:
  "fetchTags sample_tag_env ''h'' None False True sample_tagged = Ret sample_tags (tick sample_tagged)"
proof (rule fetchTags_cached [OF _ _ sample_page_tags])
  show "live (e_now sample_tag_env (w_ticks sample_world)) (w_tags sample_world)
      (tag_key ''h'' (r_url (w_req sample_world))) = None"
    by (simp add: live_def sample_world_def)
qed (simp_all add: sample_world_def sample_tagged_def sample_tag_env_def sample_env_def hour_def second_def)

end
