(* ===== verification/Pages.thy ===== *)
theory Pages
  imports Tags
begin

text \<open>
  The pages of \<open>lib/template.go\<close>: the page of a challenge and the page of an error, which panics when
  its template fails. The engine of the templates is a field of the environment.
\<close>

section \<open>Texts\<close>

definition strings_Get :: "(string, string) gomap \<Rightarrow> string \<Rightarrow> string" where
  "strings_Get s value = (case mget s value of None \<Rightarrow> ''string:'' @ value | Some v \<Rightarrow> v)"

text \<open>\<open>http.StatusText\<close>, which is empty for an unknown code.\<close>

definition status_texts :: "(nat \<times> string) list" where
  "status_texts =
    [(100, ''Continue''), (101, ''Switching Protocols''), (102, ''Processing''), (103, ''Early Hints''),
     (200, ''OK''), (201, ''Created''), (202, ''Accepted''), (203, ''Non-Authoritative Information''),
     (204, ''No Content''), (205, ''Reset Content''), (206, ''Partial Content''), (207, ''Multi-Status''),
     (208, ''Already Reported''), (226, ''IM Used''), (300, ''Multiple Choices''), (301, ''Moved Permanently''),
     (302, ''Found''), (303, ''See Other''), (304, ''Not Modified''), (305, ''Use Proxy''),
     (307, ''Temporary Redirect''), (308, ''Permanent Redirect''), (400, ''Bad Request''), (401, ''Unauthorized''),
     (402, ''Payment Required''), (403, ''Forbidden''), (404, ''Not Found''), (405, ''Method Not Allowed''),
     (406, ''Not Acceptable''), (407, ''Proxy Authentication Required''), (408, ''Request Timeout''),
     (409, ''Conflict''), (410, ''Gone''), (411, ''Length Required''), (412, ''Precondition Failed''),
     (413, ''Request Entity Too Large''), (414, ''Request URI Too Long''), (415, ''Unsupported Media Type''),
     (416, ''Requested Range Not Satisfiable''), (417, ''Expectation Failed''), (418, ''I'' @ [CHR 0x27] @ ''m a teapot''),
     (421, ''Misdirected Request''), (422, ''Unprocessable Entity''), (423, ''Locked''), (424, ''Failed Dependency''),
     (425, ''Too Early''), (426, ''Upgrade Required''), (428, ''Precondition Required''), (429, ''Too Many Requests''),
     (431, ''Request Header Fields Too Large''), (451, ''Unavailable For Legal Reasons''),
     (500, ''Internal Server Error''), (501, ''Not Implemented''), (502, ''Bad Gateway''),
     (503, ''Service Unavailable''), (504, ''Gateway Timeout''), (505, ''HTTP Version Not Supported''),
     (506, ''Variant Also Negotiates''), (507, ''Insufficient Storage''), (508, ''Loop Detected''),
     (510, ''Not Extended''), (511, ''Network Authentication Required'')]"

definition StatusText :: "nat \<Rightarrow> string" where
  "StatusText code = (case map_of status_texts code of None \<Rightarrow> [] | Some s \<Rightarrow> s)"

section \<open>Tags\<close>

text \<open>The type assertion to a list of tags gives nil for any other value, or none.\<close>

definition tags_of :: "template_input \<Rightarrow> string \<Rightarrow> ((string, string) gomap) list" where
  "tags_of input k = (case mget input k of Some (TTags ts) \<Rightarrow> ts | _ \<Rightarrow> [])"

definition tag_map :: "html_node \<Rightarrow> (string, string) gomap" where
  "tag_map tag = fold (\<lambda>v. mset_key (a_key v) (a_val v)) (n_attr tag) []"

definition addCachedTags :: "env \<Rightarrow> template_input \<Rightarrow> world \<Rightarrow> (template_input, world) outcome" where
  "addCachedTags env input w =
     (let proxyMetaTags = GetOptBool (w_data w) RequestOptProxyMetaTags False;
          proxySafeLinkTags = GetOptBool (w_data w) RequestOptProxySafeLinkTags False
      in if proxyMetaTags \<or> proxySafeLinkTags then
           (case BackendHost env w of (backend, host) \<Rightarrow>
             obind (fetchTags env host backend proxyMetaTags proxySafeLinkTags w) (\<lambda>tags w.
               if tags = [] then Ret input w
               else Ret (mset_key ''LinkTags'' (TTags (tags_of input ''LinkTags''))
                     (mset_key ''MetaTags'' (TTags (tags_of input ''MetaTags'' @ map tag_map tags)) input)) w))
         else Ret input w)"

section \<open>Pages\<close>

definition html_headers :: "world \<Rightarrow> world" where
  "html_headers w =
     set_header ''Cache-Control'' ''no-cache, no-store, must-revalidate''
       (set_header ''Content-Type'' ''text/html; charset=utf-8'' w)"

definition template_name :: "env \<Rightarrow> string" where
  "template_name env = ''challenge-'' @ e_template env @ ''.gohtml''"

definition respond :: "env \<Rightarrow> nat \<Rightarrow> bytes \<Rightarrow> world \<Rightarrow> world" where
  "respond env status body w = emit (WriteBody body) (emit (WriteHeader status) (ResponseHeaders env w))"

definition merge :: "('k, 'v) gomap \<Rightarrow> ('k, 'v) gomap \<Rightarrow> ('k, 'v) gomap" where
  "merge dst src = fold (\<lambda>(k, v). mset_key k v) src dst"

definition overrides :: "env \<Rightarrow> template_input" where
  "overrides env = map (\<lambda>(k, v). (k, TString v)) (e_overrides env)"

definition error_input :: "env \<Rightarrow> nat \<Rightarrow> go_error \<Rightarrow> string \<Rightarrow> world \<Rightarrow> template_input" where
  "error_input env status err redirect w =
     merge
       [(''Id'', TString (hex_encode (d_id (w_data w)))), (''Random'', TString (e_cache_bust env)),
        (''Error'', TString (error_text err)), (''Path'', TString (e_url_path env)), (''Theme'', TString []),
        (''Title'', TSafe (strings_Get (e_strings env) ''title_error'' @ '' '' @ StatusText status)),
        (''Challenge'', TString []), (''Redirect'', TString redirect), (''Links'', TLinks (e_links env)),
        (''Strings'', TStrings (e_strings env))]
       (overrides env)"

definition ErrorPage :: "env \<Rightarrow> nat \<Rightarrow> go_error \<Rightarrow> string \<Rightarrow> world \<Rightarrow> (unit, world) outcome" where
  "ErrorPage env status err redirect w0 =
     (let w1 = html_headers w0 in
      obind (addCachedTags env (error_input env status err redirect w1) w1) (\<lambda>input w2.
        case e_render env (template_name env) input of
          Inl err2 \<Rightarrow> Panic err2 w2
        | Inr buf \<Rightarrow> Ret () (respond env status buf w2)))"

definition challenge_input :: "env \<Rightarrow> registration \<Rightarrow> template_input \<Rightarrow> world \<Rightarrow> template_input" where
  "challenge_input env reg params w =
     (let input = merge
            (mset_key ''Challenge'' (TString (reg_name reg))
              (merge
                [(''Id'', TString (hex_encode (d_id (w_data w)))), (''Random'', TString (e_cache_bust env)),
                 (''Path'', TString (e_url_path env)), (''Links'', TLinks (e_links env)),
                 (''Strings'', TStrings (e_strings env))]
                (overrides env)))
            params
      in if mget input ''Title'' = None
         then mset_key ''Title'' (TSafe (strings_Get (e_strings env) ''title_challenge'')) input else input)"

definition ChallengePage :: "env \<Rightarrow> nat \<Rightarrow> registration \<Rightarrow> template_input \<Rightarrow> world \<Rightarrow> (unit, world) outcome" where
  "ChallengePage env status reg params w0 =
     obind (addCachedTags env (challenge_input env reg params w0) w0) (\<lambda>input w1.
       let w2 = html_headers w1 in
       case e_render env (template_name env) input of
         Inl err \<Rightarrow> ErrorPage env 500 err [] w2
       | Inr buf \<Rightarrow> Ret () (respond env status buf w2))"

section \<open>What a page leaves alone\<close>

text \<open>
  A page adds to the response and may fill the cache of tags; it does not touch the request, the data
  of the request or the metrics. \<open>writes es\<close> says that exactly the events \<open>es\<close> were added.
\<close>

definition writes :: "event list \<Rightarrow> world \<Rightarrow> world \<Rightarrow> bool" where
  "writes es w w' \<longleftrightarrow> w_req w' = w_req w \<and> w_data w' = w_data w \<and> w_metrics w' = w_metrics w \<and>
     w_events w' = w_events w @ es \<and> w_dnsbl w' = w_dnsbl w \<and> w_hijacker w' = w_hijacker w \<and>
     w_pusher w' = w_pusher w"

lemma writes_refl [simp, intro]: "writes [] w w"
  by (simp add: writes_def)

lemma writes_trans: "writes es w w' \<Longrightarrow> writes es' w' w'' \<Longrightarrow> writes (es @ es') w w''"
  by (simp add: writes_def)

lemma writes_step:
  "writes es w w' \<Longrightarrow> writes es w (set_header k v w')" "writes es w w' \<Longrightarrow> writes es w (del_header k w')"
  "writes es w w' \<Longrightarrow> writes es w (tick w')" "writes es w w' \<Longrightarrow> writes (es @ [e]) w (emit e w')"
  by (simp_all add: writes_def set_header_def del_header_def tick_def emit_def)

lemma writes_tags [simp]: "writes es w (w'\<lparr>w_tags := m\<rparr>) = writes es w w'"
  "writes es w (w'\<lparr>w_header := h\<rparr>) = writes es w w'" "writes es w (w'\<lparr>w_cookies := cs\<rparr>) = writes es w w'"
  "writes es w (tick w') = writes es w w'"
  by (simp_all add: writes_def tick_def)

lemma ResponseHeaders_writes: "writes [] w (ResponseHeaders env w)"
proof -
  have s: "snd (issueChallengeState env u x) = tick (tick (tick x))" for u x
    by (simp add: issueChallengeState_def now_def)
  have "writes [] w (case issueChallengeState env u x of
      (Inr token, w3) \<Rightarrow> w3\<lparr>w_cookies := w_cookies w3 @ f w3 token\<rparr> | (Inl e, w3) \<Rightarrow> w3)"
    if "writes [] w x" for u x f
    using s [of u x] that by (cases "issueChallengeState env u x") (auto split: sum.split)
  then show ?thesis by (simp add: ResponseHeaders_def Let_def writes_step)
qed

lemma respond_writes: "writes es w w' \<Longrightarrow> writes (es @ [WriteHeader c, WriteBody b]) w (respond env c b w')"
  using writes_trans [OF _ ResponseHeaders_writes, of es w w' env]
    writes_step(4) [of "es @ [WriteHeader c]"] writes_step(4)
  by (simp add: respond_def)

lemma html_headers_writes [simp]: "writes es w w' \<Longrightarrow> writes es w (html_headers w')"
  by (simp add: html_headers_def writes_step)

text \<open>The state that an outcome ends in, and the value it returns.\<close>

lemma fetchTags_writes: "writes [] w (final_state (fetchTags env host backend meta link w))"
proof -
  obtain x m where g: "decay_get (e_now env (w_ticks w)) (tag_key host (r_url (w_req w))) (w_tags w) = (x, m)"
    by (cases "decay_get (e_now env (w_ticks w)) (tag_key host (r_url (w_req w))) (w_tags w)")
  have "\<exists>o1. FetchTags env backend uri kinds w1 = o1 \<and> (final_state o1 = w1 \<or> final_state o1 = tick w1)" for uri kinds w1
    by (simp add: FetchTags_def Let_def split: option.split sum.split)
  then have f: "final_state (FetchTags env backend uri kinds w1) \<in> {w1, tick w1}" for uri kinds w1 by simp
  let ?f = "FetchTags env backend (clean_url (r_url (w_req w))) (tag_kinds meta link) (tick w\<lparr>w_tags := m\<rparr>)"
  show ?thesis
    using f [of "clean_url (r_url (w_req w))" "tag_kinds meta link" "tick w\<lparr>w_tags := m\<rparr>"] g
    by (cases x; cases ?f) (auto simp: fetchTags_def now_def Let_def)
qed

lemma addCachedTags_writes: "writes [] w (final_state (addCachedTags env input w))"
proof (cases "GetOptBool (w_data w) RequestOptProxyMetaTags False \<or> GetOptBool (w_data w) RequestOptProxySafeLinkTags False")
  case True
  obtain backend host where b: "BackendHost env w = (backend, host)" by (cases "BackendHost env w")
  let ?f = "fetchTags env host backend (GetOptBool (w_data w) RequestOptProxyMetaTags False)
    (GetOptBool (w_data w) RequestOptProxySafeLinkTags False) w"
  have "writes [] w (final_state ?f)" by (rule fetchTags_writes)
  with True b show ?thesis by (cases ?f) (auto simp: addCachedTags_def Let_def)
next
  case False
  then show ?thesis by (simp add: addCachedTags_def)
qed

lemma addCachedTags_Ret: "addCachedTags env input w = Ret i w' \<Longrightarrow> writes [] w w'"
  and addCachedTags_Panic: "addCachedTags env input w = Panic e w' \<Longrightarrow> writes [] w w'"
  using addCachedTags_writes [of w env input] by simp_all

text \<open>Without the options that ask for tags no backend is asked, and adding tags cannot panic.\<close>

lemma addCachedTags_off:
  "d_opts (w_data w) = [] \<Longrightarrow> addCachedTags env input w = Ret input w"
  by (simp add: addCachedTags_def GetOptBool_def)

lemma ErrorPage_cases:
  "(\<exists>b w'. ErrorPage env status err redirect w = Ret () w' \<and> writes [WriteHeader status, WriteBody b] w w') \<or>
   (\<exists>e w'. ErrorPage env status err redirect w = Panic e w' \<and> writes [] w w')"
proof (cases "addCachedTags env (error_input env status err redirect (html_headers w)) (html_headers w)")
  case (Ret input w2)
  have 2: "writes [] w w2"
    using writes_trans [OF html_headers_writes [OF writes_refl] addCachedTags_Ret [OF Ret]] by simp
  then show ?thesis
    using respond_writes [OF 2] by (cases "e_render env (template_name env) input") (auto simp: ErrorPage_def Ret Let_def)
next
  case (Panic e w2)
  have "writes [] w w2"
    using writes_trans [OF html_headers_writes [OF writes_refl] addCachedTags_Panic [OF Panic]] by simp
  then show ?thesis by (auto simp: ErrorPage_def Panic Let_def)
qed

lemma ChallengePage_cases:
  "(\<exists>c b w'. ChallengePage env status reg params w = Ret () w' \<and> c \<in> {status, 500} \<and>
      writes [WriteHeader c, WriteBody b] w w') \<or>
   (\<exists>e w'. ChallengePage env status reg params w = Panic e w' \<and> writes [] w w')"
proof (cases "addCachedTags env (challenge_input env reg params w) w")
  case (Ret input w1)
  have 1: "writes [] w (html_headers w1)" using addCachedTags_Ret [OF Ret] by simp
  show ?thesis
  proof (cases "e_render env (template_name env) input")
    case (Inl err)
    consider b w' where "ErrorPage env 500 err [] (html_headers w1) = Ret () w'"
        "writes [WriteHeader 500, WriteBody b] (html_headers w1) w'"
      | e w' where "ErrorPage env 500 err [] (html_headers w1) = Panic e w'" "writes [] (html_headers w1) w'"
      using ErrorPage_cases [of env 500 err "[]" "html_headers w1"] by blast
    then show ?thesis
    proof cases
      case (1 b w')
      then show ?thesis using Ret Inl writes_trans [OF \<open>writes [] w (html_headers w1)\<close>]
        by (auto simp: ChallengePage_def)
    next
      case (2 e w')
      then show ?thesis using Ret Inl writes_trans [OF \<open>writes [] w (html_headers w1)\<close>]
        by (auto simp: ChallengePage_def)
    qed
  next
    case (Inr buf)
    then show ?thesis using Ret respond_writes [OF 1] by (simp add: ChallengePage_def Let_def) blast
  qed
next
  case (Panic e w1)
  then show ?thesis using addCachedTags_Panic [OF Panic] by (auto simp: ChallengePage_def)
qed

section \<open>Properties\<close>

text \<open>
  a page answers the request at most once and completely. It returns with one status line and one
  body added to the response, the status of the call or, for the page of a challenge whose template
  failed, 500; or it panics with nothing sent. In either case the request, the data of the request
  and the metrics are as before.
\<close>

theorem pages_answer_once:
  "((\<exists>b w'. ErrorPage env status err redirect w = Ret () w' \<and> writes [WriteHeader status, WriteBody b] w w') \<or>
    (\<exists>e w'. ErrorPage env status err redirect w = Panic e w' \<and> writes [] w w')) \<and>
   ((\<exists>c b w'. ChallengePage env status reg params w = Ret () w' \<and> c \<in> {status, 500} \<and>
       writes [WriteHeader c, WriteBody b] w w') \<or>
    (\<exists>e w'. ChallengePage env status reg params w = Panic e w' \<and> writes [] w w'))"
  by (intro conjI ErrorPage_cases ChallengePage_cases)

end
