(* ===== verification/Query_Raw.thy ===== *)
theory Query_Raw
  imports Query
begin

text \<open>
  The program prints a query without encoding it (\<open>EncodeRawQuery\<close>) and reads it with Go's decoding
  parser (\<open>url.URL.Query\<close>). This theory relates the two: what the decoding parser finds under a key.
\<close>

definition decoded :: "(string \<Rightarrow> string option) \<Rightarrow> string \<Rightarrow> (string \<times> string) option" where
  "decoded dec seg =
     (if CHR '';'' \<in> set seg \<or> seg = [] then None
      else (case Cut (CHR ''='') seg of (k, x, _) \<Rightarrow>
        (case (dec k, dec x) of (Some k', Some x') \<Rightarrow> Some (k', x') | _ \<Rightarrow> None)))"

lemma add_pairs_append: "add_pairs (ps @ qs) m = add_pairs qs (add_pairs ps m)"
  by (simp add: add_pairs_def)

lemma parse_pair_decoded:
  "fst (parse_pair dec seg st) = (case decoded dec seg of None \<Rightarrow> fst st | Some (k, x) \<Rightarrow> values_add k x (fst st))"
  by (cases st) (auto simp: parse_pair_def decoded_def split: prod.split option.split)

lemma parse_fold_decoded:
  "fst (fold (parse_pair dec) segs st) = add_pairs (List.map_filter (decoded dec) segs) (fst st)"
proof (induction segs arbitrary: st)
  case Nil
  then show ?case by (simp add: map_filter_def add_pairs_def)
next
  case (Cons s segs)
  show ?case
    using Cons.IH [of "parse_pair dec s st"] parse_pair_decoded [of dec s st]
    by (auto simp: map_filter_def add_pairs_def split: option.split)
qed

lemma url_query_pairs: "url_query q = add_pairs (List.map_filter (decoded QueryUnescape) (Split (CHR ''&'') q)) []"
  by (simp add: url_query_def parse_loop_fold parse_fold_decoded)

lemma ParseRawQuery_pairs: "fst (ParseRawQuery q) = add_pairs (List.map_filter (decoded Some) (Split (CHR ''&'') q)) []"
  by (simp add: ParseRawQuery_def parse_loop_fold parse_fold_decoded)

lemma wf_url_query [simp]: "wf_map (url_query q)"
  by (simp add: url_query_pairs)

text \<open>What the raw parser returns can be printed again without confusing the separators.\<close>

lemma decoded_raw: "decoded Some seg = Some (k, x) \<Longrightarrow> CHR ''&'' \<notin> set seg \<Longrightarrow> raw_key k \<and> raw_value x"
proof -
  assume a: "decoded Some seg = Some (k, x)" "CHR ''&'' \<notin> set seg"
  then obtain f where c: "Cut (CHR ''='') seg = (k, x, f)" "CHR '';'' \<notin> set seg"
    by (auto simp: decoded_def split: if_splits prod.splits)
  from c(1) have "seg = (if f then k @ CHR ''='' # x else k) \<and> CHR ''='' \<notin> set k" by (rule Cut_append)
  moreover have "\<not> f \<Longrightarrow> x = []" using c(1) Cut_not_found by auto
  ultimately show ?thesis using a(2) c(2) by (cases f) (auto simp: raw_key_def raw_value_def)
qed

definition raw_map :: "url_values \<Rightarrow> bool" where
  "raw_map v \<longleftrightarrow> wf_map v \<and> (\<forall>k. mget v k \<noteq> None \<longrightarrow> raw_key k) \<and> (\<forall>k. \<forall>x \<in> set (mget_or [] v k). raw_value x)"

lemma raw_map_parse [simp]: "raw_map (fst (ParseRawQuery q))"
proof -
  define ps where "ps = List.map_filter (decoded Some) (Split (CHR ''&'') q)"
  have ok: "raw_key k \<and> raw_value x" if "(k, x) \<in> set ps" for k x
    using that decoded_raw by (auto simp: ps_def map_filter_def dest: Split_elem_notin)
  have "raw_map (add_pairs ps [])"
    unfolding raw_map_def dom_add_pairs mget_add_pairs using ok by (auto simp: mget_or_def)
  then show ?thesis by (simp add: ParseRawQuery_pairs ps_def)
qed

lemma QueryEscape_raw [simp]: "raw_value (QueryEscape x)"
  by (simp add: raw_value_def)

lemma raw_map_set [simp]: "raw_map v \<Longrightarrow> raw_key k \<Longrightarrow> raw_map (values_set k (QueryEscape x) v)"
  by (simp add: raw_map_def values_set_def)

lemma raw_map_del [simp]: "raw_map v \<Longrightarrow> raw_map (mdel k v)"
  by (simp add: raw_map_def mget_or_def)

lemma Split_EncodeRawQuery:
  assumes "raw_map v"
  shows "Split (CHR ''&'') (EncodeRawQuery v) = (if segments (\<lambda>s. s) v = [] then [[]] else segments (\<lambda>s. s) v)"
proof -
  have amp: "CHR ''&'' \<notin> set s" if "s \<in> set (segments (\<lambda>s. s) v)" for s
    using that assms by (auto simp: segments_def raw_map_def raw_key_def raw_value_def set_mkeys_iff)
  have "EncodeRawQuery v = encode_values (\<lambda>s. s) v"
    by (simp add: EncodeRawQuery_def encode_values_def mkeys_def)
  with amp show ?thesis by (simp add: encode_values_Join Split_Join)
qed

lemma map_filter_concat: "List.map_filter f (concat xs) = concat (map (List.map_filter f) xs)"
  by (induction xs) (simp_all add: map_filter_def)

text \<open>What the decoding parser finds in a raw text: the values of every key that decodes to the name.\<close>

lemma query_of_raw:
  assumes "raw_map v"
  shows "mget_or [] (url_query (EncodeRawQuery v)) k =
    concat (map (\<lambda>k'. if QueryUnescape k' = Some k then List.map_filter QueryUnescape (mget_or [] v k') else []) (sort (mkeys v)))"
proof -
  have seg: "decoded QueryUnescape (k' @ CHR ''='' # x) =
      (case (QueryUnescape k', QueryUnescape x) of (Some a, Some b) \<Rightarrow> Some (a, b) | _ \<Rightarrow> None)"
    if "raw_key k'" "raw_value x" for k' x
    using that by (auto simp: decoded_def raw_key_def raw_value_def split: option.split)
  have "List.map_filter (decoded QueryUnescape) (Split (CHR ''&'') (EncodeRawQuery v)) =
      List.map_filter (decoded QueryUnescape) (segments (\<lambda>s. s) v)"
    by (simp add: Split_EncodeRawQuery [OF assms] decoded_def map_filter_def)
  then have "mget_or [] (url_query (EncodeRawQuery v)) k =
      map snd (filter (\<lambda>p. fst p = k) (List.map_filter (decoded QueryUnescape) (segments (\<lambda>s. s) v)))"
    by (simp add: url_query_pairs mget_add_pairs) (simp add: mget_or_def)
  also have "\<dots> = concat (map (\<lambda>k'. map snd (filter (\<lambda>p. fst p = k)
      (List.map_filter (decoded QueryUnescape) (map (\<lambda>x. k' @ ''='' @ x) (mget_or [] v k'))))) (sort (mkeys v)))"
    by (simp add: segments_def map_filter_concat filter_concat map_concat comp_def)
  also have "\<dots> = concat (map (\<lambda>k'. if QueryUnescape k' = Some k
      then List.map_filter QueryUnescape (mget_or [] v k') else []) (sort (mkeys v)))"
  proof (intro arg_cong [where f = concat] map_cong refl)
    fix k' assume "k' \<in> set (sort (mkeys v))"
    then have k': "raw_key k'" "\<forall>x \<in> set (mget_or [] v k'). raw_value x"
      using assms by (auto simp: raw_map_def set_mkeys_iff)
    have "map snd (filter (\<lambda>p. fst p = k) (List.map_filter (decoded QueryUnescape) (map (\<lambda>x. k' @ ''='' @ x) xs))) =
        (if QueryUnescape k' = Some k then List.map_filter QueryUnescape xs else [])"
      if "\<forall>x \<in> set xs. raw_value x" for xs
      using that by (induction xs) (auto simp: map_filter_def seg [OF k'(1)] split: option.splits)
    then show "map snd (filter (\<lambda>p. fst p = k)
        (List.map_filter (decoded QueryUnescape) (map (\<lambda>x. k' @ ''='' @ x) (mget_or [] v k')))) =
      (if QueryUnescape k' = Some k then List.map_filter QueryUnescape (mget_or [] v k') else [])"
      using k'(2) .
  qed
  finally show ?thesis by simp
qed

lemma concat_single:
  assumes "distinct ks" "k \<in> set ks" "\<And>k'. k' \<in> set ks \<Longrightarrow> k' \<noteq> k \<Longrightarrow> f k' = []"
  shows "concat (map f ks) = f k"
  using assms
proof (induction ks)
  case (Cons a ks)
  show ?case
  proof (cases "a = k")
    case True
    with Cons.prems have "\<forall>k' \<in> set ks. f k' = []" by auto
    then show ?thesis using True by simp
  next
    case False
    with Cons show ?thesis by simp
  qed
qed simp

text \<open>A name that no other key of the map decodes to is read back as it was set.\<close>

definition unshadowed :: "url_values \<Rightarrow> string \<Rightarrow> bool" where
  "unshadowed v k \<longleftrightarrow> QueryUnescape k = Some k \<and> (\<forall>k'. mget v k' \<noteq> None \<longrightarrow> QueryUnescape k' = Some k \<longrightarrow> k' = k)"

lemma unshadowed_set: "unshadowed v k \<Longrightarrow> QueryUnescape j = Some j \<Longrightarrow> unshadowed (values_set j x v) k"
  by (auto simp: unshadowed_def values_set_def)

lemma query_of_raw_set:
  assumes "raw_map v" "mget v k = Some [QueryEscape x]" "unshadowed v k"
  shows "mget_or [] (url_query (EncodeRawQuery v)) k = [x]"
proof -
  let ?f = "\<lambda>k'. if QueryUnescape k' = Some k then List.map_filter QueryUnescape (mget_or [] v k') else []"
  have "concat (map ?f (sort (mkeys v))) = ?f k"
    by (rule concat_single) (use assms in \<open>auto simp: raw_map_def wf_map_def set_mkeys_iff unshadowed_def\<close>)
  also have "\<dots> = [x]" using assms(2,3) by (simp add: unshadowed_def mget_or_def map_filter_def)
  finally show ?thesis using query_of_raw [OF assms(1)] by simp
qed

text \<open>A name that no key decodes to is absent.\<close>

lemma query_of_raw_absent:
  assumes "raw_map v" "\<And>k'. mget v k' \<noteq> None \<Longrightarrow> QueryUnescape k' \<noteq> Some k"
  shows "mget_or [] (url_query (EncodeRawQuery v)) k = []"
proof -
  have z: "concat (map (\<lambda>k'. if QueryUnescape k' = Some k then List.map_filter QueryUnescape (mget_or [] v k') else []) ks) = []"
    if "set ks \<subseteq> set (mkeys v)" for ks
    using that
  proof (induction ks)
    case (Cons a ks)
    then show ?case using assms(2) [of a] by (simp add: set_mkeys_iff)
  qed simp
  show ?thesis by (subst query_of_raw [OF assms(1)]) (rule z, simp)
qed

end
