(* ===== verification/Helper.thy ===== *)
theory Helper
  imports Pages Query_Raw Strconv
begin

text \<open>
  The request that reports the result of a challenge (\<open>lib/challenge/helper.go\<close>): the URL that a client
  is sent to, reading its arguments back, and the handler that verifies the token, issues a token for
  the cookie and redirects the client to where it came from.
\<close>

definition MakeChallengeUrlSuffix :: string where "MakeChallengeUrlSuffix = ''/make-challenge''"
definition VerifyChallengeUrlSuffix :: string where "VerifyChallengeUrlSuffix = ''/verify-challenge''"

section \<open>Reading the arguments\<close>

definition GetVerifyInformation ::
    "env \<Rightarrow> http_request \<Rightarrow> registration \<Rightarrow> go_error + (bytes \<times> string \<times> string)" where
  "GetVerifyInformation env r reg =
     (let q = url_query (u_rawquery (r_url r)) in
      if values_get q QueryArgChallenge \<noteq> reg_name reg
      then Inl (Err (''unexpected challenge: got '' @ [CHR 0x22] @ values_get q QueryArgChallenge @ [CHR 0x22]))
      else
        (let requestIdHex = values_get q QueryArgRequestId in
         if DecodedLen (length requestIdHex) \<noteq> 16 then Inl (Err ''invalid request id'')
         else (case hex_decode requestIdHex of
             Inl e \<Rightarrow> Inl (hex_error_to_go e)
           | Inr requestId \<Rightarrow>
               (if length requestId \<noteq> 16 then Inl (Err ''invalid request id'')
                else (case EnsureNoOpenRedirect (e_authority env) (values_get q QueryArgRedirect) of
                    Inl e \<Rightarrow> Inl e
                  | Inr redirect \<Rightarrow> Inr (requestId, redirect, values_get q QueryArgToken))))))"

section \<open>Building the URL\<close>

text \<open>\<open>url.ParseRequestURI\<close>: no fragment, and the text must be absolute or start with a slash.\<close>

definition ParseRequestURI :: "authority_parser \<Rightarrow> string \<Rightarrow> go_error + url" where
  "ParseRequestURI pa raw =
     (if \<exists>c \<in> set raw. ctl_byte c then Inl (Err ''invalid control character in URL'')
      else if raw = [] then Inl (Err ''empty url'')
      else if raw = ''*'' then Inr (empty_url\<lparr>u_path := ''*''\<rparr>)
      else case getScheme raw of
        Inl e \<Rightarrow> Inl e
      | Inr (scheme, rest0) \<Rightarrow>
        (case split_query rest0 (empty_url\<lparr>u_scheme := lower_string scheme\<rparr>) of (rest, u) \<Rightarrow>
           if \<not> HasPrefix rest ''/'' then
             (if u_scheme u \<noteq> [] then Inr (u\<lparr>u_opaque := rest\<rparr>) else Inl (Err ''invalid URI for request''))
           else if u_scheme u \<noteq> [] then parse_hier pa rest u
           else set_path rest u))"

definition set_args :: "(string \<times> string) list \<Rightarrow> url_values \<Rightarrow> url_values" where
  "set_args args v = fold (\<lambda>(k, x). values_set k (QueryEscape x)) args v"

definition redirect_args :: "registration \<Rightarrow> world \<Rightarrow> (string \<times> string) list" where
  "redirect_args reg w =
     (let ref = header_get (r_header (w_req w)) ''Referer'' in
      [(QueryArgRequestId, hex_encode (d_id (w_data w)))] @
      (if ref \<noteq> [] then [(QueryArgReferer, ref)] else []) @ [(QueryArgChallenge, reg_name reg)])"

definition RedirectUrl :: "env \<Rightarrow> registration \<Rightarrow> world \<Rightarrow> go_error + url" where
  "RedirectUrl env reg w =
     (case ParseRequestURI (e_authority env) (url_string (r_url (w_req w))) of
        Inl e \<Rightarrow> Inl e
      | Inr uri \<Rightarrow>
          Inr (uri\<lparr>u_rawquery := EncodeRawQuery
            (set_args (redirect_args reg w) (fst (ParseRawQuery (u_rawquery (r_url (w_req w))))))\<rparr>))"

definition verify_args :: "registration \<Rightarrow> string \<Rightarrow> bytes \<Rightarrow> string \<Rightarrow> int \<Rightarrow> (string \<times> string) list" where
  "verify_args reg redirect i token t =
     [(QueryArgRequestId, hex_encode i), (QueryArgRedirect, redirect), (QueryArgToken, token),
      (QueryArgChallenge, reg_name reg), (QueryArgBust, FormatInt t)]"

definition VerifyUrl :: "env \<Rightarrow> registration \<Rightarrow> string \<Rightarrow> world \<Rightarrow> (go_error + url) \<times> world" where
  "VerifyUrl env reg token w =
     (case RedirectUrl env reg w of
        Inl e \<Rightarrow> (Inl e, w)
      | Inr redirectUrl \<Rightarrow>
          (case now env w of (t, w) \<Rightarrow>
            (Inr (empty_url\<lparr>u_path := reg_path reg @ VerifyChallengeUrlSuffix,
               u_rawquery := EncodeRawQuery
                 (set_args (verify_args reg (url_string redirectUrl) (d_id (w_data w)) token (UnixMilli t))
                   (fst (ParseRawQuery (u_rawquery (r_url (w_req w))))))\<rparr>), w)))"

section \<open>The handler\<close>

text \<open>\<open>http.Redirect\<close> is recorded with the URL it is given.\<close>

definition retry_url :: "http_request \<Rightarrow> url" where
  "retry_url r =
     (let q = url_query (u_rawquery (r_url r));
          ref = values_get q QueryArgReferer;
          q1 = strip_args q
      in (r_url r)\<lparr>u_rawquery := values_encode (if ref \<noteq> [] then values_set QueryArgReferer ref q1 else q1)\<rparr>)"

type_synonym response_func =
  "env \<Rightarrow> VerifyResult \<Rightarrow> go_error option \<Rightarrow> string \<Rightarrow> world \<Rightarrow> (unit, world) outcome"

definition VerifyHandlerChallengeResponseFunc :: response_func where
  "VerifyHandlerChallengeResponseFunc env verifyResult err redirect w =
     (case err of
        Some e \<Rightarrow>
          (if errors_is e ErrMismatchedTokenHappyEyeballs
           then Ret () (emit (Redirected (url_string (retry_url (w_req w))) 307) (ResponseHeaders env w))
           else ErrorPage env 400 e redirect w)
      | None \<Rightarrow>
          (if \<not> result_Ok verifyResult
           then ErrorPage env 403 (Err ''access denied: failed challenge'') redirect w
           else Ret () (emit (Redirected redirect 307) (ResponseHeaders env w))))"

text \<open>
  \<open>VerifyHandlerFunc\<close>; every caller passes no verifier, so the one of the registration is used, and
  a registration without one panics.
\<close>

definition VerifyHandlerFunc :: "env \<Rightarrow> registration \<Rightarrow> response_func \<Rightarrow> world \<Rightarrow> (unit, world) outcome" where
  "VerifyHandlerFunc env reg responseFunc w0 =
     (case GetVerifyInformation env (w_req w0) reg of
        Inl e \<Rightarrow> responseFunc env VerifyResultFail (Some (Wrap ''internal error'' e)) [] (ChallengeFailed reg w0)
      | Inr (requestId, redirect, token) \<Rightarrow>
          (let w1 = set_data (\<lambda>d. d\<lparr>d_id := requestId\<rparr>) w0;
               expiration = Expiration (d_time (w_data w1)) (reg_duration reg);
               k = GetChallengeKeyForRequest env reg expiration w1
           in case Verify env reg of
                None \<Rightarrow> Panic (Err ''invalid memory address or nil pointer dereference'') w1
              | Some verify \<Rightarrow>
                  (case verify k (bytes_of token) w1 of ((verifyResult, err), w2) \<Rightarrow>
                    (case err of
                       Some e \<Rightarrow>
                         responseFunc env VerifyResultFail
                           (Some (Wrap (''access denied: error in challenge '' @ reg_name reg) e)) redirect
                           (ChallengeFailed reg w2)
                     | None \<Rightarrow>
                         (if \<not> result_Ok verifyResult
                          then responseFunc env verifyResult None redirect (ChallengeFailed reg w2)
                          else (let w3 = IssueChallengeToken env reg k (bytes_of token) expiration True w2;
                                    w4 = set_data (\<lambda>d. d\<lparr>d_verify := mset_key (reg_id reg) verifyResult (d_verify d)\<rparr>) w3
                                in responseFunc env verifyResult None redirect (ChallengePassed reg w4)))))))"

section \<open>URLs of plain requests\<close>

text \<open>
  A request as it comes from a browser to a path without special characters: no scheme and host in its
  URL, and no control character or hash in its query.
\<close>

definition url_clean :: "string \<Rightarrow> bool" where
  "url_clean s \<longleftrightarrow> list_all (\<lambda>c. \<not> ctl_byte c \<and> c \<noteq> CHR ''#'') s"

definition plain_path :: "string \<Rightarrow> bool" where
  "plain_path p \<longleftrightarrow> list_all plain_char p \<and> HasPrefix p ''/'' \<and> \<not> HasPrefix p ''//''"

definition plain_url :: "url \<Rightarrow> bool" where
  "plain_url u \<longleftrightarrow> u = empty_url\<lparr>u_path := u_path u, u_rawquery := u_rawquery u\<rparr> \<and>
     plain_path (u_path u) \<and> url_clean (u_rawquery u)"

definition clean_map :: "url_values \<Rightarrow> bool" where
  "clean_map v \<longleftrightarrow> (\<forall>k. mget v k \<noteq> None \<longrightarrow> url_clean k) \<and> (\<forall>k. \<forall>x \<in> set (mget_or [] v k). url_clean x)"

lemma url_clean_append [simp]: "url_clean (a @ b) \<longleftrightarrow> url_clean a \<and> url_clean b"
  by (simp add: url_clean_def)

lemma url_clean_Join: "url_clean sep \<Longrightarrow> (\<And>x. x \<in> set xs \<Longrightarrow> url_clean x) \<Longrightarrow> url_clean (Join sep xs)"
  by (induction sep xs rule: Join.induct) (auto simp: url_clean_def)

lemma unreserved_clean: "unreserved c \<Longrightarrow> \<not> ctl_byte c \<and> c \<noteq> CHR ''#''"
proof -
  assume u: "unreserved c"
  then have "plain_char c" by (simp add: plain_char_def)
  then have "\<not> ctl_byte c" by (rule plain_not_ctl)
  moreover have "\<not> unreserved (CHR ''#'')" by code_simp
  ultimately show ?thesis using u by auto
qed

lemma url_clean_escape [simp]: "url_clean (QueryEscape s)"
proof -
  have "\<not> ctl_byte percent \<and> percent \<noteq> CHR ''#''" "\<not> ctl_byte (CHR ''+'') \<and> CHR ''+'' \<noteq> CHR ''#''" by code_simp+
  then have "\<not> ctl_byte c \<and> c \<noteq> CHR ''#''" if "c \<in> set (QueryEscape s)" for c
    using QueryEscape_chars [OF that] unreserved_clean [of c] by (elim disjE) simp_all
  then show ?thesis by (simp add: url_clean_def list_all_iff)
qed

lemma clean_map_parse: "url_clean q \<Longrightarrow> clean_map (fst (ParseRawQuery q))"
proof -
  assume q: "url_clean q"
  have split: "set x \<subseteq> set q" if "x \<in> set (Split (CHR ''&'') q)" for x
  proof -
    have "set x \<subseteq> set (Join ''&'' xs)" if "x \<in> set xs" for xs
      using that by (induction "''&''" xs rule: Join.induct) auto
    with that show ?thesis using Join_Split [of "CHR ''&''" q] by metis
  qed
  define ps where "ps = List.map_filter (decoded Some) (Split (CHR ''&'') q)"
  have ok: "url_clean k \<and> url_clean x" if kx: "(k, x) \<in> set ps" for k x
  proof -
    obtain seg where s: "seg \<in> set (Split (CHR ''&'') q)" "decoded Some seg = Some (k, x)"
      using kx by (force simp: ps_def map_filter_def)
    then obtain f where c: "Cut (CHR ''='') seg = (k, x, f)" by (auto simp: decoded_def split: if_splits prod.splits)
    have "set k \<subseteq> set seg" "set x \<subseteq> set seg"
      using Cut_append [OF c] Cut_not_found [of "CHR ''=''" seg k x] c by (cases f; auto)+
    then show ?thesis using q split [OF s(1)] by (auto simp: url_clean_def list_all_iff)
  qed
  have "clean_map (add_pairs ps [])"
    unfolding clean_map_def dom_add_pairs mget_add_pairs using ok by (auto simp: mget_or_def)
  then show ?thesis by (simp add: ParseRawQuery_pairs ps_def)
qed

lemma clean_map_set: "clean_map v \<Longrightarrow> url_clean k \<Longrightarrow> clean_map (values_set k (QueryEscape x) v)"
  by (simp add: clean_map_def values_set_def)

lemma url_clean_encode: "clean_map v \<Longrightarrow> url_clean (EncodeRawQuery v)"
proof -
  assume v: "clean_map v"
  have "url_clean ''&''" "url_clean ''=''" by code_simp+
  moreover have "url_clean s" if "s \<in> set (segments (\<lambda>s. s) v)" for s
    using that v \<open>url_clean ''=''\<close> by (auto simp: segments_def clean_map_def set_mkeys_iff url_clean_def)
  ultimately have "url_clean (Join ''&'' (segments (\<lambda>s. s) v))" by (intro url_clean_Join)
  moreover have "EncodeRawQuery v = encode_values (\<lambda>s. s) v"
    by (simp add: EncodeRawQuery_def encode_values_def mkeys_def)
  ultimately show ?thesis by (simp add: encode_values_Join)
qed

lemma url_string_plain:
  assumes "plain_path p"
  shows "url_string (empty_url\<lparr>u_path := p, u_rawquery := q\<rparr>) = p @ (if q = [] then [] else CHR ''?'' # q)"
proof -
  have p: "list_all plain_char p" "HasPrefix p ''/''" using assms by (auto simp: plain_path_def)
  have "escaped_path (empty_url\<lparr>u_path := p, u_rawquery := q\<rparr>) = p"
    using plain_escape [OF p(1)] p(2) by (auto simp: escaped_path_def empty_url_def)
  moreover have "CHR '':'' \<notin> set (fst (Cut (CHR ''/'') p))"
    using p(2) by (auto simp: HasPrefix_slash)
  ultimately show ?thesis
    by (simp add: url_string_def hierarchy_text_def authority_text_def Let_def empty_url_def)
qed

lemma ParseRequestURI_plain:
  assumes "plain_path p" "url_clean q"
  shows "ParseRequestURI pa (p @ (if q = [] then [] else CHR ''?'' # q)) = Inr (empty_url\<lparr>u_path := p, u_rawquery := q\<rparr>)"
proof -
  have p: "list_all plain_char p" "HasPrefix p ''/''" using assms(1) by (auto simp: plain_path_def)
  obtain p' where p': "p = CHR ''/'' # p'" using p(2) by (auto simp: HasPrefix_slash)
  define raw where "raw = p @ (if q = [] then [] else CHR ''?'' # q)"
  have "\<not> ctl_byte (CHR ''?'')" by code_simp
  then have ctl: "\<not> (\<exists>c \<in> set raw. ctl_byte c)"
    using p(1) assms(2) plain_not_ctl by (auto simp: raw_def list_all_iff url_clean_def)
  have sch: "getScheme raw = Inr ([], raw)"
    unfolding raw_def p' using getScheme_none [of "CHR ''/''"] by simp
  have sq: "split_query raw (empty_url\<lparr>u_scheme := lower_string []\<rparr>) = (p, empty_url\<lparr>u_rawquery := q\<rparr>)"
    using split_query_plain [of p q] plain_no [OF p(1)] split_query_plain(1) [of p "''x''"]
    by (cases "q = []") (simp_all add: raw_def lower_string_def empty_url_def)
  have "set_path p (empty_url\<lparr>u_rawquery := q\<rparr>) = Inr (empty_url\<lparr>u_path := p, u_rawquery := q\<rparr>)"
    using plain_unescape [OF p(1)] plain_escape [OF p(1)] by (simp add: set_path_def empty_url_def)
  then have "ParseRequestURI pa raw = Inr (empty_url\<lparr>u_path := p, u_rawquery := q\<rparr>)"
    using ctl sch sq p' p(2) by (simp add: ParseRequestURI_def raw_def empty_url_def)
  then show ?thesis by (simp add: raw_def)
qed

section \<open>Reading back what was built\<close>

definition verify_names :: "string list" where
  "verify_names = [QueryArgRequestId, QueryArgRedirect, QueryArgToken, QueryArgChallenge]"

lemmas arg_defs = QueryArgPrefix_def QueryArgReferer_def QueryArgRedirect_def QueryArgRequestId_def
  QueryArgChallenge_def QueryArgToken_def QueryArgBust_def

lemma arg_raw [simp]:
  "raw_key QueryArgRequestId" "raw_key QueryArgRedirect" "raw_key QueryArgToken" "raw_key QueryArgChallenge"
  "raw_key QueryArgBust" "raw_key QueryArgReferer"
  by (simp_all add: arg_defs raw_key_def)

lemma arg_unescape [simp]:
  "QueryUnescape QueryArgRequestId = Some QueryArgRequestId" "QueryUnescape QueryArgRedirect = Some QueryArgRedirect"
  "QueryUnescape QueryArgToken = Some QueryArgToken" "QueryUnescape QueryArgChallenge = Some QueryArgChallenge"
  "QueryUnescape QueryArgBust = Some QueryArgBust" "QueryUnescape QueryArgReferer = Some QueryArgReferer"
  by (simp_all add: arg_defs QueryUnescape_def percent_def)

lemma arg_clean [simp]:
  "url_clean QueryArgRequestId" "url_clean QueryArgReferer" "url_clean QueryArgChallenge"
  by (simp_all add: arg_defs url_clean_def ctl_byte_def)

lemma arg_distinct [simp]:
  "QueryArgRequestId \<noteq> QueryArgRedirect" "QueryArgRedirect \<noteq> QueryArgRequestId"
  "QueryArgRequestId \<noteq> QueryArgToken" "QueryArgToken \<noteq> QueryArgRequestId"
  "QueryArgRequestId \<noteq> QueryArgChallenge" "QueryArgChallenge \<noteq> QueryArgRequestId"
  "QueryArgRequestId \<noteq> QueryArgBust" "QueryArgBust \<noteq> QueryArgRequestId"
  "QueryArgRedirect \<noteq> QueryArgToken" "QueryArgToken \<noteq> QueryArgRedirect"
  "QueryArgRedirect \<noteq> QueryArgChallenge" "QueryArgChallenge \<noteq> QueryArgRedirect"
  "QueryArgRedirect \<noteq> QueryArgBust" "QueryArgBust \<noteq> QueryArgRedirect"
  "QueryArgToken \<noteq> QueryArgChallenge" "QueryArgChallenge \<noteq> QueryArgToken"
  "QueryArgToken \<noteq> QueryArgBust" "QueryArgBust \<noteq> QueryArgToken"
  "QueryArgChallenge \<noteq> QueryArgBust" "QueryArgBust \<noteq> QueryArgChallenge"
  by (simp_all add: arg_defs)

lemma set_args_raw: "raw_map v \<Longrightarrow> \<forall>(k, x) \<in> set args. raw_key k \<Longrightarrow> raw_map (set_args args v)"
  by (induction args arbitrary: v) (auto simp: set_args_def)

lemma set_args_clean: "clean_map v \<Longrightarrow> \<forall>(k, x) \<in> set args. url_clean k \<Longrightarrow> clean_map (set_args args v)"
  by (induction args arbitrary: v) (auto simp: set_args_def clean_map_set)

lemma set_args_unshadowed:
  "unshadowed v n \<Longrightarrow> \<forall>(k, x) \<in> set args. QueryUnescape k = Some k \<Longrightarrow> unshadowed (set_args args v) n"
  by (induction args arbitrary: v) (auto simp: set_args_def unshadowed_set)

lemma verify_args_get:
  "mget (set_args (verify_args reg redirect i token t) v) QueryArgRequestId = Some [QueryEscape (hex_encode i)]"
  "mget (set_args (verify_args reg redirect i token t) v) QueryArgRedirect = Some [QueryEscape redirect]"
  "mget (set_args (verify_args reg redirect i token t) v) QueryArgToken = Some [QueryEscape token]"
  "mget (set_args (verify_args reg redirect i token t) v) QueryArgChallenge = Some [QueryEscape (reg_name reg)]"
  by (simp_all add: set_args_def verify_args_def values_set_def)

lemma verify_args_names: "(k, x) \<in> set (verify_args reg redirect i token t) \<Longrightarrow> raw_key k \<and> QueryUnescape k = Some k"
  by (auto simp: verify_args_def)

text \<open>The redirect URL of a plain request is a plain URL of the same path.\<close>

lemma RedirectUrl_plain:
  assumes "plain_url (r_url (w_req w))"
  shows "\<exists>u. RedirectUrl env reg w = Inr u \<and> plain_url u \<and> u_path u = u_path (r_url (w_req w))"
proof -
  define p where "p = u_path (r_url (w_req w))"
  define q where "q = u_rawquery (r_url (w_req w))"
  have u: "r_url (w_req w) = empty_url\<lparr>u_path := p, u_rawquery := q\<rparr>" and p: "plain_path p" and q: "url_clean q"
    using assms by (simp_all add: plain_url_def p_def q_def)
  have r: "ParseRequestURI (e_authority env) (url_string (r_url (w_req w))) = Inr (empty_url\<lparr>u_path := p, u_rawquery := q\<rparr>)"
    unfolding u url_string_plain [OF p] by (rule ParseRequestURI_plain [OF p q])
  let ?q = "EncodeRawQuery (set_args (redirect_args reg w) (fst (ParseRawQuery q)))"
  have "url_clean ?q"
    by (intro url_clean_encode set_args_clean clean_map_parse q) (auto simp: redirect_args_def Let_def split: if_splits)
  moreover have "RedirectUrl env reg w = Inr (empty_url\<lparr>u_path := p, u_rawquery := ?q\<rparr>)"
    using r by (simp add: RedirectUrl_def q_def [symmetric] empty_url_def)
  ultimately show ?thesis using p by (auto simp: plain_url_def p_def [symmetric] empty_url_def)
qed

lemma EnsureNoOpenRedirect_plain: "plain_url u \<Longrightarrow> EnsureNoOpenRedirect pa (url_string u) = Inr (url_string u)"
proof -
  assume u: "plain_url u"
  define p where "p = u_path u"
  define q where "q = u_rawquery u"
  have e: "u = empty_url\<lparr>u_path := p, u_rawquery := q\<rparr>" and p: "plain_path p" and q: "url_clean q"
    using u by (simp_all add: plain_url_def p_def q_def)
  show ?thesis unfolding e url_string_plain [OF p]
    using p q ensure_local_path [of p q pa] by (simp add: plain_path_def url_clean_def)
qed

lemma verify_info_of_args:
  assumes raw: "raw_map v" and un: "\<forall>a \<in> set verify_names. unshadowed v a"
    and i: "length i = 16" and red: "EnsureNoOpenRedirect (e_authority env) redirect = Inr redirect"
    and q: "u_rawquery (r_url r) = EncodeRawQuery (set_args (verify_args reg redirect i token t) v)"
  shows "GetVerifyInformation env r reg = Inr (i, redirect, token)"
proof -
  let ?v = "set_args (verify_args reg redirect i token t) v"
  have r: "raw_map ?v" by (rule set_args_raw [OF raw]) (use verify_args_names in blast)
  have "unshadowed ?v a" if "a \<in> set verify_names" for a
    by (rule set_args_unshadowed) (use un that verify_args_names in blast)+
  then have g: "values_get (url_query (u_rawquery (r_url r))) a = x"
    if "a \<in> set verify_names" "mget ?v a = Some [QueryEscape x]" for a x
    using query_of_raw_set [OF r that(2)] that(1) by (simp add: values_get_def q)
  note g [OF _ verify_args_get(1), simp] g [OF _ verify_args_get(2), simp]
    g [OF _ verify_args_get(3), simp] g [OF _ verify_args_get(4), simp]
  show ?thesis
    using i red by (simp add: GetVerifyInformation_def Let_def verify_names_def DecodedLen_def)
qed

section \<open>Properties\<close>

text \<open>
  C40: what the program asks of a client, it understands when the client comes back. For a plain request
  none of whose own arguments is an encoded spelling of an argument of the program, the URL
  is built, and a request with its query gives back the identifier of the request, the token,
  and a redirect to the path of the original request that the redirect filter leaves as it is.
\<close>

theorem VerifyUrl_roundtrip:
  assumes "plain_url (r_url (w_req w))" "length (d_id (w_data w)) = 16"
    and "\<forall>a \<in> set verify_names. unshadowed (fst (ParseRawQuery (u_rawquery (r_url (w_req w))))) a"
  shows "\<exists>u w' redirect. VerifyUrl env reg token w = (Inr u, w') \<and> RedirectUrl env reg w = Inr redirect \<and>
    plain_url redirect \<and> u_path redirect = u_path (r_url (w_req w)) \<and>
    (\<forall>r. u_rawquery (r_url r) = u_rawquery u \<longrightarrow>
       GetVerifyInformation env r reg = Inr (d_id (w_data w), url_string redirect, token))"
proof -
  obtain redirect where red: "RedirectUrl env reg w = Inr redirect" "plain_url redirect"
      "u_path redirect = u_path (r_url (w_req w))"
    using RedirectUrl_plain [OF assms(1)] by blast
  have "GetVerifyInformation env r reg = Inr (d_id (w_data w), url_string redirect, token)"
    if "u_rawquery (r_url r) = EncodeRawQuery (set_args (verify_args reg (url_string redirect) (d_id (w_data w))
      token t) (fst (ParseRawQuery (u_rawquery (r_url (w_req w))))))" for r t
    by (rule verify_info_of_args [OF raw_map_parse assms(3,2) EnsureNoOpenRedirect_plain [OF red(2)] that])
  then show ?thesis using red by (simp add: VerifyUrl_def now_def)
qed

theorem VerifyUrl_roundtrip_witness:
  "\<exists>u w' redirect. VerifyUrl sample_env sample_reg ''t'' sample_world = (Inr u, w') \<and>
     GetVerifyInformation sample_env (sample_request\<lparr>r_url := u\<rparr>) sample_reg = Inr (replicate 16 1, url_string redirect, ''t'')"
proof -
  have "plain_url (r_url (w_req sample_world))"
    by (simp add: plain_url_def plain_path_def sample_world_def sample_request_def empty_url_def plain_char_def
        HasPrefix_def url_clean_def)
  moreover have "unshadowed (fst (ParseRawQuery (u_rawquery (r_url (w_req sample_world))))) a" if "a \<in> set verify_names" for a
    using that by (auto simp: unshadowed_def verify_names_def sample_world_def sample_request_def empty_url_def
        ParseRawQuery_def parse_query_loop.simps)
  ultimately show ?thesis
    using VerifyUrl_roundtrip [of sample_world sample_env sample_reg "''t''"]
    by (fastforce simp: sample_world_def sample_data_def)
qed

lemma hd_sort: "k \<in> set ks \<Longrightarrow> \<forall>j \<in> set ks. k \<le> j \<Longrightarrow> \<exists>t. sort ks = k # t"
proof (cases "sort ks")
  case (Cons a t)
  assume k: "k \<in> set ks" "\<forall>j \<in> set ks. k \<le> j"
  have "sorted (a # t)" "set (a # t) = set ks" using Cons by (metis sorted_sort, metis set_sort)
  then have "a = k" using k by (metis antisym insertE list.set_intros(1) list.simps(15) sorted_simps(2))
  then show ?thesis using Cons by simp
next
  case Nil
  then show "k \<in> set ks \<Longrightarrow> ?thesis" by (metis set_sort list.set(1) empty_iff)
qed

lemma query_of_raw_first:
  assumes "raw_map v" "mget v k' = Some (x # xs)" "QueryUnescape k' = Some k" "QueryUnescape x = Some y"
    and "\<forall>j. mget v j \<noteq> None \<longrightarrow> k' \<le> j"
  shows "values_get (url_query (EncodeRawQuery v)) k = y"
proof -
  obtain t where "sort (mkeys v) = k' # t"
    using hd_sort [of k' "mkeys v"] assms(2,5) by (auto simp: set_mkeys_iff)
  then show ?thesis
    unfolding values_get_def query_of_raw [OF assms(1)] using assms(2-4) by (simp add: mget_or_def map_filter_def)
qed

text \<open>
  without that condition the round trip fails. The own arguments of a request are copied in front of
  the ones that the program sets, and an argument whose name is an encoded spelling of one of these is read in its
  place: a link to the site with such an argument decides where the client is sent after it has solved
  the challenge, together with the weakness of the redirect filter to another host.
\<close>

theorem VerifyUrl_shadowed:
  assumes "r_url (w_req w) = empty_url\<lparr>u_path := ''/'', u_rawquery := ''%5F_goaway_redirect=http://a//evil.com/''\<rparr>"
    and "length (d_id (w_data w)) = 16" "e_authority env ''a'' = Inr (None, ''a'')"
    and "VerifyUrl env reg token w = (Inr u, w')" "u_rawquery (r_url r) = u_rawquery u"
  shows "GetVerifyInformation env r reg = Inr (d_id (w_data w), ''//evil.com/'', token)"
proof -
  let ?k = "''%5F_goaway_redirect''" and ?x = "''http://a//evil.com/''"
  have parse: "fst (ParseRawQuery ''%5F_goaway_redirect=http://a//evil.com/'') = [(?k, [?x])]"
    by (simp add: ParseRawQuery_pairs map_filter_def decoded_def add_pairs_def values_add_def mset_key_def mget_or_def)
  obtain redirect t where u: "u_rawquery u =
      EncodeRawQuery (set_args (verify_args reg redirect (d_id (w_data w)) token t) [(?k, [?x])])"
    using assms(4) by (auto simp: VerifyUrl_def now_def assms(1) parse split: sum.splits)
  let ?v = "set_args (verify_args reg redirect (d_id (w_data w)) token t) [(?k, [?x])]"
  have raw1: "raw_map [(?k, [?x])]" using raw_map_parse [of "''%5F_goaway_redirect=http://a//evil.com/''"] unfolding parse .
  have raw: "raw_map ?v" by (rule set_args_raw [OF raw1]) (use verify_args_names in blast)
  have dec: "QueryUnescape ?k = Some QueryArgRedirect" "QueryUnescape ?x = Some ?x" by code_simp+
  have "unshadowed ?v a" if "a \<in> set verify_names" "a \<noteq> QueryArgRedirect" for a
    by (rule set_args_unshadowed)
      (use that dec(1) verify_args_names in \<open>auto simp: unshadowed_def mget_Cons verify_names_def split: if_splits\<close>)
  then have g: "values_get (url_query (u_rawquery (r_url r))) a = y"
    if "a \<in> set verify_names" "a \<noteq> QueryArgRedirect" "mget ?v a = Some [QueryEscape y]" for a y
    using query_of_raw_set [OF raw that(3)] that(1,2) by (simp add: values_get_def assms(5) u)
  have k: "mget ?v ?k = Some [?x]"
    by (simp add: set_args_def verify_args_def values_set_def mget_Cons arg_defs)
  have first: "\<forall>j. mget ?v j \<noteq> None \<longrightarrow> ?k \<le> j"
    by (auto simp: set_args_def verify_args_def values_set_def mget_Cons arg_defs split: if_splits)
  have r: "values_get (url_query (u_rawquery (r_url r))) QueryArgRedirect = ?x"
    unfolding assms(5) u by (rule query_of_raw_first [OF raw k dec first])
  note g [OF _ _ verify_args_get(1), simp] g [OF _ _ verify_args_get(3), simp] g [OF _ _ verify_args_get(4), simp] r [simp]
  show ?thesis
    using assms(2) ensure_lets_host_through [of "e_authority env"] assms(3)
    by (simp add: GetVerifyInformation_def Let_def verify_names_def DecodedLen_def)
qed

theorem VerifyUrl_shadowed_witness:
  "\<exists>u w'. VerifyUrl sample_env sample_reg ''t'' (sample_world\<lparr>w_req := sample_request\<lparr>r_url := empty_url\<lparr>u_path := ''/'',
        u_rawquery := ''%5F_goaway_redirect=http://a//evil.com/''\<rparr>\<rparr>\<rparr>) = (Inr u, w') \<and>
     GetVerifyInformation sample_env (sample_request\<lparr>r_url := u\<rparr>) sample_reg = Inr (replicate 16 1, ''//evil.com/'', ''t'')"
proof -
  define w where "w = sample_world\<lparr>w_req := sample_request\<lparr>r_url := empty_url\<lparr>u_path := ''/'',
        u_rawquery := ''%5F_goaway_redirect=http://a//evil.com/''\<rparr>\<rparr>\<rparr>"
  have "plain_url (r_url (w_req w))"
    by (simp add: w_def plain_url_def plain_path_def empty_url_def plain_char_def HasPrefix_def url_clean_def ctl_byte_def)
  then obtain redirect where "RedirectUrl sample_env sample_reg w = Inr redirect" using RedirectUrl_plain by blast
  then obtain u w' where u: "VerifyUrl sample_env sample_reg ''t'' w = (Inr u, w')"
    by (auto simp: VerifyUrl_def now_def)
  have "GetVerifyInformation sample_env (sample_request\<lparr>r_url := u\<rparr>) sample_reg = Inr (d_id (w_data w), ''//evil.com/'', ''t'')"
    by (rule VerifyUrl_shadowed [OF _ _ _ u]) (simp_all add: w_def sample_world_def sample_data_def sample_env_def)
  then show ?thesis using u by (auto simp: w_def sample_world_def sample_data_def)
qed

subsection \<open>The handler\<close>

lemma VerifyHandlerChallengeResponseFunc_writes:
  "VerifyHandlerChallengeResponseFunc env r err redirect w = Ret () w' \<Longrightarrow> \<exists>es. writes es w w'"
  "VerifyHandlerChallengeResponseFunc env VerifyResultOK None redirect w = Ret () w' \<Longrightarrow> writes [Redirected redirect 307] w w'"
proof -
  have e: "ErrorPage env c e x w = Ret () w' \<Longrightarrow> \<exists>es. writes es w w'" for c e x
    using ErrorPage_cases [of env c e x w] by auto
  have r: "writes [Redirected u 307] w (emit (Redirected u 307) (ResponseHeaders env w))" for u
    using writes_step(4) [OF ResponseHeaders_writes] by simp
  then have r': "\<exists>es. writes es w (emit (Redirected u 307) (ResponseHeaders env w))" for u by blast
  show "VerifyHandlerChallengeResponseFunc env r err redirect w = Ret () w' \<Longrightarrow> \<exists>es. writes es w w'"
    using e r' by (auto simp: VerifyHandlerChallengeResponseFunc_def split: option.splits if_splits)
  show "VerifyHandlerChallengeResponseFunc env VerifyResultOK None redirect w = Ret () w' \<Longrightarrow>
      writes [Redirected redirect 307] w w'"
    using r by (auto simp: VerifyHandlerChallengeResponseFunc_def)
qed

lemma IssueChallengeToken_effect:
  obtains c where "tc_key c = k" "tc_result c = result" "tc_ok c = ok"
    "d_map (w_data (IssueChallengeToken env reg k result until ok w)) = mset_key (reg_name reg) c (d_map (w_data w))"
    "d_verify (w_data (IssueChallengeToken env reg k result until ok w)) = d_verify (w_data w)"
    "w_events (IssueChallengeToken env reg k result until ok w) = w_events w"
  by (rule that [of "\<lparr>tc_key = k, tc_result = result, tc_ok = ok, tc_expiry = Unix until, tc_not_before = 0,
      tc_issued_at = Unix (e_now env (w_ticks w))\<rparr>"]) (simp_all add: IssueChallengeToken_def now_def)

text \<open>
  C3: the handler of the verification URL issues a token only for a verified result. When it returns,
  either the tokens and results of the request are as before, or the arguments were readable, the
  verifier of the challenge answered OK without an error for the key of this request and the token of
  the client, and then exactly the token of this challenge was added, under that key, the result OK
  was recorded, and the only answer is the redirect that the arguments name.
\<close>

theorem verify_handler_sound:
  assumes "VerifyHandlerFunc env reg VerifyHandlerChallengeResponseFunc w = Ret () w'"
  defines "k \<equiv> GetChallengeKeyForRequest env reg (Expiration (d_time (w_data w)) (reg_duration reg)) w"
  shows "d_map (w_data w') = d_map (w_data w) \<and> d_verify (w_data w') = d_verify (w_data w) \<or>
    (\<exists>i redirect token verify w1 w2 c. GetVerifyInformation env (w_req w) reg = Inr (i, redirect, token) \<and>
       Verify env reg = Some verify \<and> w_req w1 = w_req w \<and> verify k (bytes_of token) w1 = ((VerifyResultOK, None), w2) \<and>
       w_events w' = w_events w @ [Redirected redirect 307] \<and>
       d_verify (w_data w') = mset_key (reg_id reg) VerifyResultOK (d_verify (w_data w)) \<and>
       d_map (w_data w') = mset_key (reg_name reg) c (d_map (w_data w)) \<and>
       tc_key c = k \<and> tc_result c = bytes_of token \<and> tc_ok c)"
proof (cases "GetVerifyInformation env (w_req w) reg")
  case (Inl e)
  then have "\<exists>es. writes es (ChallengeFailed reg w) w'"
    using assms(1) VerifyHandlerChallengeResponseFunc_writes(1) by (fastforce simp: VerifyHandlerFunc_def)
  then show ?thesis by (auto simp: writes_def callback_defs)
next
  case (Inr info)
  obtain i redirect token where info: "info = (i, redirect, token)" by (cases info)
  define w1 where "w1 = set_data (\<lambda>d. d\<lparr>d_id := i\<rparr>) w"
  have k: "GetChallengeKeyForRequest env reg (Expiration (d_time (w_data w1)) (reg_duration reg)) w1 = k"
    by (simp add: k_def w1_def GetChallengeKeyForRequest_def)
  have data: "w_req w1 = w_req w" "w_events w1 = w_events w" "d_map (w_data w1) = d_map (w_data w)"
      "d_verify (w_data w1) = d_verify (w_data w)" by (simp_all add: w1_def)
  obtain verify where v: "Verify env reg = Some verify"
    using assms(1) Inr info by (cases "Verify env reg") (auto simp: VerifyHandlerFunc_def Let_def)
  obtain r err w2 where vr: "verify k (bytes_of token) w1 = ((r, err), w2)" by (metis prod.exhaust_sel)
  have w2: "w2 = w1 \<or> w2 = tick w1" using Verify_world [OF v vr] .
  note run = assms(1) [unfolded VerifyHandlerFunc_def Inr info sum.case prod.case Let_def w1_def [symmetric] k v option.case vr]
  show ?thesis
  proof (cases "err = None \<and> r = VerifyResultOK")
    case True
    define w3 where "w3 = IssueChallengeToken env reg k (bytes_of token)
      (Expiration (d_time (w_data w1)) (reg_duration reg)) True w2"
    define w4 where "w4 = ChallengePassed reg (set_data (\<lambda>d. d\<lparr>d_verify := mset_key (reg_id reg) r (d_verify d)\<rparr>) w3)"
    have "writes [Redirected redirect 307] w4 w'"
      using run True VerifyHandlerChallengeResponseFunc_writes(2) by (simp add: w3_def w4_def)
    then have w': "w_data w' = w_data w4" "w_events w' = w_events w4 @ [Redirected redirect 307]"
      by (simp_all add: writes_def)
    obtain c where c: "tc_key c = k" "tc_result c = bytes_of token" "tc_ok c = True"
        "d_map (w_data w3) = mset_key (reg_name reg) c (d_map (w_data w2))"
        "d_verify (w_data w3) = d_verify (w_data w2)" "w_events w3 = w_events w2"
      unfolding w3_def by (rule IssueChallengeToken_effect)
    have "w_data w2 = w_data w1" "w_events w2 = w_events w1" using w2 by auto
    then have f: "w_events w' = w_events w @ [Redirected redirect 307]"
        "d_verify (w_data w') = mset_key (reg_id reg) VerifyResultOK (d_verify (w_data w))"
        "d_map (w_data w') = mset_key (reg_name reg) c (d_map (w_data w))"
      using w' c True data by (simp_all add: w4_def callback_defs)
    have "verify k (bytes_of token) w1 = ((VerifyResultOK, None), w2)" using vr True by simp
    moreover have "GetVerifyInformation env (w_req w) reg = Inr (i, redirect, token)" using Inr info by simp
    ultimately show ?thesis using v data(1) f c(1,2) c(3) [unfolded eq_True] by blast
  next
    case False
    have "\<exists>es. writes es (ChallengeFailed reg w2) w'"
      using run False VerifyHandlerChallengeResponseFunc_writes(1) Verify_OK_or_Fail [OF v vr]
      by (cases err) auto
    then show ?thesis using data w2 by (auto simp: writes_def callback_defs)
  qed
qed

definition sample_refresh :: registration where
  "sample_refresh = sample_reg\<lparr>reg_runtime := RRefresh ''meta''\<rparr>"

definition sample_issued :: string where
  "sample_issued = key_issue (GetChallengeKeyForRequest sample_env sample_refresh (Expiration sample_epoch hour) sample_world)"

definition sample_return :: world where
  "sample_return = sample_world\<lparr>w_req := sample_request\<lparr>r_url := empty_url\<lparr>u_path := ''/c/verify-challenge'',
     u_rawquery := EncodeRawQuery (set_args (verify_args sample_refresh ''/'' (replicate 16 1) sample_issued 0) [])\<rparr>\<rparr>\<rparr>"

lemma sample_return_info:
  "GetVerifyInformation sample_env (w_req sample_return) sample_refresh = Inr (replicate 16 1, ''/'', sample_issued)"
proof (rule verify_info_of_args [where t = 0])
  have "plain_path ''/''" by (simp add: plain_path_def plain_char_def HasPrefix_def)
  then show "EnsureNoOpenRedirect (e_authority sample_env) ''/'' = Inr ''/''"
    using EnsureNoOpenRedirect_plain [of "empty_url\<lparr>u_path := ''/''\<rparr>" "e_authority sample_env"]
      url_string_plain [of "''/''" "[]"]
    by (simp add: plain_url_def empty_url_def url_clean_def)
qed (simp_all add: raw_map_def mget_or_def unshadowed_def verify_names_def sample_return_def)

theorem verify_handler_sound_witness:
  "\<exists>w'. VerifyHandlerFunc sample_env sample_refresh VerifyHandlerChallengeResponseFunc sample_return = Ret () w' \<and>
     w_events w' = [Redirected ''/'' 307] \<and> (\<exists>c. d_map (w_data w') = [(''c'', c)] \<and> tc_ok c)"
proof -
  have k: "GetChallengeKeyForRequest sample_env sample_refresh u (set_data (\<lambda>d. d\<lparr>d_id := i\<rparr>) sample_return) =
      GetChallengeKeyForRequest sample_env sample_refresh u sample_world" for u i
    by (simp add: GetChallengeKeyForRequest_def sample_return_def sample_world_def)
  have v: "key_verify (GetChallengeKeyForRequest sample_env sample_refresh (Expiration sample_epoch hour) sample_world)
      (bytes_of sample_issued) = (VerifyResultOK, None)"
    unfolding sample_issued_def by (rule key_verify_issue)
      (simp add: valid_key_size_def GetChallengeKeyForRequest_def Let_def KeySize_def)
  have d: "d_time (w_data sample_return) = sample_epoch" "reg_duration sample_refresh = hour"
      "reg_runtime sample_refresh = RRefresh ''meta''" "d_map (w_data sample_return) = []"
    by (simp_all add: sample_return_def sample_refresh_def sample_world_def sample_data_def)
  have e: "w_events sample_return = []" "reg_name sample_refresh = ''c''"
    by (simp_all add: sample_return_def sample_refresh_def sample_world_def)
  obtain w' where w': "VerifyHandlerFunc sample_env sample_refresh VerifyHandlerChallengeResponseFunc sample_return = Ret () w'"
      "d_map (w_data w') \<noteq> []"
    by (rule that) (auto simp: VerifyHandlerFunc_def sample_return_info Let_def Verify.simps d k v
      VerifyHandlerChallengeResponseFunc_def IssueChallengeToken_def now_def callback_defs
      ResponseHeaders_writes [unfolded writes_def] mset_key_def)
  show ?thesis
    using verify_handler_sound [OF w'(1)] w' d(4) e
    by (auto simp: sample_return_info mset_key_def)
qed

text \<open>
  the retry for a client that changed from IPv4 to IPv6 cannot succeed. The handler answers with a
  redirect to its own URL without the arguments of the program, and the request for that URL is
  refused, because it does not name the challenge any more.
\<close>

theorem happy_eyeballs_retry_refused:
  assumes "errors_is e ErrMismatchedTokenHappyEyeballs" "reg_name reg \<noteq> []" "r_url r = retry_url (w_req w)"
  shows "VerifyHandlerChallengeResponseFunc env result (Some e) redirect w =
      Ret () (emit (Redirected (url_string (retry_url (w_req w))) 307) (ResponseHeaders env w)) \<and>
    (\<exists>e'. GetVerifyInformation env r reg = Inl e')"
proof -
  define q where "q = strip_args (url_query (u_rawquery (r_url (w_req w))))"
  define ref where "ref = values_get (url_query (u_rawquery (r_url (w_req w)))) QueryArgReferer"
  define q' where "q' = (if ref \<noteq> [] then values_set QueryArgReferer ref q else q)"
  have wf: "wf_map q'" by (simp add: q'_def q_def strip_args_def values_set_def)
  have p: "HasPrefix QueryArgChallenge QueryArgPrefix" "QueryArgChallenge \<noteq> QueryArgReferer"
    by (simp_all add: arg_defs HasPrefix_def)
  then have n: "mget q' QueryArgChallenge = None"
    by (simp add: q'_def q_def strip_args_def values_set_def)
  have "u_rawquery (r_url r) = values_encode q'"
    by (simp add: assms(3) retry_url_def q'_def q_def ref_def Let_def)
  then have "mget (url_query (u_rawquery (r_url r))) QueryArgChallenge = None"
    using values_encode_query [OF wf] n by (simp add: mget_or_def)
  then have "values_get (url_query (u_rawquery (r_url r))) QueryArgChallenge = []"
    by (simp add: values_get_def mget_or_def)
  then show ?thesis
    using assms(1,2) by (auto simp: VerifyHandlerChallengeResponseFunc_def GetVerifyInformation_def Let_def)
qed

theorem happy_eyeballs_retry_refused_witness:
  "\<exists>e'. GetVerifyInformation sample_env (sample_request\<lparr>r_url := retry_url sample_request\<rparr>) sample_reg = Inl e'"
  using happy_eyeballs_retry_refused [of ErrMismatchedTokenHappyEyeballs sample_reg
      "sample_request\<lparr>r_url := retry_url sample_request\<rparr>" sample_world sample_env VerifyResultFail "[]"]
  by (simp add: sample_world_def)

end
