(* ===== verification/Runtimes.thy ===== *)
theory Runtimes
  imports Helper
begin

unbundle bit_operations_syntax

text \<open>
  The runtimes of challenges (the packages under \<open>lib/challenge\<close>): how each fills a registration in,
  what it does when its challenge is issued, and the handlers it serves under the path of the
  registration.
\<close>

section \<open>Filling a registration in\<close>

text \<open>
  A YAML node is known by what decoding it into a structure of parameters does to that structure;
  the decoder belongs to a library.
\<close>

record dnsbl_params =
  dp_probability :: rat
  dp_host :: string
  dp_timeout :: duration
  dp_decay :: duration

record http_settings =
  hs_probability :: rat
  hs_method :: string
  hs_code :: nat
  hs_cookie :: string
  hs_url :: string

record wasm_settings =
  ws_path :: string
  ws_loader :: string
  ws_runtime :: string
  ws_settings :: "(string, string) gomap"
  ws_native :: bool
  ws_probability :: rat

record yaml_node =
  y_dnsbl :: "dnsbl_params \<Rightarrow> go_error + dnsbl_params"
  y_http :: "http_settings \<Rightarrow> go_error + http_settings"
  y_preload :: "duration \<Rightarrow> go_error + duration"
  y_refresh :: "string \<Rightarrow> go_error + string"
  y_wasm :: "wasm_settings \<Rightarrow> go_error + wasm_settings"

definition decode_params :: "(yaml_node \<Rightarrow> 'p \<Rightarrow> go_error + 'p) \<Rightarrow> yaml_node option \<Rightarrow> 'p \<Rightarrow> go_error + 'p" where
  "decode_params dec parameters defaults =
     (case parameters of None \<Rightarrow> Inr defaults | Some node \<Rightarrow> dec node defaults)"

definition clamp_probability :: "rat \<Rightarrow> rat \<Rightarrow> rat" where
  "clamp_probability def p = (if p \<le> 0 then def else if p > 1 then 1 else p)"

type_synonym fill = "yaml_node option \<Rightarrow> registration \<Rightarrow> go_error + registration"

definition fill_cookie :: fill where
  "fill_cookie parameters reg = Inr (reg\<lparr>reg_class := ClassBlocking, reg_runtime := RCookie\<rparr>)"

definition dnsbl_defaults :: dnsbl_params where
  "dnsbl_defaults = \<lparr>dp_probability = 1 / 10, dp_host = ''dnsbl.dronebl.org'', dp_timeout = second * 1, dp_decay = hour * 1\<rparr>"

definition fill_dnsbl :: fill where
  "fill_dnsbl parameters reg =
     (case decode_params y_dnsbl parameters dnsbl_defaults of
        Inl e \<Rightarrow> Inl e
      | Inr params \<Rightarrow>
          (if dp_host params = [] then Inl (Err ''empty host'')
           else Inr (reg\<lparr>reg_class := ClassTransparent, reg_probability := clamp_probability (1 / 5) (dp_probability params),
             reg_runtime := RDnsbl (dp_host params) (dp_decay params) (dp_timeout params)\<rparr>)))"

definition http_defaults :: http_settings where
  "http_defaults = \<lparr>hs_probability = 1 / 5, hs_method = ''GET'', hs_code = 200, hs_cookie = [], hs_url = []\<rparr>"

definition fill_http :: fill where
  "fill_http parameters reg =
     (case decode_params y_http parameters http_defaults of
        Inl e \<Rightarrow> Inl e
      | Inr params \<Rightarrow>
          (if hs_url params = [] then Inl (Err ''empty url'')
           else Inr (reg\<lparr>reg_class := ClassTransparent, reg_probability := clamp_probability (1 / 5) (hs_probability params),
             reg_runtime := RHttp \<lparr>hp_method = hs_method params, hp_code = hs_code params, hp_cookie = hs_cookie params,
               hp_url = hs_url params\<rparr>\<rparr>)))"

definition fill_preload :: fill where
  "fill_preload parameters reg =
     (case decode_params y_preload parameters (second * 2) of
        Inl e \<Rightarrow> Inl e
      | Inr deadline \<Rightarrow>
          Inr (reg\<lparr>reg_class := ClassTransparent, reg_key_headers := MinimalKeyHeaders, reg_runtime := RPreloadLink deadline\<rparr>))"

definition fill_refresh :: fill where
  "fill_refresh parameters reg =
     (case decode_params y_refresh parameters ''header'' of
        Inl e \<Rightarrow> Inl e
      | Inr mode \<Rightarrow> Inr (reg\<lparr>reg_class := ClassBlocking, reg_runtime := RRefresh mode\<rparr>))"

definition fill_resource_load :: fill where
  "fill_resource_load parameters reg = Inr (reg\<lparr>reg_class := ClassBlocking, reg_runtime := RResourceLoad\<rparr>)"

definition wasm_defaults :: wasm_settings where
  "wasm_defaults = \<lparr>ws_path = [], ws_loader = [], ws_runtime = [], ws_settings = [], ws_native = True, ws_probability = 1 / 10\<rparr>"

text \<open>
  The assets (their file system, the reading of the module, its compilation and the file server of the
  static files) are the argument \<open>assets\<close>: it fails or not, for a path and the name of a module.
\<close>

definition fill_js :: "(string \<Rightarrow> string \<Rightarrow> bool \<Rightarrow> go_error option) \<Rightarrow> fill" where
  "fill_js assets parameters reg =
     (case decode_params y_wasm parameters wasm_defaults of
        Inl e \<Rightarrow> Inl e
      | Inr params \<Rightarrow>
          (let path = (if ws_path params = [] then reg_name reg else ws_path params) in
           case assets path (ws_runtime params) (ws_native params) of
             Some e \<Rightarrow> Inl e
           | None \<Rightarrow>
               Inr (reg\<lparr>reg_class := ClassBlocking, reg_probability := clamp_probability (1 / 10) (ws_probability params),
                 reg_runtime := RWasm \<lparr>wp_runtime = ws_runtime params, wp_loader = ws_loader params,
                   wp_settings = ws_settings params\<rparr>\<rparr>)))"

definition Runtimes :: "(string \<Rightarrow> string \<Rightarrow> bool \<Rightarrow> go_error option) \<Rightarrow> string \<Rightarrow> fill option" where
  "Runtimes assets k =
     (if k = ''cookie'' then Some fill_cookie
      else if k = ''dnsbl'' then Some fill_dnsbl
      else if k = ''http'' then Some fill_http
      else if k = ''preload-link'' then Some fill_preload
      else if k = ''refresh'' then Some fill_refresh
      else if k = ''resource-load'' then Some fill_resource_load
      else if k = ''js'' then Some (fill_js assets)
      else None)"

section \<open>Block lists (\<open>utils/dnsbl.go\<close>, \<open>lib/challenge/dnsbl/dnsbl.go\<close>)\<close>

definition ResponseGood :: byte where "ResponseGood = 0"
definition ResponseUnknown :: byte where "ResponseUnknown = 255"

definition response_Bad :: "byte \<Rightarrow> bool" where
  "response_Bad r \<longleftrightarrow> r \<noteq> ResponseGood \<and> r \<noteq> ResponseUnknown"

definition nibbleTable :: bytes where
  "nibbleTable = bytes_of ''0123456789abcdef''"

text \<open>\<open>net.IP.To4\<close> and \<open>net.IP.To16\<close>; \<open>None\<close> is a nil address.\<close>

definition v4_prefix :: bytes where
  "v4_prefix = replicate 10 0 @ [0xff, 0xff]"

definition To4 :: "bytes \<Rightarrow> bytes option" where
  "To4 ip =
     (if length ip = 4 then Some ip
      else if length ip = 16 \<and> take 12 ip = v4_prefix then Some (drop 12 ip)
      else None)"

definition To16 :: "bytes \<Rightarrow> bytes option" where
  "To16 ip = (if length ip = 4 then Some (v4_prefix @ ip) else if length ip = 16 then Some ip else None)"

text \<open>The name that is looked up: the parts of the address in reverse, then the zone.\<close>

definition dnsbl_name :: "string \<Rightarrow> bytes \<Rightarrow> string" where
  "dnsbl_name target ip =
     (case To4 ip of
        Some ip4 \<Rightarrow> concat (map (\<lambda>b. decimal (unat b) @ ''.'') (rev ip4))
      | None \<Rightarrow>
          concat (map (\<lambda>b. string_of [nibbleTable ! unat (b AND 0xf)] @ ''.'' @
            string_of [nibbleTable ! unat (drop_bit 4 b)] @ ''.'') (rev ip))) @ target"

text \<open>The loop over the addresses returns in its first round; a first address that is not IPv4 panics.\<close>

definition dnsbl_Lookup :: "env \<Rightarrow> string \<Rightarrow> bytes \<Rightarrow> world \<Rightarrow> (byte \<times> go_error option, world) outcome" where
  "dnsbl_Lookup env target ip w =
     (case e_lookup_ip env (w_ticks w) (dnsbl_name target ip) of
        Inl e \<Rightarrow> Ret (ResponseUnknown, Some e) (tick w)
      | Inr [] \<Rightarrow> Ret (ResponseUnknown, None) (tick w)
      | Inr (a # _) \<Rightarrow>
          (case To4 a of
             None \<Rightarrow> Panic (Err ''index out of range'') (tick w)
           | Some ip4 \<Rightarrow> Ret (last ip4, None) (tick w)))"

definition dnsbl_lookup ::
    "env \<Rightarrow> int \<Rightarrow> string \<Rightarrow> duration \<Rightarrow> bytes \<Rightarrow> world \<Rightarrow> (byte \<times> go_error option, world) outcome" where
  "dnsbl_lookup env i host ttl ip w0 =
     (let key = (i, case To16 ip of None \<Rightarrow> replicate 16 0 | Some a \<Rightarrow> a) in
      case now env w0 of (t, w1) \<Rightarrow>
        (case decay_get t key (w_dnsbl w1) of
           (Some result, m) \<Rightarrow> Ret (result, None) (w1\<lparr>w_dnsbl := m\<rparr>)
         | (None, m) \<Rightarrow>
             obind (dnsbl_Lookup env host ip (w1\<lparr>w_dnsbl := m\<rparr>)) (\<lambda>(result, err) w2.
               case now env w2 of (t', w3) \<Rightarrow>
                 Ret (result, err) (w3\<lparr>w_dnsbl := decay_set t' key result ttl (w_dnsbl w3)\<rparr>))))"

section \<open>Issuing\<close>

definition issue_cookie :: "env \<Rightarrow> registration \<Rightarrow> key \<Rightarrow> go_time \<Rightarrow> world \<Rightarrow> (VerifyResult, world) outcome" where
  "issue_cookie env reg k expiry w0 =
     (let w1 = IssueChallengeToken env reg k [] expiry True w0 in
      case RedirectUrl env reg w1 of
        Inl e \<Rightarrow> Ret VerifyResultFail w1
      | Inr uri \<Rightarrow> Ret VerifyResultNone (emit (Redirected (url_string uri) 307) (ResponseHeaders env w1)))"

definition issue_dnsbl ::
    "env \<Rightarrow> registration \<Rightarrow> string \<Rightarrow> duration \<Rightarrow> key \<Rightarrow> go_time \<Rightarrow> world \<Rightarrow> (VerifyResult, world) outcome" where
  "issue_dnsbl env reg host ttl k expiry w0 =
     obind (dnsbl_lookup env (reg_id reg) host ttl (AsSlice (Unmap (fst (d_remote (w_data w0))))) w0)
       (\<lambda>(result, err) w1.
         if response_Bad result
         then Ret VerifyResultNotOK (IssueChallengeToken env reg k [] expiry False w1)
         else Ret VerifyResultOK (IssueChallengeToken env reg k [] expiry True w1))"

text \<open>
  The request that the HTTP runtime sends: the headers of the client but five, the headers of the
  program and a description of the request. A left value is a panic.
\<close>

definition exclude_headers :: "string list" where
  "exclude_headers = [''Host'', ''Content-Length'', ''Upgrade'', ''Accept-Encoding'', ''Range'']"

definition backend_headers :: "env \<Rightarrow> world \<Rightarrow> go_error + header" where
  "backend_headers env w =
     (let r = w_req w;
          h = fold (\<lambda>(k, v) h. if k \<in> set exclude_headers then h else mset_key k v h) (r_header r) []
      in case RequestHeaders env (w_data w) h of
           Inl e \<Rightarrow> Inl e
         | Inr h1 \<Rightarrow>
             Inr (header_set (header_set (header_set (header_set h1 ''X-Away-Method'' (r_method r))
               ''X-Away-Host'' (r_host r)) ''X-Away-Path'' (u_path (r_url r))) ''X-Away-Query'' (u_rawquery (r_url r))))"

definition NewRequest :: "env \<Rightarrow> string \<Rightarrow> string \<Rightarrow> go_error + http_request" where
  "NewRequest env method u =
     (let method = (if method = [] then ''GET'' else method) in
      if \<not> isToken method then Inl (Err ''net/http: invalid method'')
      else (case url_parse (e_authority env) u of
          Inl e \<Rightarrow> Inl e
        | Inr uri \<Rightarrow>
            Inr \<lparr>r_method = method, r_host = u_host uri, r_url = uri, r_header = [], r_remote = [], r_tls = False,
                 r_proto = ''HTTP/1.1'', r_proto_major = 1, r_body = []\<rparr>))"

definition issue_http ::
    "env \<Rightarrow> registration \<Rightarrow> http_params \<Rightarrow> key \<Rightarrow> go_time \<Rightarrow> world \<Rightarrow> (VerifyResult, world) outcome" where
  "issue_http env reg p k expiry w =
     (if hp_cookie p \<noteq> [] \<and> CookiesNamed (r_header (w_req w)) (hp_cookie p) = [] then Ret VerifyResultSkip w
      else (case (if hp_cookie p \<noteq> [] then bindAuthValue env p k (w_req w) else Inr []) of
          Inl e \<Rightarrow> Ret VerifyResultFail w
        | Inr h \<Rightarrow>
            (case NewRequest env (hp_method p) (hp_url p) of
               Inl e \<Rightarrow> Ret VerifyResultFail w
             | Inr request \<Rightarrow>
                 (case backend_headers env w of
                    Inl e \<Rightarrow> Panic e w
                  | Inr headers \<Rightarrow>
                      (case e_do env (w_ticks w) (request\<lparr>r_header := headers\<rparr>) of
                         Inl e \<Rightarrow> Ret VerifyResultFail (tick w)
                       | Inr code \<Rightarrow>
                           (if code \<noteq> hp_code p
                            then Ret VerifyResultNotOK (IssueChallengeToken env reg k h expiry False (tick w))
                            else Ret VerifyResultOK (IssueChallengeToken env reg k h expiry True (tick w))))))))"

definition issue_preload ::
    "env \<Rightarrow> registration \<Rightarrow> key \<Rightarrow> world \<Rightarrow> (VerifyResult, world) outcome" where
  "issue_preload env reg k w =
     (if r_proto_major (w_req w) < 2 \<and> \<not> w_pusher w then Ret VerifyResultSkip w
      else (case VerifyUrl env reg (key_issue k) w of
          (Inl e, w1) \<Rightarrow> Ret VerifyResultFail w1
        | (Inr uri, w1) \<Rightarrow>
            (let q = mdel QueryArgRedirect (fst (ParseRawQuery (u_rawquery uri)));
                 uri = uri\<lparr>u_rawquery := EncodeRawQuery q,
                   u_scheme := GetRequestScheme (r_header (w_req w1)) (r_tls (w_req w1)), u_host := r_host (w_req w1)\<rparr>;
                 w2 = set_header ''Link'' (''<'' @ url_string uri @ ''>; rel='' @ [CHR 0x22] @ ''preload'' @ [CHR 0x22] @
                   ''; as='' @ [CHR 0x22] @ ''style'' @ [CHR 0x22] @ ''; fetchpriority=high'') w1;
                 w3 = emit (WriteHeader 103) w2;
                 result = e_await env (w_ticks w3) (key_issue k);
                 w4 = del_header ''Link'' (tick w3)
             in if result_Ok result then Ret VerifyResultOK w4
                else if result = VerifyResultNone then Ret VerifyResultFail w4
                else Ret result w4)))"

text \<open>\<open>json.Marshal\<close> of a text of ASCII characters, as URLs are.\<close>

definition json_char :: "char \<Rightarrow> string" where
  "json_char c =
     (if c = CHR 0x22 then [CHR 0x5C, CHR 0x22]
      else if c = CHR 0x5C then [CHR 0x5C, CHR 0x5C]
      else if c = CHR 0x08 then [CHR 0x5C, CHR ''b'']
      else if c = CHR 0x0C then [CHR 0x5C, CHR ''f'']
      else if c = CHR 0x0A then [CHR 0x5C, CHR ''n'']
      else if c = CHR 0x0D then [CHR 0x5C, CHR ''r'']
      else if c = CHR 0x09 then [CHR 0x5C, CHR ''t'']
      else if (of_char c :: nat) < 32 \<or> c \<in> {CHR ''<'', CHR ''>'', CHR ''&''}
      then [CHR 0x5C] @ ''u00'' @ string_of [hex_digit (drop_bit 4 (byte_of c)), hex_digit (byte_of c AND 0x0f)]
      else [c])"

definition json_string :: "string \<Rightarrow> string" where
  "json_string s = [CHR 0x22] @ concat (map json_char s) @ [CHR 0x22]"

definition quoted :: "string \<Rightarrow> string" where
  "quoted s = [CHR 0x22] @ s @ [CHR 0x22]"

text \<open>A challenge whose page was sent has been issued; a page that panics ends the request.\<close>

definition issue_page ::
    "env \<Rightarrow> registration \<Rightarrow> template_input \<Rightarrow> world \<Rightarrow> (VerifyResult, world) outcome" where
  "issue_page env reg params w =
     obind (ChallengePage env (e_response_code env) reg params w) (\<lambda>_. Ret VerifyResultNone)"

definition issue_refresh ::
    "env \<Rightarrow> registration \<Rightarrow> string \<Rightarrow> key \<Rightarrow> world \<Rightarrow> (VerifyResult, world) outcome" where
  "issue_refresh env reg mode k w =
     (case VerifyUrl env reg (key_issue k) w of
        (Inl e, w1) \<Rightarrow> Ret VerifyResultFail w1
      | (Inr uri, w1) \<Rightarrow>
          (if mode = ''javascript'' then
             issue_page env reg [(''EndTags'', THtml [''<script type='' @ quoted ''text/javascript'' @ ''>window.location = '' @
               json_string (url_string uri) @ '';</script>''])] w1
           else if mode = ''meta'' then
             issue_page env reg [(''MetaTags'', TTags [[(''http-equiv'', ''refresh''), (''content'', ''0; url='' @ url_string uri)]])] w1
           else issue_page env reg [] (set_header ''Refresh'' (''0; url='' @ url_string uri) w1)))"

definition issue_resource_load ::
    "env \<Rightarrow> registration \<Rightarrow> key \<Rightarrow> world \<Rightarrow> (VerifyResult, world) outcome" where
  "issue_resource_load env reg k w =
     (case VerifyUrl env reg (key_issue k) w of
        (Inl e, w1) \<Rightarrow> Ret VerifyResultFail w1
      | (Inr uri, w1) \<Rightarrow>
          (case RedirectUrl env reg w1 of
             Inl e \<Rightarrow> Ret VerifyResultFail w1
           | Inr redirectUri \<Rightarrow>
               issue_page env reg
                 [(''LinkTags'', TTags [[(''href'', url_string uri), (''rel'', ''stylesheet''), (''crossorigin'', ''use-credentials'')]])]
                 (set_header ''Refresh'' (''2; url='' @ url_string redirectUri) w1)))"

definition issue_js :: "env \<Rightarrow> registration \<Rightarrow> world \<Rightarrow> (VerifyResult, world) outcome" where
  "issue_js env reg w =
     issue_page env reg [(''EndTags'', THtml [''<script async type='' @ quoted ''module'' @ '' src='' @
       quoted (reg_path reg @ ''/script.mjs?cacheBust='' @ e_cache_bust env) @ ''></script>''])] w"

definition IssueChallenge ::
    "env \<Rightarrow> registration \<Rightarrow> key \<Rightarrow> go_time \<Rightarrow> world \<Rightarrow> (VerifyResult, world) outcome" where
  "IssueChallenge env reg k expiry w =
     (case reg_runtime reg of
        RCookie \<Rightarrow> issue_cookie env reg k expiry w
      | RDnsbl host ttl timeout \<Rightarrow> issue_dnsbl env reg host ttl k expiry w
      | RHttp p \<Rightarrow> issue_http env reg p k expiry w
      | RPreloadLink deadline \<Rightarrow> issue_preload env reg k w
      | RRefresh mode \<Rightarrow> issue_refresh env reg mode k w
      | RResourceLoad \<Rightarrow> issue_resource_load env reg k w
      | RWasm p \<Rightarrow> issue_js env reg w)"

section \<open>The handlers of the registrations\<close>

definition css_headers :: "world \<Rightarrow> world" where
  "css_headers w =
     set_header ''Content-Length'' ''0'' (set_header ''Cache-Control'' ''no-cache, no-store, must-revalidate''
       (set_header ''Content-Type'' ''text/css; charset=utf-8'' w))"

definition resource_load_response :: response_func where
  "resource_load_response env verifyResult err redirect w =
     (let w1 = ResponseHeaders env (css_headers w) in
      Ret () (emit (WriteHeader (if \<not> result_Ok verifyResult then 403 else 200)) w1))"

definition resource_load_handler :: "env \<Rightarrow> registration \<Rightarrow> world \<Rightarrow> (unit, world) outcome" where
  "resource_load_handler env reg w = VerifyHandlerFunc env reg resource_load_response w"

text \<open>The handler goes on after an error of the arguments, with an empty token, and drops the verifier's error.\<close>

definition preload_handler :: "env \<Rightarrow> registration \<Rightarrow> world \<Rightarrow> (unit, world) outcome" where
  "preload_handler env reg w0 =
     (let w1 = css_headers w0;
          k = GetChallengeKeyForRequest env reg (Expiration (d_time (w_data w1)) (reg_duration reg)) w1;
          issuerKey = key_issue k;
          (token, w2) = (case GetVerifyInformation env (w_req w1) reg of
              Inl e \<Rightarrow> ([], emit (WriteHeader 400) w1)
            | Inr (_, _, token) \<Rightarrow> (token, w1));
          verifyResult = fst (key_verify k (bytes_of token));
          w3 = ResponseHeaders env w2;
          w4 = emit (WriteHeader (if \<not> result_Ok verifyResult then 401 else 200)) w3;
          w5 = emit (Solved issuerKey verifyResult) w4
      in Ret () (if \<not> result_Ok verifyResult then emit (Solved token verifyResult) w5 else w5))"

text \<open>\<open>MakeChallengeCall\<close> runs the module on the key, the parameters, the headers and the body.\<close>

definition make_handler :: "env \<Rightarrow> registration \<Rightarrow> wasm_params \<Rightarrow> world \<Rightarrow> (unit, world) outcome" where
  "make_handler env reg p w0 =
     (let k = GetChallengeKeyForRequest env reg (Expiration (d_time (w_data w0)) (reg_duration reg)) w0 in
      case e_wasm_make env (w_ticks w0) p k (w_req w0) of
        Inl e \<Rightarrow> ErrorPage env 500 e [] (tick w0)
      | Inr out \<Rightarrow>
          (let w1 = (tick w0)\<lparr>w_header := fold (\<lambda>(k, v). mset_key k v) (mo_headers out) (w_header (tick w0))\<rparr>;
               w2 = set_header ''Cache-Control'' ''no-cache, no-store, must-revalidate''
                 (set_header ''Content-Length'' (decimal (length (mo_data out))) w1)
           in Ret () (respond env (mo_code out) (mo_data out) w2)))"

text \<open>\<open>ServeChallengeScript\<close> (\<open>lib/challenge/script.go\<close>): the template of the script is rendered after the status.\<close>

definition ServeChallengeScript ::
    "env \<Rightarrow> registration \<Rightarrow> (string, string) gomap \<Rightarrow> string \<Rightarrow> world \<Rightarrow> (unit, world) outcome" where
  "ServeChallengeScript env reg params script w =
     (let w1 = set_header ''Content-Type'' ''text/javascript; charset=utf-8''
            (set_header ''Cache-Control'' ''no-cache, no-store, must-revalidate'' w);
          w2 = emit (WriteHeader 200) (ResponseHeaders env w1)
      in case e_render env ''script.mjs''
           [(''Id'', TString (hex_encode (d_id (w_data w2)))), (''Path'', TString (reg_path reg)),
            (''Parameters'', TStrings params), (''Random'', TString (e_cache_bust env)),
            (''Challenge'', TString (reg_name reg)), (''ChallengeScript'', TString script),
            (''Strings'', TStrings (e_strings env))] of
           Inl e \<Rightarrow> Panic e w2
         | Inr body \<Rightarrow> Ret () (emit (WriteBody body) w2))"

end
