(* ===== verification/Runtime_Laws.thy ===== *)
theory Runtime_Laws
  imports Runtimes
begin

text \<open>
  What the runtimes guarantee: filled registrations are well formed, issuing a challenge touches only
  its own token and answers the request exactly when it says so, and a client that follows the URL it
  is given passes.
\<close>

section \<open>Filling\<close>

lemma clamp_probability_range: "0 < def \<Longrightarrow> def \<le> 1 \<Longrightarrow> 0 < clamp_probability def p \<and> clamp_probability def p \<le> 1"
  by (simp add: clamp_probability_def)

lemmas fill_defs = fill_cookie_def fill_dnsbl_def fill_http_def fill_preload_def fill_refresh_def
  fill_resource_load_def fill_js_def

definition blocking_runtime :: "runtime \<Rightarrow> bool" where
  "blocking_runtime rt = (case rt of RCookie \<Rightarrow> True | RRefresh _ \<Rightarrow> True | RResourceLoad \<Rightarrow> True | RWasm _ \<Rightarrow> True | _ \<Rightarrow> False)"

definition wf_registration :: "registration \<Rightarrow> bool" where
  "wf_registration reg \<longleftrightarrow> 0 \<le> reg_probability reg \<and> reg_probability reg \<le> 1 \<and>
     (reg_class reg = ClassBlocking \<longleftrightarrow> blocking_runtime (reg_runtime reg)) \<and> reg_key_headers reg \<noteq> []"

lemma Runtimes_fill:
  assumes "Runtimes assets name = Some fill"
  shows "fills fill"
    and "fill p reg = Inr reg' \<Longrightarrow> reg_probability reg = 0 \<Longrightarrow> reg_key_headers reg = DefaultKeyHeaders \<Longrightarrow>
      wf_registration reg'"
proof -
  from assms have c: "fill \<in> {fill_cookie, fill_dnsbl, fill_http, fill_preload, fill_refresh, fill_resource_load, fill_js assets}"
    by (auto simp: Runtimes_def split: if_splits)
  have "fills fill_cookie" "fills fill_dnsbl" "fills fill_http" "fills fill_preload" "fills fill_refresh"
      "fills fill_resource_load" "fills (fill_js assets)"
    by (auto simp: fills_def fill_defs Let_def split: sum.splits if_splits option.splits)
  with c show "fills fill" by blast
  have k: "clamp_probability (1 / 5) x \<le> 1 \<and> 0 \<le> clamp_probability (1 / 5) x"
      "clamp_probability (1 / 10) x \<le> 1 \<and> 0 \<le> clamp_probability (1 / 10) x" for x
    using clamp_probability_range [of "1 / 5" x] clamp_probability_range [of "1 / 10" x] by auto
  show "wf_registration reg'"
    if "fill p reg = Inr reg'" "reg_probability reg = 0" "reg_key_headers reg = DefaultKeyHeaders"
  proof -
    have w: "wf_registration reg'" if "f p reg = Inr reg'"
      "f \<in> {fill_cookie, fill_dnsbl, fill_http, fill_preload, fill_refresh, fill_resource_load, fill_js assets}" for f
      using that \<open>reg_probability reg = 0\<close> \<open>reg_key_headers reg = DefaultKeyHeaders\<close> k
      by (auto simp: fill_defs wf_registration_def blocking_runtime_def Let_def DefaultKeyHeaders_def MinimalKeyHeaders_def
          split: sum.splits if_splits option.splits)
    show ?thesis using w that(1) c by blast
  qed
qed

section \<open>Issuing\<close>

definition final_event :: "event \<Rightarrow> bool" where
  "final_event e = (case e of WriteHeader c \<Rightarrow> 200 \<le> c | WriteBody _ \<Rightarrow> False | Solved _ _ \<Rightarrow> False | _ \<Rightarrow> True)"

text \<open>The number of final answers: status lines that are not informational, redirects, requests served.\<close>

definition answers :: "world \<Rightarrow> nat" where
  "answers w = length (filter final_event (w_events w))"

text \<open>The number of times the request was handed to a backend.\<close>

definition is_served :: "event \<Rightarrow> bool" where
  "is_served e = (case e of Served b r \<Rightarrow> True | _ \<Rightarrow> False)"

definition served_events :: "world \<Rightarrow> event list" where
  "served_events w = filter is_served (w_events w)"

definition served :: "world \<Rightarrow> nat" where
  "served w = length (served_events w)"

text \<open>
  The change that issuing a challenge may make: the token of the challenge, under the given key, and
  only marked as passed when the challenge is passed now or belongs to the cookie runtime.
\<close>

definition token_change :: "registration \<Rightarrow> key \<Rightarrow> VerifyResult \<Rightarrow> token_map \<Rightarrow> token_map \<Rightarrow> bool" where
  "token_change reg k r m m' \<longleftrightarrow> m' = m \<or>
     (\<exists>c. m' = mset_key (reg_name reg) c m \<and> tc_key c = k \<and>
        (tc_ok c \<longrightarrow> r = VerifyResultOK \<or> reg_runtime reg = RCookie))"

definition same_request :: "world \<Rightarrow> world \<Rightarrow> bool" where
  "same_request w w' \<longleftrightarrow> w_req w' = w_req w \<and> w_metrics w' = w_metrics w \<and> w_hijacker w' = w_hijacker w \<and>
     d_verify (w_data w') = d_verify (w_data w) \<and> d_state (w_data w') = d_state (w_data w) \<and>
     d_time (w_data w') = d_time (w_data w) \<and> d_remote (w_data w') = d_remote (w_data w) \<and>
     d_id (w_data w') = d_id (w_data w) \<and> d_opts (w_data w') = d_opts (w_data w) \<and>
     d_extra (w_data w') = d_extra (w_data w) \<and> d_fp (w_data w') = d_fp (w_data w)"

lemma same_request_refl [simp]: "same_request w w"
  by (simp add: same_request_def)

lemma same_request_trans: "same_request w w' \<Longrightarrow> same_request w' w'' \<Longrightarrow> same_request w w''"
  by (simp add: same_request_def)

lemma writes_same_request: "writes es w w' \<Longrightarrow> same_request w w' \<and> d_map (w_data w') = d_map (w_data w) \<and>
    answers w' = answers w + length (filter final_event es) \<and> served_events w' = served_events w @ filter is_served es"
  by (simp add: writes_def same_request_def answers_def served_events_def)

lemma same_request_simps [simp]:
  "same_request w (tick w') = same_request w w'" "same_request w (set_header a b w') = same_request w w'"
  "same_request w (del_header a w') = same_request w w'" "same_request w (emit e w') = same_request w w'"
  "same_request w (w'\<lparr>w_dnsbl := m\<rparr>) = same_request w w'"
  "same_request w (IssueChallengeToken env reg k res u ok w') = same_request w w'"
  by (simp_all add: same_request_def tick_def set_header_def del_header_def emit_def IssueChallengeToken_def now_def set_data_def)

lemma answers_simps [simp]:
  "answers (tick w) = answers w" "answers (set_header a b w) = answers w" "answers (del_header a w) = answers w"
  "answers (emit e w) = (if final_event e then answers w + 1 else answers w)"
  "answers (w\<lparr>w_dnsbl := m\<rparr>) = answers w" "answers (IssueChallengeToken env reg k res u ok w) = answers w"
  by (simp_all add: answers_def IssueChallengeToken_def now_def)

lemma served_events_simps [simp]:
  "served_events (tick w) = served_events w" "served_events (set_header a b w) = served_events w"
  "served_events (del_header a w) = served_events w"
  "served_events (emit e w) = served_events w @ (if is_served e then [e] else [])"
  "served_events (w\<lparr>w_dnsbl := m\<rparr>) = served_events w"
  "served_events (IssueChallengeToken env reg k res u ok w) = served_events w"
  by (simp_all add: served_events_def IssueChallengeToken_def now_def)

text \<open>The outcome of issuing a challenge with the result \<open>r\<close>.\<close>

definition issued :: "registration \<Rightarrow> key \<Rightarrow> VerifyResult \<Rightarrow> world \<Rightarrow> world \<Rightarrow> bool" where
  "issued reg k r w w' \<longleftrightarrow> same_request w w' \<and> token_change reg k r (d_map (w_data w)) (d_map (w_data w')) \<and>
     answers w' = (if r = VerifyResultNone then answers w + 1 else answers w) \<and> served_events w' = served_events w"

lemma issue_token_map:
  "token_change reg k r m (d_map (w_data (IssueChallengeToken env reg k res u ok w)))"
  if "d_map (w_data w) = m" "ok \<longrightarrow> r = VerifyResultOK \<or> reg_runtime reg = RCookie"
proof -
  obtain c where "tc_key c = k" "tc_result c = res" "tc_ok c = ok"
      "d_map (w_data (IssueChallengeToken env reg k res u ok w)) = mset_key (reg_name reg) c (d_map (w_data w))"
    using IssueChallengeToken_effect by blast
  then show ?thesis using that unfolding token_change_def by blast
qed

lemma token_change_refl [simp]: "token_change reg k r m m"
  by (simp add: token_change_def)

lemma VerifyUrl_world: "VerifyUrl env reg t w = (x, w') \<Longrightarrow> w' = w \<or> w' = tick w"
  by (auto simp: VerifyUrl_def now_def split: sum.splits)

lemma issue_page_issued:
  assumes "issue_page env reg params w1 = Ret r w'" "200 \<le> e_response_code env"
    and "same_request w w1" "answers w1 = answers w" "served_events w1 = served_events w" "d_map (w_data w1) = d_map (w_data w)"
  shows "issued reg k r w w'"
proof -
  obtain c b where c: "c \<in> {e_response_code env, 500}" "writes [WriteHeader c, WriteBody b] w1 w'" "r = VerifyResultNone"
    using assms(1) ChallengePage_cases [of env "e_response_code env" reg params w1]
    by (auto simp: issue_page_def obind_Ret_iff)
  then show ?thesis
    using writes_same_request [OF c(2)] assms(2-6) same_request_trans
    by (auto simp: issued_def final_event_def is_served_def)
qed

lemma dnsbl_lookup_world:
  assumes "dnsbl_lookup env i host ttl ip w = Ret x w'"
  shows "same_request w w'" "answers w' = answers w" "d_map (w_data w') = d_map (w_data w)" "served_events w' = served_events w"
proof -
  have l: "dnsbl_Lookup env host ip w1 = Ret x w2 \<Longrightarrow> w2 = tick w1" for x w1 w2
    by (auto simp: dnsbl_Lookup_def split: sum.splits list.splits option.splits)
  obtain y m where g: "decay_get (e_now env (w_ticks w)) (i, case To16 ip of None \<Rightarrow> replicate 16 0 | Some a \<Rightarrow> a) (w_dnsbl w) = (y, m)"
    by (cases "decay_get (e_now env (w_ticks w)) (i, case To16 ip of None \<Rightarrow> replicate 16 0 | Some a \<Rightarrow> a) (w_dnsbl w)")
  have "\<exists>m. w' = tick w\<lparr>w_dnsbl := m\<rparr> \<or> w' = tick (tick (tick w))\<lparr>w_dnsbl := m\<rparr>"
    using assms g unfolding dnsbl_lookup_def Let_def now_def
    by (cases y) (auto simp: obind_Ret_iff tick_def dest!: l)
  then show "same_request w w'" "answers w' = answers w" "d_map (w_data w') = d_map (w_data w)" "served_events w' = served_events w"
    by auto
qed

lemma issue_cookie_issued:
  assumes "issue_cookie env reg k u w = Ret r w'" "reg_runtime reg = RCookie"
  shows "issued reg k r w w'"
proof -
  define w1 where "w1 = IssueChallengeToken env reg k [] u True w"
  have w1: "same_request w w1" "answers w1 = answers w" "served_events w1 = served_events w"
      "token_change reg k r (d_map (w_data w)) (d_map (w_data w1))"
    using assms(2) by (simp_all add: w1_def issue_token_map)
  consider "r = VerifyResultFail" "w' = w1"
    | x where "r = VerifyResultNone" "w' = emit (Redirected x 307) (ResponseHeaders env w1)"
    using assms(1) unfolding issue_cookie_def Let_def w1_def [symmetric] by (auto split: sum.splits)
  then show ?thesis
  proof cases
    case 1
    then show ?thesis using w1 by (simp add: issued_def)
  next
    case (2 x)
    have "writes [Redirected x 307] w1 w'" using writes_step(4) [OF ResponseHeaders_writes] 2(2) by simp
    from writes_same_request [OF this] w1 2(1) show ?thesis
      using same_request_trans by (auto simp: issued_def final_event_def is_served_def)
  qed
qed

lemma issue_dnsbl_issued:
  assumes "issue_dnsbl env reg host ttl k u w = Ret r w'"
  shows "issued reg k r w w'"
proof -
  obtain x w1 where l: "dnsbl_lookup env (reg_id reg) host ttl (AsSlice (Unmap (fst (d_remote (w_data w))))) w = Ret x w1"
      "r = (if response_Bad (fst x) then VerifyResultNotOK else VerifyResultOK)"
      "w' = IssueChallengeToken env reg k [] u (\<not> response_Bad (fst x)) w1"
    using assms by (auto simp: issue_dnsbl_def obind_Ret_iff split: if_splits)
  have "token_change reg k r (d_map (w_data w)) (d_map (w_data w'))"
    unfolding l(3) by (rule issue_token_map [OF dnsbl_lookup_world(3) [OF l(1)]]) (simp add: l(2))
  then show ?thesis using dnsbl_lookup_world(1,2,4) [OF l(1)] l(2,3) by (simp add: issued_def)
qed

lemma issue_http_issued:
  assumes "issue_http env reg p k u w = Ret r w'"
  shows "issued reg k r w w'"
proof -
  have q: "issued reg k r w w" if "r \<noteq> VerifyResultNone" using that by (simp add: issued_def)
  have q1: "issued reg k VerifyResultFail w (tick w)" by (simp add: issued_def)
  have i: "issued reg k x w (IssueChallengeToken env reg k h u ok (tick w))"
    if "x = (if ok then VerifyResultOK else VerifyResultNotOK)" for x h ok
    using that by (simp add: issued_def issue_token_map)
  consider "w' = w" "r = VerifyResultSkip \<or> r = VerifyResultFail"
    | "w' = tick w" "r = VerifyResultFail"
    | h ok where "w' = IssueChallengeToken env reg k h u ok (tick w)" "r = (if ok then VerifyResultOK else VerifyResultNotOK)"
    using assms unfolding issue_http_def by (auto split: if_splits sum.splits)
  then show ?thesis
  proof cases
    case 1 then show ?thesis using q by auto
  next
    case 2 then show ?thesis using q1 by simp
  next
    case (3 h ok) then show ?thesis using i [OF 3(2)] by simp
  qed
qed

lemma issue_preload_issued:
  assumes "issue_preload env reg k w = Ret r w'"
  shows "issued reg k r w w'"
proof -
  have s: "\<exists>w1 hd. (w1 = w \<or> w1 = tick w) \<and> (w' = w1 \<or> w' = del_header ''Link'' (tick (emit (WriteHeader 103) (set_header ''Link'' hd w1)))) \<and>
      r \<noteq> VerifyResultNone"
  proof (cases "r_proto_major (w_req w) < 2 \<and> \<not> w_pusher w")
    case True
    then have "w' = w \<and> r = VerifyResultSkip" using assms by (simp add: issue_preload_def)
    then show ?thesis by auto
  next
    case False
    obtain x w1 where v: "VerifyUrl env reg (key_issue k) w = (x, w1)" by (cases "VerifyUrl env reg (key_issue k) w")
    have w1: "w1 = w \<or> w1 = tick w" using VerifyUrl_world [OF v] .
    show ?thesis
    proof (cases x)
      case (Inl e)
      then have "w' = w1 \<and> r = VerifyResultFail" using assms False v by (auto simp: issue_preload_def)
      then show ?thesis using w1 by auto
    next
      case (Inr uri)
      then have "r \<noteq> VerifyResultNone \<and> (\<exists>hd. w' = del_header ''Link'' (tick (emit (WriteHeader 103) (set_header ''Link'' hd w1))))"
        using assms False v by (auto simp: issue_preload_def Let_def split: if_splits)
      then show ?thesis using w1 by blast
    qed
  qed
  then show ?thesis by (auto simp: issued_def final_event_def is_served_def)
qed

lemma issue_with_url_issued:
  assumes "200 \<le> e_response_code env"
  shows "issue_refresh env reg mode k w = Ret r w' \<Longrightarrow> issued reg k r w w'"
    and "issue_resource_load env reg k w = Ret r w' \<Longrightarrow> issued reg k r w w'"
proof -
  obtain x w1 where v: "VerifyUrl env reg (key_issue k) w = (x, w1)" by (cases "VerifyUrl env reg (key_issue k) w")
  have w1: "same_request w w1" "answers w1 = answers w" "served_events w1 = served_events w" "d_map (w_data w1) = d_map (w_data w)"
    using VerifyUrl_world [OF v] by auto
  have f: "issued reg k VerifyResultFail w w1" using w1 by (simp add: issued_def)
  have p: "issued reg k r w w'" if "issue_page env reg params w1 = Ret r w'" for params
    using issue_page_issued [OF that assms w1] .
  have h: "issued reg k r w w'" if "issue_page env reg params (set_header a b w1) = Ret r w'" for params a b
    using issue_page_issued [OF that assms, of w] w1 by simp
  show "issue_refresh env reg mode k w = Ret r w' \<Longrightarrow> issued reg k r w w'"
    using v f p h by (cases x) (auto simp: issue_refresh_def split: if_splits)
  show "issue_resource_load env reg k w = Ret r w' \<Longrightarrow> issued reg k r w w'"
    using v f h by (cases x) (auto simp: issue_resource_load_def split: sum.splits)
qed

lemma IssueChallenge_issued:
  assumes "IssueChallenge env reg k expiry w = Ret r w'" "200 \<le> e_response_code env"
  shows "issued reg k r w w'"
  using assms issue_cookie_issued issue_dnsbl_issued issue_http_issued issue_preload_issued
    issue_with_url_issued [OF assms(2)] issue_page_issued [OF _ assms(2) same_request_refl refl refl refl]
  unfolding IssueChallenge_def issue_js_def by (cases "reg_runtime reg") simp_all

section \<open>Properties\<close>

text \<open>
  C16: issuing a challenge, by any runtime, leaves the request and the results of the other challenges
  alone and changes at most the token of this challenge, which it puts under the key of the request
  and marks as passed only with the result OK or for the cookie runtime. It answers the request with one
  final response exactly when its result is None, so a caller that goes on after another result still
  has an unanswered request. It never hands the request to a backend.
\<close>

theorem IssueChallenge_effect:
  assumes "IssueChallenge env reg k expiry w = Ret r w'" "200 \<le> e_response_code env"
  shows "same_request w w' \<and> token_change reg k r (d_map (w_data w)) (d_map (w_data w')) \<and>
    answers w' = (if r = VerifyResultNone then answers w + 1 else answers w) \<and> served w' = served w"
  using IssueChallenge_issued [OF assms] by (simp add: issued_def served_def)

theorem IssueChallenge_effect_witness:
  "\<exists>w'. IssueChallenge sample_env sample_reg sample_key 0 sample_world = Ret VerifyResultNone w' \<and> answers w' = 1"
proof -
  let ?w = "IssueChallengeToken sample_env sample_reg sample_key [] 0 True sample_world"
  have "plain_url (r_url (w_req ?w))"
    by (simp add: IssueChallengeToken_def now_def plain_url_def plain_path_def sample_world_def sample_request_def
        empty_url_def plain_char_def HasPrefix_def url_clean_def)
  then obtain x where "RedirectUrl sample_env sample_reg ?w = Inr x" using RedirectUrl_plain by blast
  then obtain w' where i: "IssueChallenge sample_env sample_reg sample_key 0 sample_world = Ret VerifyResultNone w'"
    by (simp add: IssueChallenge_def issue_cookie_def)
  have "200 \<le> e_response_code sample_env" by (simp add: sample_env_def)
  then have "answers w' = 1"
    using IssueChallenge_effect [OF i] by (simp add: answers_def sample_world_def)
  with i show ?thesis by blast
qed

lemma Create_wf:
  assumes "Create (Runtimes assets) compile replacer jp up name pol n r = (Inr (reg, i), n', r')"
  shows "wf_registration reg"
proof -
  obtain fill where fill: "Runtimes assets (pc_runtime pol) = Some fill"
    using assms by (cases "Runtimes assets (pc_runtime pol)") (simp_all add: Create_def)
  define reg0 where "reg0 = new_registration name (jp [up, ''challenge'', name]) (pc_duration pol)"
  have "\<exists>c k. fill (pc_parameters pol) (reg0\<lparr>reg_condition := c, reg_id := k\<rparr>) = Inr reg"
  proof -
    have e: "reg0\<lparr>reg_id := k\<rparr> = reg0\<lparr>reg_condition := reg_condition reg0, reg_id := k\<rparr>" for k by simp
    show ?thesis
      using assms fill unfolding Create_def Let_def reg0_def [symmetric]
      by (auto split: if_splits sum.splits prod.splits) (metis e)+
  qed
  then obtain c k where "fill (pc_parameters pol) (reg0\<lparr>reg_condition := c, reg_id := k\<rparr>) = Inr reg" by blast
  then show ?thesis
    by (rule Runtimes_fill(2) [OF fill]) (simp_all add: reg0_def new_registration_def)
qed



text \<open>
  the handler of the preload challenge passes a client that it should ask to retry. The verifier
  of keys answers OK together with an error when a client that uses IPv6 shows a key made for IPv4; the
  handler drops the error. For every token of 32 bytes whose first byte has the IPv4 flag, the waiting
  request of an IPv6 client is solved with OK, although the token is not the key of the challenge.
\<close>

theorem preload_drops_mismatch:
  assumes "reg_runtime reg = RPreloadLink deadline" "GetVerifyInformation env (w_req w) reg = Inr (i, redirect, hex_encode b)"
    and "length b = KeySize" "key_Get KeyFlagIsIPv4 b > 0"
    and "k = GetChallengeKeyForRequest env reg (Expiration (d_time (w_data w)) (reg_duration reg)) w"
    and "key_Get KeyFlagIsIPv4 k = 0"
  shows "b \<noteq> k \<and> (\<exists>w'. preload_handler env reg w = Ret () w' \<and>
    w_events w' = w_events w @ [WriteHeader 200, Solved (key_issue k) VerifyResultOK])"
proof -
  have b: "b \<noteq> k" using assms(4,6) by auto
  have v: "fst (key_verify k (bytes_of (hex_encode b))) = VerifyResultOK"
    using assms(3,4,6) b by (simp add: key_verify_def)
  have c: "w_req (css_headers w) = w_req w" "w_data (css_headers w) = w_data w" "w_events (css_headers w) = w_events w"
    by (simp_all add: css_headers_def)
  have k: "GetChallengeKeyForRequest env reg u (css_headers w) = GetChallengeKeyForRequest env reg u w" for u
    by (simp add: GetChallengeKeyForRequest_def c)
  show ?thesis
    using b v ResponseHeaders_writes [of "css_headers w" env]
    by (simp add: preload_handler_def Let_def c k assms(2) assms(5) [symmetric] writes_def)
qed

definition sample_preload :: registration where
  "sample_preload = sample_reg\<lparr>reg_runtime := RPreloadLink 0\<rparr>"

definition sample_wrong_key :: key where
  "sample_wrong_key = 1 # replicate 31 0"

definition sample_preloaded :: world where
  "sample_preloaded = sample_world\<lparr>w_req := sample_request\<lparr>r_url := empty_url\<lparr>u_path := ''/c/verify-challenge'',
     u_rawquery := EncodeRawQuery (set_args (verify_args sample_preload ''/'' (replicate 16 1)
       (hex_encode sample_wrong_key) 0) [])\<rparr>\<rparr>\<rparr>"

theorem preload_drops_mismatch_witness:
  "\<exists>w' k. preload_handler sample_env sample_preload sample_preloaded = Ret () w' \<and> k \<noteq> sample_wrong_key \<and>
     w_events w' = [WriteHeader 200, Solved (key_issue k) VerifyResultOK]"
proof -
  have i: "GetVerifyInformation sample_env (w_req sample_preloaded) sample_preload =
      Inr (replicate 16 1, ''/'', hex_encode sample_wrong_key)"
  proof (rule verify_info_of_args [where t = 0])
    have "plain_path ''/''" by (simp add: plain_path_def plain_char_def HasPrefix_def)
    then show "EnsureNoOpenRedirect (e_authority sample_env) ''/'' = Inr ''/''"
      using EnsureNoOpenRedirect_plain [of "empty_url\<lparr>u_path := ''/''\<rparr>" "e_authority sample_env"]
        url_string_plain [of "''/''" "[]"]
      by (simp add: plain_url_def empty_url_def url_clean_def)
  qed (simp_all add: raw_map_def mget_or_def unshadowed_def verify_names_def sample_preloaded_def)
  define k where "k = GetChallengeKeyForRequest sample_env sample_preload
    (Expiration (d_time (w_data sample_preloaded)) (reg_duration sample_preload)) sample_preloaded"
  have "key_Get KeyFlagIsIPv4 k = 0"
    by (simp add: k_def GetChallengeKeyForRequest_def sample_preloaded_def sample_world_def sample_data_def Unmap_def
        Is4_def key_Get_def)
  moreover have "key_Get KeyFlagIsIPv4 sample_wrong_key > 0"
    by (simp add: sample_wrong_key_def key_Get_def KeyFlagIsIPv4_def)
  moreover have "length sample_wrong_key = KeySize" by (simp add: sample_wrong_key_def KeySize_def)
  ultimately have "sample_wrong_key \<noteq> k \<and> (\<exists>w'. preload_handler sample_env sample_preload sample_preloaded = Ret () w' \<and>
      w_events w' = w_events sample_preloaded @ [WriteHeader 200, Solved (key_issue k) VerifyResultOK])"
    by (intro preload_drops_mismatch [OF _ i _ _ k_def]) (simp_all add: sample_preload_def)
  moreover have "w_events sample_preloaded = []" by (simp add: sample_preloaded_def sample_world_def)
  ultimately show ?thesis by (metis append_Nil)
qed

lemma VerifyHandlerFunc_accepts:
  assumes "GetVerifyInformation env (w_req w) reg = Inr (i, redirect, key_issue k)" "valid_key_size k"
    and "k = GetChallengeKeyForRequest env reg (Expiration (d_time (w_data w)) (reg_duration reg)) w"
    and "Verify env reg = Some (\<lambda>k token w. (key_verify k token, w))"
  shows "\<exists>w'. VerifyHandlerFunc env reg VerifyHandlerChallengeResponseFunc w = Ret () w' \<and>
    w_events w' = w_events w @ [Redirected redirect 307] \<and> HasValidChallenge (w_data w') (reg_id reg) \<and>
    (\<exists>c. mget (d_map (w_data w')) (reg_name reg) = Some c \<and> tc_key c = k \<and> tc_ok c)"
proof -
  define w1 where "w1 = set_data (\<lambda>d. d\<lparr>d_id := i\<rparr>) w"
  have k: "GetChallengeKeyForRequest env reg (Expiration (d_time (w_data w1)) (reg_duration reg)) w1 = k"
    by (simp add: assms(3) w1_def GetChallengeKeyForRequest_def)
  define w2 where "w2 = IssueChallengeToken env reg k (bytes_of (key_issue k)) (Expiration (d_time (w_data w1)) (reg_duration reg)) True w1"
  obtain c where c: "tc_key c = k" "tc_result c = bytes_of (key_issue k)" "tc_ok c = True"
      "d_map (w_data w2) = mset_key (reg_name reg) c (d_map (w_data w1))"
      "d_verify (w_data w2) = d_verify (w_data w1)" "w_events w2 = w_events w1"
    unfolding w2_def by (rule IssueChallengeToken_effect)
  define w3 where "w3 = ChallengePassed reg (set_data (\<lambda>d. d\<lparr>d_verify := mset_key (reg_id reg) VerifyResultOK (d_verify d)\<rparr>) w2)"
  have run: "VerifyHandlerFunc env reg VerifyHandlerChallengeResponseFunc w =
      VerifyHandlerChallengeResponseFunc env VerifyResultOK None redirect w3"
    unfolding VerifyHandlerFunc_def assms(1,4) sum.case prod.case Let_def w1_def [symmetric] k option.case
    by (simp add: key_verify_issue [OF assms(2)] w2_def w3_def)
  obtain w' where w': "VerifyHandlerFunc env reg VerifyHandlerChallengeResponseFunc w = Ret () w'"
    unfolding run by (simp add: VerifyHandlerChallengeResponseFunc_def)
  have "writes [Redirected redirect 307] w3 w'"
    by (rule VerifyHandlerChallengeResponseFunc_writes(2)) (use w' run in simp)
  then have "w_events w' = w_events w @ [Redirected redirect 307]" "HasValidChallenge (w_data w') (reg_id reg)"
      "mget (d_map (w_data w')) (reg_name reg) = Some c"
    using c(4,6) by (simp_all add: writes_def w3_def w1_def callback_defs HasValidChallenge_def mget_or_def)
  then show ?thesis using w' c(1,3) by simp
qed



end
