(* ===== verification/Actions.thy ===== *)
theory Actions
  imports Runtime_Laws
begin

text \<open>
  The actions of rules (\<open>lib/action\<close>): the handlers with their \<open>Handle\<close> methods and the table that makes
  a handler from the settings of a rule.
\<close>

section \<open>Handlers\<close>

record context_settings =
  cs_set :: "(string, string) gomap"
  cs_response :: "(string, string list) gomap"
  cs_request :: "(string, string list) gomap"

text \<open>
  The fields of the structures, in their order. A compiled regular expression of \<open>Proxy\<close> is kept as the
  replacement that it makes in a path.
\<close>

datatype handler =
    HBlock nat string
  | HDeny nat string
  | HDrop
  | HNone
  | HPass
  | HCode nat
  | HContext context_settings
  | HProxy "(string \<Rightarrow> string) option" string
  | HChallenge string nat bool "registration list" string handler string handler

text \<open>What \<open>done\<close> returns: a backend, or the handler that does nothing.\<close>

datatype http_handler = BackendHandler backend | EmptyHandler

type_synonym done_func = "world \<Rightarrow> http_handler \<times> world"

definition serve :: "http_handler \<Rightarrow> world \<Rightarrow> world" where
  "serve h w = (case h of BackendHandler b \<Rightarrow> emit (Served b (w_req w)) w | EmptyHandler \<Rightarrow> w)"

text \<open>A handler returns an error, or whether the next rule is to be processed.\<close>

type_synonym handled = "(go_error + bool, world) outcome"

section \<open>The simple handlers\<close>

definition no_cache :: "world \<Rightarrow> world" where
  "no_cache w = set_header ''Cache-Control'' ''no-cache, no-store, must-revalidate'' w"

definition handle_block :: "env \<Rightarrow> nat \<Rightarrow> string \<Rightarrow> world \<Rightarrow> handled" where
  "handle_block env code hash w =
     (let w1 = set_header ''Connection'' ''close'' (no_cache (set_header ''Content-Type'' ''text/plain'' w));
          w2 = emit (WriteHeader code) (ResponseHeaders env w1)
      in Ret (Inr False) (emit (WriteBody (bytes_of (''access blocked: blocked by administrative rule '' @
           hex_encode (d_id (w_data w2)) @ ''/'' @ hash))) w2))"

definition handle_deny :: "env \<Rightarrow> nat \<Rightarrow> string \<Rightarrow> world \<Rightarrow> handled" where
  "handle_deny env code hash w =
     obind (ErrorPage env code (Err (''access denied: denied by administrative rule '' @
       hex_encode (d_id (w_data w)) @ ''/'' @ hash)) [] w) (\<lambda>_. Ret (Inr False))"

text \<open>\<open>w_hijacker\<close>: the connection of the response can be taken over.\<close>

definition handle_drop :: "world \<Rightarrow> handled" where
  "handle_drop w =
     (if w_hijacker w then Ret (Inr False) (emit Hijacked w)
      else Ret (Inr False) (emit (WriteHeader 403) (no_cache (set_header ''Connection'' ''close''
        (set_header ''Content-Length'' ''0'' (set_header ''Content-Type'' ''text/plain'' w))))))"

definition handle_pass :: "done_func \<Rightarrow> world \<Rightarrow> handled" where
  "handle_pass fin w = (case fin w of (h, w1) \<Rightarrow> Ret (Inr False) (serve h w1))"

definition handle_code :: "env \<Rightarrow> nat \<Rightarrow> world \<Rightarrow> handled" where
  "handle_code env code w = Ret (Inr False) (emit (WriteHeader code) (ResponseHeaders env (no_cache w)))"

text \<open>Values that were set before are removed first, so that an empty list unsets a header.\<close>

definition reset_header :: "string \<times> string list \<Rightarrow> header \<Rightarrow> header" where
  "reset_header kv h =
     (case kv of (k, v) \<Rightarrow> fold (\<lambda>val h. header_add h k val) v (mset_key (CanonicalMIMEHeaderKey k) [] h))"

definition handle_context :: "context_settings \<Rightarrow> world \<Rightarrow> handled" where
  "handle_context opts w =
     (let w1 = set_data (fold (\<lambda>(k, v). SetOpt k v) (cs_set opts)) w;
          w2 = w1\<lparr>w_header := fold reset_header (cs_response opts) (w_header w1)\<rparr>
      in Ret (Inr True) (set_req (\<lambda>r. r\<lparr>r_header := fold reset_header (cs_request opts) (r_header r)\<rparr>) w2))"

definition handle_proxy :: "env \<Rightarrow> (string \<Rightarrow> string) option \<Rightarrow> string \<Rightarrow> done_func \<Rightarrow> world \<Rightarrow> handled" where
  "handle_proxy env rewrite name fin w =
     (case GetBackend env name of
        None \<Rightarrow> Ret (Inl (Err (''backend for '' @ name @ '' not found''))) w
      | Some b \<Rightarrow>
          (let w1 = (case rewrite of
                 None \<Rightarrow> w
               | Some f \<Rightarrow> set_req (\<lambda>r. r\<lparr>r_url := (r_url r)\<lparr>u_path := f (u_path (r_url r))\<rparr>\<rparr>) w)
           in case fin w1 of (_, w2) \<Rightarrow> Ret (Inr False) (serve (BackendHandler b) w2)))"

section \<open>The challenge handler\<close>

definition has_go_away_params :: "http_request \<Rightarrow> bool" where
  "has_go_away_params r \<longleftrightarrow> (\<exists>k \<in> set (mkeys (url_query (u_rawquery (r_url r)))). HasPrefix k QueryArgPrefix)"

definition valid_branch :: "env \<Rightarrow> bool \<Rightarrow> string \<Rightarrow> (world \<Rightarrow> handled) \<Rightarrow> registration \<Rightarrow> world \<Rightarrow> handled" where
  "valid_branch env cont passAction pass reg w0 =
     (let w = ChallengeChecked reg w0 in
      if (r_method (w_req w) = ''GET'' \<or> r_method (w_req w) = ''HEAD'') \<and> has_go_away_params (w_req w)
      then Ret (Inr False) (emit (Redirected (url_string (clean_url (r_url (w_req w)))) 307) (ResponseHeaders env w))
      else if cont then Ret (Inr True) w
      else pass (ActionHit passAction w))"

text \<open>The first loop returns at the first challenge that the request has passed.\<close>

fun check_loop :: "env \<Rightarrow> bool \<Rightarrow> string \<Rightarrow> (world \<Rightarrow> handled) \<Rightarrow> registration list \<Rightarrow> world \<Rightarrow> handled option" where
  "check_loop env cont passAction pass [] w = None"
| "check_loop env cont passAction pass (reg # regs) w =
     (if HasValidChallenge (w_data w) (reg_id reg) then Some (valid_branch env cont passAction pass reg w)
      else check_loop env cont passAction pass regs w)"

definition skipped :: "registration \<Rightarrow> world \<Rightarrow> bool" where
  "skipped reg w \<longleftrightarrow>
     (let result = mget_or VerifyResultNone (d_verify (w_data w)) (reg_id reg);
          state = mget_or VerifyStateNone (d_state (w_data w)) (reg_id reg)
      in result_Ok result \<or> result = VerifyResultSkip \<or> state = VerifyStatePass)"

definition record_result :: "registration \<Rightarrow> VerifyResult \<Rightarrow> world \<Rightarrow> world" where
  "record_result reg result w =
     set_data (\<lambda>d. d\<lparr>d_verify := mset_key (reg_id reg) result (d_verify d),
       d_state := mset_key (reg_id reg) VerifyStatePass (d_state d)\<rparr>)
       (if result \<noteq> VerifyResultSkip then ChallengeIssued reg w else w)"

text \<open>The second loop issues the challenges in their order.\<close>

fun issue_loop ::
    "env \<Rightarrow> bool \<Rightarrow> string \<Rightarrow> (world \<Rightarrow> handled) \<Rightarrow> string \<Rightarrow> (world \<Rightarrow> handled) \<Rightarrow> registration list \<Rightarrow> world \<Rightarrow> handled" where
  "issue_loop env cont passAction pass failAction fail [] w = fail (ActionHit failAction w)"
| "issue_loop env cont passAction pass failAction fail (reg # regs) w =
     (if skipped reg w then issue_loop env cont passAction pass failAction fail regs w
      else
        (let expiry = Expiration (d_time (w_data w)) (reg_duration reg);
             k = GetChallengeKeyForRequest env reg expiry w
         in case IssueChallenge env reg k expiry w of
              Panic e w1 \<Rightarrow> Panic e w1
            | Ret result w1 \<Rightarrow>
                (let w2 = record_result reg result w1 in
                 case result of
                   VerifyResultOK \<Rightarrow>
                     (let w3 = ChallengePassed reg w2 in
                      if cont then Ret (Inr True) w3 else pass (ActionHit passAction w3))
                 | VerifyResultNotOK \<Rightarrow> issue_loop env cont passAction pass failAction fail regs w2
                 | VerifyResultFail \<Rightarrow>
                     (let w3 = ChallengeFailed reg w2 in
                      if reg_class reg = ClassTransparent then issue_loop env cont passAction pass failAction fail regs w3
                      else fail (ActionHit failAction w3))
                 | VerifyResultNone \<Rightarrow>
                     (if reg_class reg = ClassTransparent then issue_loop env cont passAction pass failAction fail regs w2
                      else Ret (Inr False) w2)
                 | VerifyResultSkip \<Rightarrow> issue_loop env cont passAction pass failAction fail regs w2)))"

definition handle_challenge ::
    "env \<Rightarrow> bool \<Rightarrow> registration list \<Rightarrow> string \<Rightarrow> (world \<Rightarrow> handled) \<Rightarrow> string \<Rightarrow> (world \<Rightarrow> handled) \<Rightarrow> world \<Rightarrow> handled" where
  "handle_challenge env cont regs passAction pass failAction fail w =
     (case check_loop env cont passAction pass regs w of
        Some result \<Rightarrow> result
      | None \<Rightarrow> issue_loop env cont passAction pass failAction fail regs w)"

primrec Handle :: "handler \<Rightarrow> env \<Rightarrow> done_func \<Rightarrow> world \<Rightarrow> handled" where
  "Handle (HBlock code hash) env fin w = handle_block env code hash w"
| "Handle (HDeny code hash) env fin w = handle_deny env code hash w"
| "Handle HDrop env fin w = handle_drop w"
| "Handle HNone env fin w = Ret (Inr True) w"
| "Handle HPass env fin w = handle_pass fin w"
| "Handle (HCode code) env fin w = handle_code env code w"
| "Handle (HContext opts) env fin w = handle_context opts w"
| "Handle (HProxy rewrite name) env fin w = handle_proxy env rewrite name fin w"
| "Handle (HChallenge hash code cont regs passAction pass failAction fail) env fin w =
     handle_challenge env cont regs passAction (Handle pass env fin) failAction (Handle fail env fin) w"

section \<open>Making handlers\<close>

record proxy_settings =
  ps_match :: string
  ps_rewrite :: string
  ps_backend :: string

record challenge_settings =
  chs_code :: nat
  chs_challenges :: "string list"
  chs_pass :: string
  chs_fail :: string

text \<open>
  A node of the settings is known by what decoding it over the default settings of each action gives;
  the settings of the pass and the fail action are nodes within it.
\<close>

datatype settings_node =
  SettingsNode (sn_code: "go_error + nat") (sn_context: "go_error + context_settings") (sn_proxy: "go_error + proxy_settings")
    (sn_challenge: "go_error + challenge_settings") (sn_pass: "settings_node option") (sn_fail: "settings_node option")

definition upper_string :: "string \<Rightarrow> string" where
  "upper_string s = map (\<lambda>c. char_of_byte (if is_lower (byte_of c) then byte_of c - 32 else byte_of c)) s"

definition challenge_defaults :: challenge_settings where
  "challenge_defaults = \<lparr>chs_code = 0, chs_challenges = [], chs_pass = ''PASS'', chs_fail = ''DENY''\<rparr>"

definition new_code :: "settings_node option \<Rightarrow> go_error + handler" where
  "new_code settings =
     (case (case settings of None \<Rightarrow> Inr 0 | Some n \<Rightarrow> sn_code n) of
        Inl e \<Rightarrow> Inl e
      | Inr code \<Rightarrow> (if code = 0 then Inl (Err ''http-code not set'') else Inr (HCode code)))"

definition new_context :: "settings_node option \<Rightarrow> go_error + handler" where
  "new_context settings =
     (case (case settings of None \<Rightarrow> Inr \<lparr>cs_set = [], cs_response = [], cs_request = []\<rparr> | Some n \<Rightarrow> sn_context n) of
        Inl e \<Rightarrow> Inl e
      | Inr opts \<Rightarrow> Inr (HContext opts))"

definition new_proxy :: "(string \<Rightarrow> go_error + (string \<Rightarrow> string \<Rightarrow> string)) \<Rightarrow> settings_node option \<Rightarrow> go_error + handler" where
  "new_proxy compile settings =
     (case (case settings of None \<Rightarrow> Inr \<lparr>ps_match = [], ps_rewrite = [], ps_backend = []\<rparr> | Some n \<Rightarrow> sn_proxy n) of
        Inl e \<Rightarrow> Inl e
      | Inr params \<Rightarrow>
          (if ps_match params \<noteq> [] then
             (case compile (ps_match params) of
                Inl e \<Rightarrow> Inl e
              | Inr expr \<Rightarrow> Inr (HProxy (Some (\<lambda>path. expr path (ps_rewrite params))) (ps_backend params)))
           else Inr (HProxy None (ps_backend params))))"

fun lookup_challenges :: "env \<Rightarrow> string list \<Rightarrow> go_error + registration list" where
  "lookup_challenges env [] = Inr []"
| "lookup_challenges env (name # names) =
     (case GetByName (e_challenges env) name of
        None \<Rightarrow> Inl (Err (''challenge '' @ name @ '' not found''))
      | Some (reg, _) \<Rightarrow>
          (case lookup_challenges env names of Inl e \<Rightarrow> Inl e | Inr regs \<Rightarrow> Inr (reg # regs)))"

text \<open>The table \<open>Register\<close>, applied to an action and its settings; \<open>None\<close> in it is an action that is not in the table.\<close>

function new_handler ::
    "env \<Rightarrow> (string \<Rightarrow> go_error + (string \<Rightarrow> string \<Rightarrow> string)) \<Rightarrow> string \<Rightarrow> string \<Rightarrow> string \<Rightarrow> settings_node option \<Rightarrow>
       (go_error + handler) option" where
  "new_handler env compile ruleName hash action settings =
     (if action = ''BLOCK'' then Some (Inr (HBlock 403 hash))
      else if action = ''DENY'' then Some (Inr (HDeny 403 hash))
      else if action = ''DROP'' then Some (Inr HDrop)
      else if action = ''NONE'' then Some (Inr HNone)
      else if action = ''PASS'' then Some (Inr HPass)
      else if action = ''CODE'' then Some (new_code settings)
      else if action = ''CONTEXT'' then Some (new_context settings)
      else if action = ''PROXY'' then Some (new_proxy compile settings)
      else if action = ''CHALLENGE'' \<or> action = ''CHECK'' then
        Some (case settings of
            None \<Rightarrow> Inl (Err (''no registered challenges found in rule '' @ ruleName))
          | Some node \<Rightarrow>
              (case sn_challenge node of
                 Inl e \<Rightarrow> Inl e
               | Inr params \<Rightarrow>
                   (case lookup_challenges env (chs_challenges params) of
                      Inl e \<Rightarrow> Inl e
                    | Inr [] \<Rightarrow> Inl (Err (''no registered challenges found in rule '' @ ruleName))
                    | Inr regs \<Rightarrow>
                        (case new_handler env compile ruleName hash (upper_string (chs_pass params)) (sn_pass node) of
                           None \<Rightarrow> Inl (Err (''unknown pass action '' @ chs_pass params))
                         | Some (Inl e) \<Rightarrow> Inl e
                         | Some (Inr pass) \<Rightarrow>
                             (case new_handler env compile ruleName hash (upper_string (chs_fail params)) (sn_fail node) of
                                None \<Rightarrow> Inl (Err (''unknown pass action '' @ chs_fail params))
                              | Some (Inl e) \<Rightarrow> Inl e
                              | Some (Inr fail) \<Rightarrow>
                                  Inr (HChallenge hash (if chs_code params = 0 then e_response_code env else chs_code params)
                                    (action = ''CHECK'') regs (upper_string (chs_pass params)) pass
                                    (upper_string (chs_fail params)) fail))))))
      else None)"
  by pat_completeness auto

definition settings_size :: "settings_node option \<Rightarrow> nat" where
  "settings_size settings = size_option size settings"

lemma settings_size_sub:
  "settings_size (sn_pass node) < settings_size (Some node)" "settings_size (sn_fail node) < settings_size (Some node)"
  unfolding settings_size_def by (cases node; simp)+

termination new_handler
  by (relation "measure (\<lambda>(env, compile, ruleName, hash, action, settings). settings_size settings)")
    (simp_all only: wf_measure in_measure prod.case settings_size_sub)

declare new_handler.simps [simp del]

end
