(* ===== verification/Action_Laws.thy ===== *)
theory Action_Laws
  imports Actions
begin

text \<open>
  What the actions guarantee: every handler answers the request exactly once or leaves it to the next
  rule, and a challenge action lets a request through only when one of its challenges has been passed.
\<close>

section \<open>Exactly one answer\<close>

primrec wf_handler :: "handler \<Rightarrow> bool" where
  "wf_handler (HBlock code hash) = (200 \<le> code)"
| "wf_handler (HDeny code hash) = (200 \<le> code)"
| "wf_handler HDrop = True"
| "wf_handler HNone = True"
| "wf_handler HPass = True"
| "wf_handler (HCode code) = (200 \<le> code)"
| "wf_handler (HContext opts) = True"
| "wf_handler (HProxy rewrite name) = True"
| "wf_handler (HChallenge hash code cont regs passAction pass failAction fail) =
     ((\<forall>reg \<in> set regs. wf_registration reg) \<and> wf_handler pass \<and> wf_handler fail)"

text \<open>The outcome of a handler: one answer when it stops, none when the next rule is to be processed or on an error.\<close>

definition answered :: "world \<Rightarrow> handled \<Rightarrow> bool" where
  "answered w o1 = (case o1 of
       Ret (Inr next) w' \<Rightarrow> answers w' = (if next then answers w else answers w + 1)
     | Ret (Inl e) w' \<Rightarrow> answers w' = answers w
     | Panic e w' \<Rightarrow> True)"

text \<open>Issuing a challenge, without the claim of its property.\<close>

lemma IssueChallenge_answers:
  assumes "IssueChallenge env reg k expiry w = Ret r w'" "200 \<le> e_response_code env"
  shows "answers w' = (if r = VerifyResultNone then answers w + 1 else answers w)"
  using IssueChallenge_issued [OF assms] by (simp add: issued_def)

text \<open>The callback for the headers finds a backend and does not answer by itself.\<close>

definition done_ok :: "done_func \<Rightarrow> bool" where
  "done_ok fin \<longleftrightarrow> (\<forall>w. \<exists>b w'. fin w = (BackendHandler b, w') \<and> answers w' = answers w)"

lemma answered_simps [simp]:
  "answered w (Ret (Inr next) w') \<longleftrightarrow> answers w' = (if next then answers w else answers w + 1)"
  "answered w (Ret (Inl e) w') \<longleftrightarrow> answers w' = answers w" "answered w (Panic e w')"
  by (simp_all add: answered_def)

lemma answered_same: "answers w' = answers w \<Longrightarrow> answered w' o1 = answered w o1"
  by (simp add: answered_def cong: outcome.case_cong sum.case_cong)

lemma answers_data [simp]:
  "answers (set_data f w) = answers w" "answers (count_metric m w) = answers w" "answers (set_req g w) = answers w"
  "answers (w\<lparr>w_header := h\<rparr>) = answers w"
  by (simp_all add: answers_def)

lemma ResponseHeaders_answers [simp]: "answers (ResponseHeaders env w) = answers w"
  using writes_same_request [OF ResponseHeaders_writes [of w env]] by simp

lemma callback_answers [simp]:
  "answers (ChallengeFailed reg w) = answers w" "answers (ChallengePassed reg w) = answers w"
  "answers (ChallengeChecked reg w) = answers w" "answers (ActionHit a w) = answers w"
  "answers (RuleHit a w) = answers w" "answers (RuleMiss a w) = answers w" "answers (record_result reg r w) = answers w"
  by (simp_all add: callback_defs record_result_def)

lemma serve_answers: "done_ok fin \<Longrightarrow> fin w = (h, w') \<Longrightarrow> answers (serve h w') = answers w + 1"
  unfolding done_ok_def by (drule spec [of _ w]) (auto simp: serve_def final_event_def)

lemma handle_deny_answered: "200 \<le> code \<Longrightarrow> answered w (handle_deny env code hash w)"
  using ErrorPage_cases [of env code "Err (''access denied: denied by administrative rule '' @ hex_encode (d_id (w_data w)) @ ''/'' @ hash)" "[]" w]
  by (auto simp: handle_deny_def answered_def final_event_def dest: writes_same_request)

lemma handle_proxy_answered: "done_ok fin \<Longrightarrow> answered w (handle_proxy env rewrite name fin w)"
proof -
  assume d: "done_ok fin"
  have "answered w (case fin w1 of (_, w2) \<Rightarrow> Ret (Inr False) (serve (BackendHandler b) w2))"
    if "answers w1 = answers w" for w1 b
    using d [unfolded done_ok_def, rule_format, of w1] that by (auto simp: answered_def serve_def final_event_def)
  then show ?thesis
    by (auto simp: handle_proxy_def Let_def answered_def [of w "Ret (Inl _) _"] split: option.split)
qed

lemma transparent_not_issued:
  assumes "IssueChallenge env reg k expiry w = Ret r w'" "wf_registration reg" "reg_class reg = ClassTransparent"
  shows "r \<noteq> VerifyResultNone"
proof (cases "reg_runtime reg")
  case (RDnsbl host ttl timeout)
  then show ?thesis
    using assms(1) by (auto simp: IssueChallenge_def issue_dnsbl_def obind_Ret_iff split: if_splits)
next
  case (RHttp p)
  then show ?thesis
    using assms(1) by (auto simp: IssueChallenge_def issue_http_def split: if_splits sum.splits)
next
  case (RPreloadLink deadline)
  then show ?thesis
    using assms(1) by (auto simp: IssueChallenge_def issue_preload_def Let_def split: if_splits sum.splits prod.splits)
qed (use assms(2,3) in \<open>auto simp: wf_registration_def blocking_runtime_def\<close>)

lemma valid_branch_answered:
  assumes "\<forall>w. answered w (pass w)"
  shows "answered w (valid_branch env cont passAction pass reg w)"
proof -
  have "answered w (pass (ActionHit passAction (ChallengeChecked reg w)))"
    using spec [OF assms, of "ActionHit passAction (ChallengeChecked reg w)"] by (subst (asm) answered_same) simp_all
  then show ?thesis unfolding valid_branch_def Let_def by (simp add: final_event_def)
qed

lemma check_loop_answered:
  assumes "\<forall>w. answered w (pass w)"
  shows "check_loop env cont passAction pass regs w = Some o1 \<Longrightarrow> answered w o1"
  by (induction regs) (auto split: if_splits intro: valid_branch_answered [OF assms])

lemma issue_loop_answered:
  assumes pass: "\<forall>w. answered w (pass w)" and fail: "\<forall>w. answered w (fail w)" and code: "200 \<le> e_response_code env"
  shows "\<forall>reg \<in> set regs. wf_registration reg \<Longrightarrow> answered w (issue_loop env cont passAction pass failAction fail regs w)"
proof (induction regs arbitrary: w)
  case Nil
  show ?case using spec [OF fail, of "ActionHit failAction w"] by (subst (asm) answered_same) simp_all
next
  case (Cons reg regs)
  have rest: "answered w (issue_loop env cont passAction pass failAction fail regs w1)" if "answers w1 = answers w" for w1
    using Cons.IH [of w1] Cons.prems answered_same [OF that] by simp
  have p: "answered w (pass w1)" "answered w (fail w1)" if "answers w1 = answers w" for w1
    using spec [OF pass, of w1] spec [OF fail, of w1] answered_same [OF that] by simp_all
  show ?case
  proof (cases "skipped reg w")
    case True
    then show ?thesis using rest by simp
  next
    case False
    let ?e = "Expiration (d_time (w_data w)) (reg_duration reg)"
    show ?thesis
    proof (cases "IssueChallenge env reg (GetChallengeKeyForRequest env reg ?e w) ?e w")
      case (Panic e w1)
      then show ?thesis using False by (simp add: Let_def)
    next
      case (Ret r w1)
      note a = IssueChallenge_answers [OF Ret code] transparent_not_issued [OF Ret]
      show ?thesis
        using False Ret a rest p Cons.prems by (cases r) (simp_all add: Let_def, blast)
    qed
  qed
qed

lemma Handle_answered:
  assumes "wf_handler h" "done_ok fin" "200 \<le> e_response_code env"
  shows "answered w (Handle h env fin w)"
  using assms(1)
proof (induction h arbitrary: w)
  case (HBlock code hash)
  then show ?case by (simp add: handle_block_def Let_def no_cache_def final_event_def)
next
  case (HDeny code hash)
  then show ?case by (simp add: handle_deny_answered)
next
  case HDrop
  then show ?case by (simp add: handle_drop_def no_cache_def final_event_def)
next
  case HPass
  then show ?case using serve_answers [OF assms(2)] by (simp add: handle_pass_def split: prod.split)
next
  case (HCode code)
  then show ?case by (simp add: handle_code_def no_cache_def final_event_def)
next
  case (HContext opts)
  then show ?case by (simp add: handle_context_def Let_def)
next
  case (HProxy rewrite name)
  then show ?case using handle_proxy_answered [OF assms(2)] by simp
next
  case (HChallenge hash code cont regs passAction pass failAction fail)
  have "\<forall>w. answered w (Handle pass env fin w)" "\<forall>w. answered w (Handle fail env fin w)"
    using HChallenge by simp_all
  then show ?case
    using check_loop_answered issue_loop_answered [OF _ _ assms(3)] HChallenge.prems
    by (auto simp: handle_challenge_def split: option.split)
qed simp

text \<open>
  C10: every action answers a request exactly once or leaves it to the next rule. For a handler whose
  status codes are final and whose challenges are well formed, with a backend to pass the request to:
  when the handler stops the processing it has given one answer (a status line, a redirect, a request
  served by a backend, a dropped connection), and when it continues or fails it has given none.
\<close>

theorem Handle_answers_once:
  assumes "wf_handler h" "done_ok fin" "200 \<le> e_response_code env"
  shows "case Handle h env fin w of
      Ret (Inr next) w' \<Rightarrow> answers w' = (if next then answers w else answers w + 1)
    | Ret (Inl e) w' \<Rightarrow> answers w' = answers w
    | Panic e w' \<Rightarrow> True"
  using Handle_answered [OF assms] by (simp add: answered_def)

definition sample_passed :: world where
  "sample_passed = set_data (\<lambda>d. d\<lparr>d_verify := [(1, VerifyResultOK)]\<rparr>) sample_world"

definition sample_gate :: handler where
  "sample_gate = HChallenge sample_hash 418 False [sample_reg] ''PASS'' HPass ''DENY'' (HDeny 403 sample_hash)"

definition sample_done :: done_func where
  "sample_done w = (BackendHandler ''backend'', w)"

lemma sample_gate_runs:
  "\<exists>w'. Handle sample_gate sample_env sample_done sample_passed = Ret (Inr False) w' \<and> w_events w' = [Served ''backend'' sample_request]"
proof -
  have "mkeys (url_query []) = []" by (simp add: url_query_def parse_query_loop.simps mkeys_def)
  then show ?thesis
    by (simp add: sample_gate_def sample_passed_def handle_challenge_def HasValidChallenge_def valid_branch_def
        has_go_away_params_def Let_def handle_pass_def sample_done_def serve_def callback_defs sample_world_def
        sample_data_def sample_request_def empty_url_def mget_or_def mget_Cons)
qed

theorem Handle_answers_once_witness:
  "\<exists>w'. Handle sample_gate sample_env sample_done sample_passed = Ret (Inr False) w' \<and> answers w' = 1"
proof -
  obtain w' where w': "Handle sample_gate sample_env sample_done sample_passed = Ret (Inr False) w'"
    using sample_gate_runs by blast
  have "wf_handler sample_gate"
    by (simp add: sample_gate_def wf_registration_def sample_reg_def blocking_runtime_def DefaultKeyHeaders_def)
  moreover have "done_ok sample_done" by (simp add: done_ok_def sample_done_def)
  moreover have "200 \<le> e_response_code sample_env" by (simp add: sample_env_def)
  ultimately have "answers w' = answers sample_passed + 1"
    using Handle_answers_once [of sample_gate sample_done sample_env sample_passed] w' by simp
  moreover have "answers sample_passed = 0" by (simp add: sample_passed_def answers_def sample_world_def)
  ultimately show ?thesis using w' by simp
qed

section \<open>The gate\<close>

definition is_challenge :: "handler \<Rightarrow> bool" where
  "is_challenge h = (case h of HChallenge _ _ _ _ _ _ _ _ \<Rightarrow> True | _ \<Rightarrow> False)"

text \<open>A handler that refuses the request.\<close>

definition refusing :: "handler \<Rightarrow> bool" where
  "refusing h = (case h of HBlock _ _ \<Rightarrow> True | HDeny _ _ \<Rightarrow> True | HDrop \<Rightarrow> True | HCode _ \<Rightarrow> True | _ \<Rightarrow> False)"

text \<open>The request has been let through: a backend has served it, or the next rule is to decide.\<close>

definition let_through :: "world \<Rightarrow> go_error + bool \<Rightarrow> world \<Rightarrow> bool" where
  "let_through w r w' \<longleftrightarrow> r = Inr True \<or> served_events w' \<noteq> served_events w"

definition keeps_results :: "done_func \<Rightarrow> bool" where
  "keeps_results fin \<longleftrightarrow> (\<forall>w. d_verify (w_data (snd (fin w))) = d_verify (w_data w))"

lemma served_data [simp]:
  "served_events (set_data f w) = served_events w" "served_events (count_metric m w) = served_events w"
  "served_events (set_req g w) = served_events w" "served_events (w\<lparr>w_header := h\<rparr>) = served_events w"
  "served_events (ResponseHeaders env w) = served_events w" "served_events (ChallengeFailed reg w) = served_events w"
  "served_events (ChallengePassed reg w) = served_events w" "served_events (ChallengeChecked reg w) = served_events w"
  "served_events (ActionHit a w) = served_events w" "served_events (record_result reg r w) = served_events w"
  using writes_same_request [OF ResponseHeaders_writes [of w env]]
  by (simp_all add: served_events_def callback_defs record_result_def)

lemma served_same: "served_events w' = served_events w \<Longrightarrow> served w' = served w"
  by (simp add: served_def)

lemma refusing_Handle:
  assumes "refusing h" "Handle h env fin w = Ret r w'"
  shows "\<not> let_through w r w'"
proof -
  have d: "\<not> let_through w r w'" if "handle_deny env code hash w = Ret r w'" for code hash
    using that ErrorPage_cases [of env code "Err (''access denied: denied by administrative rule '' @ hex_encode (d_id (w_data w)) @ ''/'' @ hash)" "[]" w]
    by (auto simp: handle_deny_def let_through_def is_served_def dest: writes_same_request)
  show ?thesis
    using assms d
    by (cases h) (auto simp: refusing_def let_through_def handle_block_def handle_drop_def handle_code_def no_cache_def
        Let_def is_served_def split: if_splits)
qed

lemma fold_SetOpt_verify [simp]: "d_verify (fold (\<lambda>(k, v). SetOpt k v) kvs d) = d_verify d"
  by (induction kvs arbitrary: d) (auto simp: SetOpt_def)

lemma simple_Handle_results:
  assumes "\<not> is_challenge h" "keeps_results fin" "Handle h env fin w = Ret r w'"
  shows "d_verify (w_data w') = d_verify (w_data w)"
proof -
  have f: "fin w1 = (x, w2) \<Longrightarrow> d_verify (w_data w2) = d_verify (w_data w1)" for w1 w2 x
    using assms(2) unfolding keeps_results_def by (metis snd_conv)
  have rh: "w_data (ResponseHeaders env x) = w_data x" for x
    using ResponseHeaders_writes [of x env] by (simp add: writes_def)
  have e: "ErrorPage env c x y w = Ret () w2 \<Longrightarrow> w_data w2 = w_data w" for c x y w2
    using ErrorPage_cases [of env c x y w] by (auto simp: writes_def)
  show ?thesis
    using assms(1,3) e
    by (cases h) (auto simp: is_challenge_def handle_block_def handle_deny_def handle_drop_def handle_pass_def
        handle_code_def handle_context_def handle_proxy_def no_cache_def serve_def Let_def rh obind_Ret_iff
        dest!: f split: if_splits option.splits prod.splits http_handler.splits)
qed

definition passed_one :: "registration list \<Rightarrow> world \<Rightarrow> bool" where
  "passed_one regs w \<longleftrightarrow> (\<exists>reg \<in> set regs. HasValidChallenge (w_data w) (reg_id reg))"

lemma HasValidChallenge_same: "d_verify (w_data w') = d_verify (w_data w) \<Longrightarrow> passed_one regs w' = passed_one regs w"
  by (simp add: passed_one_def HasValidChallenge_def)

lemma check_loop_gate:
  assumes "check_loop env cont passAction pass regs w = Some (Ret r w')"
    and "\<forall>w r w'. pass w = Ret r w' \<longrightarrow> d_verify (w_data w') = d_verify (w_data w)"
  shows "passed_one regs w'"
  using assms(1)
proof (induction regs)
  case (Cons reg regs)
  show ?case
  proof (cases "HasValidChallenge (w_data w) (reg_id reg)")
    case True
    then have v: "valid_branch env cont passAction pass reg w = Ret r w'" using Cons.prems by simp
    have "w_data (ResponseHeaders env x) = w_data x" for x
      using ResponseHeaders_writes [of x env] by (simp add: writes_def)
    then have "d_verify (w_data w') = d_verify (w_data w)"
      using v assms(2) by (fastforce simp: valid_branch_def Let_def callback_defs split: if_splits)
    then show ?thesis using True HasValidChallenge_same [of w' w "reg # regs"] by (auto simp: passed_one_def)
  next
    case False
    then show ?thesis using Cons by (auto simp: passed_one_def)
  qed
qed simp

lemma issue_loop_gate:
  assumes pass: "\<forall>w r w'. pass w = Ret r w' \<longrightarrow> d_verify (w_data w') = d_verify (w_data w)"
    and fail: "\<forall>w r w'. fail w = Ret r w' \<longrightarrow> \<not> let_through w r w'" and code: "200 \<le> e_response_code env"
  shows "issue_loop env cont passAction pass failAction fail regs w = Ret r w' \<Longrightarrow> let_through w r w' \<Longrightarrow> passed_one regs w'"
proof (induction regs arbitrary: w)
  case Nil
  then show ?case using fail by (fastforce simp: let_through_def)
next
  case (Cons reg regs)
  have rest: "passed_one (reg # regs) w'" if "issue_loop env cont passAction pass failAction fail regs w1 = Ret r w'" "served_events w1 = served_events w" for w1
    using Cons.IH [OF that(1)] Cons.prems(2) that(2) by (auto simp: let_through_def passed_one_def)
  have no: False if "fail w1 = Ret r w'" "served_events w1 = served_events w" for w1
    using fail that Cons.prems(2) by (auto simp: let_through_def)
  show ?case
  proof (cases "skipped reg w")
    case True
    then show ?thesis using rest Cons.prems by simp
  next
    case False
    let ?e = "Expiration (d_time (w_data w)) (reg_duration reg)"
    show ?thesis
    proof (cases "IssueChallenge env reg (GetChallengeKeyForRequest env reg ?e w) ?e w")
      case (Panic e w1)
      then show ?thesis using False Cons.prems by (simp add: Let_def)
    next
      case (Ret x w1)
      have s: "served_events w1 = served_events w" using IssueChallenge_issued [OF Ret code] by (simp add: issued_def)
      show ?thesis
      proof (cases "x = VerifyResultOK")
        case True
        define w3 where "w3 = ChallengePassed reg (record_result reg x w1)"
        have "HasValidChallenge (w_data w3) (reg_id reg)"
          by (simp add: w3_def callback_defs record_result_def HasValidChallenge_def True)
        moreover have "d_verify (w_data w') = d_verify (w_data w3)"
          using Cons.prems(1) False Ret True pass by (fastforce simp: Let_def w3_def callback_defs split: if_splits)
        ultimately show ?thesis using HasValidChallenge_same [of w' w3 "reg # regs"] by (auto simp: passed_one_def)
      next
        case ne: False
        then show ?thesis
          using Cons.prems False Ret rest [of "record_result reg x w1"] rest [of "ChallengeFailed reg (record_result reg x w1)"]
            no [of "ActionHit failAction (ChallengeFailed reg (record_result reg x w1))"] s
          by (cases x) (auto simp: Let_def let_through_def split: if_splits)
      qed
    qed
  qed
qed

lemma challenge_lets_through:
  assumes "Handle (HChallenge hash code cont regs passAction pass failAction fail) env fin w = Ret r w'"
    and "refusing fail" "\<not> is_challenge pass" "keeps_results fin" "200 \<le> e_response_code env"
    and "let_through w r w'"
  shows "passed_one regs w'"
proof -
  have pass: "\<forall>w r w'. Handle pass env fin w = Ret r w' \<longrightarrow> d_verify (w_data w') = d_verify (w_data w)"
    using simple_Handle_results [OF assms(3,4)] by blast
  have fail: "\<forall>w r w'. Handle fail env fin w = Ret r w' \<longrightarrow> \<not> let_through w r w'"
    using refusing_Handle [OF assms(2)] by blast
  show ?thesis
    using assms(1,6) check_loop_gate [OF _ pass] issue_loop_gate [OF pass fail assms(5)]
    by (auto simp: handle_challenge_def let_through_def split: option.splits)
qed

text \<open>
  C9: a challenge action is a gate. Take a challenge or check action whose fail action refuses the request
  and whose pass action is any action but a challenge. When it lets a request through, that is, hands
  it to a backend or leaves it to the next rule, one of its challenges counts as passed for this
  request at the end: by the evaluation of the tokens before, or by its verification on the spot.
\<close>

theorem challenge_gate:
  assumes "Handle (HChallenge hash code cont regs passAction pass failAction fail) env fin w = Ret r w'"
    and "refusing fail" "\<not> is_challenge pass" "keeps_results fin" "200 \<le> e_response_code env"
    and "r = Inr True \<or> served w' \<noteq> served w"
  shows "\<exists>reg \<in> set regs. HasValidChallenge (w_data w') (reg_id reg)"
proof -
  have "let_through w r w'" using assms(6) served_same [of w' w] by (auto simp: let_through_def)
  then show ?thesis using challenge_lets_through [OF assms(1-5)] by (simp add: passed_one_def)
qed

theorem challenge_gate_witness:
  "\<exists>w'. Handle sample_gate sample_env sample_done sample_passed = Ret (Inr False) w' \<and> served w' = 1 \<and>
     HasValidChallenge (w_data w') 1"
proof -
  obtain w' where w': "Handle sample_gate sample_env sample_done sample_passed = Ret (Inr False) w'"
      "w_events w' = [Served ''backend'' sample_request]"
    using sample_gate_runs by blast
  have s: "served w' = 1" "served sample_passed = 0"
    by (simp_all add: w'(2) served_def served_events_def is_served_def sample_passed_def sample_world_def)
  have "\<exists>reg \<in> set [sample_reg]. HasValidChallenge (w_data w') (reg_id reg)"
    by (rule challenge_gate [OF w'(1) [unfolded sample_gate_def]])
      (simp_all add: refusing_def is_challenge_def keeps_results_def sample_done_def sample_env_def s)
  then show ?thesis using w'(1) s(1) by simp
qed

end
