(* ===== verification/Rules.thy ===== *)
theory Rules
  imports Action_Laws
begin

text \<open>
  The rules of the policy (\<open>lib/rule.go\<close>): how a rule of the policy becomes a rule of the state, and how a
  rule with its children is evaluated for a request. The evaluation is given twice, as the function
  that the code is and as a relation with one rule per way a rule can end; they agree.
\<close>

section \<open>Making rules\<close>

datatype rule_state =
  RuleState (rs_name: string) (rs_hash: string) (rs_condition: "cel_program option") (rs_action: string)
    (rs_handler: handler) (rs_children: "rule_state list")

datatype policy_rule =
  PolicyRule (pr_name: string) (pr_conditions: "string list") (pr_action: string) (pr_settings: "settings_node option")
    (pr_children: "policy_rule list")

text \<open>What a rule is made with: the compiler of regular expressions, the one of conditions, and the replacer.\<close>

record compilers =
  co_regexp :: "string \<Rightarrow> go_error + (string \<Rightarrow> string \<Rightarrow> string)"
  co_condition :: "string list \<Rightarrow> go_error + cel_program"
  co_replace :: "string \<Rightarrow> string"

definition rule_hash :: "env \<Rightarrow> string option \<Rightarrow> string \<Rightarrow> string" where
  "rule_hash env parent name =
     hex_encode (take 10 (e_sha256 env
       ((case parent of None \<Rightarrow> [] | Some p \<Rightarrow> bytes_of p @ [0]) @ bytes_of name @ [0] @ e_fingerprint env)))"

definition full_name :: "string option \<Rightarrow> string \<Rightarrow> string" where
  "full_name parent name = (case parent of None \<Rightarrow> name | Some p \<Rightarrow> p @ ''/'' @ name)"

definition compile_conditions :: "compilers \<Rightarrow> string list \<Rightarrow> go_error + cel_program option" where
  "compile_conditions co conditions =
     (if conditions = [] then Inr None
      else (case co_condition co (map (co_replace co) conditions) of
          Inl e \<Rightarrow> Inl (Wrap ''error compiling condition'' e)
        | Inr program \<Rightarrow> Inr (Some program)))"

fun NewRuleState :: "env \<Rightarrow> compilers \<Rightarrow> string option \<Rightarrow> policy_rule \<Rightarrow> go_error + rule_state"
  and new_children :: "env \<Rightarrow> compilers \<Rightarrow> string \<Rightarrow> policy_rule list \<Rightarrow> go_error + rule_state list" where
  "NewRuleState env co parent (PolicyRule rname conditions raction settings children) =
     (let name = full_name parent rname; hash = rule_hash env parent name; action = upper_string raction in
      case new_handler env (co_regexp co) name hash action settings of
        None \<Rightarrow> Inl (Err (''unknown action '' @ raction))
      | Some (Inl e) \<Rightarrow> Inl e
      | Some (Inr h) \<Rightarrow>
          (case compile_conditions co conditions of
             Inl e \<Rightarrow> Inl e
           | Inr condition \<Rightarrow>
               (case new_children env co name children of
                  Inl e \<Rightarrow> Inl e
                | Inr rs \<Rightarrow> Inr (RuleState name hash condition action h rs))))"
| "new_children env co name [] = Inr []"
| "new_children env co name (child # children) =
     (case NewRuleState env co (Some name) child of
        Inl e \<Rightarrow> Inl (Wrap (''child '' @ pr_name child) e)
      | Inr r \<Rightarrow> (case new_children env co name children of Inl e \<Rightarrow> Inl e | Inr rs \<Rightarrow> Inr (r # rs)))"

section \<open>Evaluating rules\<close>

definition cel_type_name :: "cel_value \<Rightarrow> string" where
  "cel_type_name v =
     (case v of CelBool _ \<Rightarrow> ''bool'' | CelString _ \<Rightarrow> ''string'' | CelBytes _ \<Rightarrow> ''bytes''
      | CelStringMap _ \<Rightarrow> ''map'' | CelValues _ \<Rightarrow> ''map'')"

text \<open>The callback of a rule marks the request with the rule before it passes it on.\<close>

definition rule_done :: "string \<Rightarrow> string \<Rightarrow> string \<Rightarrow> done_func \<Rightarrow> done_func" where
  "rule_done name hash action fin w =
     fin (set_req (\<lambda>r. r\<lparr>r_header := header_set (header_set (header_set (r_header r) ''X-Away-Rule'' name)
       ''X-Away-Hash'' hash) ''X-Away-Action'' action\<rparr>) w)"

definition rule_error :: "string \<Rightarrow> string \<Rightarrow> world \<Rightarrow> go_error \<Rightarrow> go_error" where
  "rule_error what hash w e =
     Wrap (''error: '' @ what @ '' administrative rule '' @ hex_encode (d_id (w_data w)) @ ''/'' @ hash) e"

definition condition_value :: "env \<Rightarrow> cel_program option \<Rightarrow> world \<Rightarrow> go_error + cel_value option" where
  "condition_value env condition w =
     (case condition of None \<Rightarrow> Inr (Some (CelBool True)) | Some p \<Rightarrow> eval_condition env p w)"

definition run_handler :: "env \<Rightarrow> done_func \<Rightarrow> rule_state \<Rightarrow> world \<Rightarrow> handled" where
  "run_handler env fin rule w =
     Handle (rs_handler rule) env (rule_done (rs_name rule) (rs_hash rule) (rs_action rule) fin)
       (ActionHit (rs_action rule) (RuleHit (rs_name rule) w))"

fun Evaluate :: "env \<Rightarrow> done_func \<Rightarrow> rule_state \<Rightarrow> world \<Rightarrow> handled"
  and evaluate_children :: "env \<Rightarrow> done_func \<Rightarrow> string \<Rightarrow> rule_state list \<Rightarrow> world \<Rightarrow> handled" where
  "Evaluate env fin (RuleState name hash condition action h children) w =
     (case condition_value env condition w of
        Inl e \<Rightarrow> Ret (Inl (rule_error ''evaluating'' hash w e)) w
      | Inr None \<Rightarrow> Ret (Inr True) w
      | Inr (Some (CelBool True)) \<Rightarrow>
          (case run_handler env fin (RuleState name hash condition action h children) w of
             Panic e w1 \<Rightarrow> Panic e w1
           | Ret (Inl e) w1 \<Rightarrow> Ret (Inl (rule_error ''executing'' hash w1 e)) w1
           | Ret (Inr False) w1 \<Rightarrow> Ret (Inr False) w1
           | Ret (Inr True) w1 \<Rightarrow> evaluate_children env fin hash children w1)
      | Inr (Some (CelBool False)) \<Rightarrow> Ret (Inr True) (RuleMiss name w)
      | Inr (Some v) \<Rightarrow>
          Ret (Inl (rule_error ''evaluating'' hash w (Err (''return type not Bool, got '' @ cel_type_name v)))) w)"
| "evaluate_children env fin hash [] w = Ret (Inr True) w"
| "evaluate_children env fin hash (child # children) w =
     (case Evaluate env fin child w of
        Panic e w1 \<Rightarrow> Panic e w1
      | Ret (Inl e) w1 \<Rightarrow> Ret (Inl (rule_error ''executing'' hash w1 e)) w1
      | Ret (Inr False) w1 \<Rightarrow> Ret (Inr False) w1
      | Ret (Inr True) w1 \<Rightarrow> evaluate_children env fin hash children w1)"

section \<open>The semantics as a relation\<close>

text \<open>
  \<open>runs rule w r w'\<close>: evaluating the rule in \<open>w\<close> ends in \<open>w'\<close> with the error or the decision \<open>r\<close>;
  \<open>runs_all\<close> is the same for the children of a rule with a given hash.
\<close>

inductive runs :: "env \<Rightarrow> done_func \<Rightarrow> rule_state \<Rightarrow> world \<Rightarrow> go_error + bool \<Rightarrow> world \<Rightarrow> bool"
  and runs_all :: "env \<Rightarrow> done_func \<Rightarrow> string \<Rightarrow> rule_state list \<Rightarrow> world \<Rightarrow> go_error + bool \<Rightarrow> world \<Rightarrow> bool"
  for env :: env and fin :: done_func where
  condition_error:
    "condition_value env (rs_condition rule) w = Inl e \<Longrightarrow>
       runs env fin rule w (Inl (rule_error ''evaluating'' (rs_hash rule) w e)) w"
| no_value: "condition_value env (rs_condition rule) w = Inr None \<Longrightarrow> runs env fin rule w (Inr True) w"
| not_bool:
    "condition_value env (rs_condition rule) w = Inr (Some v) \<Longrightarrow> \<forall>b. v \<noteq> CelBool b \<Longrightarrow>
       runs env fin rule w
         (Inl (rule_error ''evaluating'' (rs_hash rule) w (Err (''return type not Bool, got '' @ cel_type_name v)))) w"
| miss:
    "condition_value env (rs_condition rule) w = Inr (Some (CelBool False)) \<Longrightarrow>
       runs env fin rule w (Inr True) (RuleMiss (rs_name rule) w)"
| hit_error:
    "condition_value env (rs_condition rule) w = Inr (Some (CelBool True)) \<Longrightarrow>
     run_handler env fin rule w = Ret (Inl e) w1 \<Longrightarrow>
       runs env fin rule w (Inl (rule_error ''executing'' (rs_hash rule) w1 e)) w1"
| hit_stop:
    "condition_value env (rs_condition rule) w = Inr (Some (CelBool True)) \<Longrightarrow>
     run_handler env fin rule w = Ret (Inr False) w1 \<Longrightarrow> runs env fin rule w (Inr False) w1"
| hit_next:
    "condition_value env (rs_condition rule) w = Inr (Some (CelBool True)) \<Longrightarrow>
     run_handler env fin rule w = Ret (Inr True) w1 \<Longrightarrow>
     runs_all env fin (rs_hash rule) (rs_children rule) w1 r w2 \<Longrightarrow> runs env fin rule w r w2"
| all_done: "runs_all env fin hash [] w (Inr True) w"
| child_error:
    "runs env fin child w (Inl e) w1 \<Longrightarrow>
       runs_all env fin hash (child # children) w (Inl (rule_error ''executing'' hash w1 e)) w1"
| child_stop: "runs env fin child w (Inr False) w1 \<Longrightarrow> runs_all env fin hash (child # children) w (Inr False) w1"
| child_next:
    "runs env fin child w (Inr True) w1 \<Longrightarrow> runs_all env fin hash children w1 r w2 \<Longrightarrow>
       runs_all env fin hash (child # children) w r w2"

inductive_cases runs_allE: "runs_all env fin hash (child # children) w r w'"
inductive_simps runs_all_Nil [simp]: "runs_all env fin hash [] w r w'"

lemma Evaluate_eq:
  "Evaluate env fin rule w =
     (case condition_value env (rs_condition rule) w of
        Inl e \<Rightarrow> Ret (Inl (rule_error ''evaluating'' (rs_hash rule) w e)) w
      | Inr None \<Rightarrow> Ret (Inr True) w
      | Inr (Some (CelBool True)) \<Rightarrow>
          (case run_handler env fin rule w of
             Panic e w1 \<Rightarrow> Panic e w1
           | Ret (Inl e) w1 \<Rightarrow> Ret (Inl (rule_error ''executing'' (rs_hash rule) w1 e)) w1
           | Ret (Inr False) w1 \<Rightarrow> Ret (Inr False) w1
           | Ret (Inr True) w1 \<Rightarrow> evaluate_children env fin (rs_hash rule) (rs_children rule) w1)
      | Inr (Some (CelBool False)) \<Rightarrow> Ret (Inr True) (RuleMiss (rs_name rule) w)
      | Inr (Some v) \<Rightarrow>
          Ret (Inl (rule_error ''evaluating'' (rs_hash rule) w (Err (''return type not Bool, got '' @ cel_type_name v)))) w)"
proof (cases rule)
  case (RuleState name hash condition action h children)
  show ?thesis unfolding RuleState Evaluate.simps rule_state.sel ..
qed

lemma runs_Evaluate:
  "runs env fin rule w r w' \<Longrightarrow> Evaluate env fin rule w = Ret r w'"
  "runs_all env fin hash children w r w' \<Longrightarrow> evaluate_children env fin hash children w = Ret r w'"
proof (induction rule: runs_runs_all.inducts)
  case (not_bool rule w v)
  then show ?case by (cases v) (auto simp: Evaluate_eq)
qed (simp_all add: Evaluate_eq)

lemma Evaluate_runs:
  "Evaluate env fin rule w = Ret r w' \<Longrightarrow> runs env fin rule w r w'"
  "evaluate_children env fin hash children w = Ret r w' \<Longrightarrow> runs_all env fin hash children w r w'"
proof (induction env fin rule w and env fin hash children w arbitrary: r w' and r w'
    rule: Evaluate_evaluate_children.induct)
  case (1 env fin name hash condition action h children w)
  let ?rule = "RuleState name hash condition action h children"
  show ?case
  proof (cases "condition_value env condition w")
    case (Inl e)
    with 1 condition_error [of env ?rule w e fin] show ?thesis by auto
  next
    case (Inr v)
    show ?thesis
    proof (cases v)
      case None
      with 1 Inr no_value [of env ?rule w fin] show ?thesis by auto
    next
      case (Some x)
      consider "x = CelBool True" | "x = CelBool False" | "\<forall>b. x \<noteq> CelBool b"
        by (cases x) auto
      then show ?thesis
      proof cases
        case 1
        show ?thesis
        proof (cases "run_handler env fin ?rule w")
          case (Panic e w1)
          then show ?thesis using "1.prems" Inr Some 1 by simp
        next
          case (Ret q w1)
          have c: "condition_value env (rs_condition ?rule) w = Inr (Some (CelBool True))" using Inr Some 1 by simp
          consider e where "q = Inl e" | "q = Inr False" | "q = Inr True" by (cases q) auto
          then show ?thesis
          proof cases
            case (1 e)
            then show ?thesis using "1.prems" c Ret hit_error [OF c, of fin e w1] by auto
          next
            case 2
            then show ?thesis using "1.prems" c Ret hit_stop [OF c, of fin w1] by auto
          next
            case 3
            then have "evaluate_children env fin hash children w1 = Ret r w'"
              using "1.prems" c Ret by simp
            then have "runs_all env fin hash children w1 r w'"
              using "1.IH" Inr Some \<open>x = CelBool True\<close> Ret 3 by simp
            then show ?thesis using hit_next [OF c, of fin w1 r w'] Ret 3 by simp
          qed
        qed
      next
        case 2
        then show ?thesis using "1.prems" Inr Some miss [of env ?rule w fin] by auto
      next
        case 3
        then show ?thesis using "1.prems" Inr Some not_bool [of env ?rule w x fin] by (cases x) auto
      qed
    qed
  qed
next
  case (2 env fin hash w)
  then show ?case by simp
next
  case (3 env fin hash child children w)
  show ?case
  proof (cases "Evaluate env fin child w")
    case (Panic e w1)
    then show ?thesis using "3.prems" by simp
  next
    case (Ret q w1)
    have c: "runs env fin child w q w1" using "3.IH"(1) Ret by simp
    consider e where "q = Inl e" | "q = Inr False" | "q = Inr True" by (cases q) auto
    then show ?thesis
    proof cases
      case (1 e)
      then show ?thesis using "3.prems" Ret c child_error [of env fin child w e w1] by auto
    next
      case 2
      then show ?thesis using "3.prems" Ret c child_stop [of env fin child w w1] by auto
    next
      case 3
      then have "runs_all env fin hash children w1 r w'" using "3.prems" "3.IH"(2) Ret by simp
      then show ?thesis using c 3 child_next by blast
    qed
  qed
qed

section \<open>Answers\<close>

fun wf_rule :: "rule_state \<Rightarrow> bool" where
  "wf_rule (RuleState name hash condition action h children) \<longleftrightarrow> wf_handler h \<and> (\<forall>r \<in> set children. wf_rule r)"

lemma rule_done_ok: "done_ok fin \<Longrightarrow> done_ok (rule_done name hash action fin)"
proof -
  assume d: "done_ok fin"
  have "\<exists>b w'. fin (set_req g w) = (BackendHandler b, w') \<and> answers w' = answers w" for g w
    using d [unfolded done_ok_def, rule_format, of "set_req g w"] by simp
  then show ?thesis by (simp add: done_ok_def rule_done_def)
qed

lemma run_handler_answered:
  assumes "wf_handler (rs_handler rule)" "done_ok fin" "200 \<le> e_response_code env"
  shows "answered w (run_handler env fin rule w)"
proof -
  have "answers (ActionHit a (RuleHit n w)) = answers w" for a n by simp
  then show ?thesis
    using Handle_answered [OF assms(1) rule_done_ok [OF assms(2)] assms(3)]
    unfolding run_handler_def by (metis answered_same)
qed

lemma Evaluate_answered:
  shows "wf_rule rule \<Longrightarrow> done_ok fin \<Longrightarrow> 200 \<le> e_response_code env \<Longrightarrow> answered w (Evaluate env fin rule w)"
    and "\<forall>r \<in> set children. wf_rule r \<Longrightarrow> done_ok fin \<Longrightarrow> 200 \<le> e_response_code env \<Longrightarrow> answered w (evaluate_children env fin hash children w)"
proof (induction env fin rule w and env fin hash children w rule: Evaluate_evaluate_children.induct)
  case (1 env fin name hash condition action h children w)
  let ?rule = "RuleState name hash condition action h children"
  have run: "answered w (run_handler env fin ?rule w)"
    using "1.prems" by (intro run_handler_answered) simp_all
  show ?case
  proof (cases "condition_value env condition w = Inr (Some (CelBool True))")
    case True
    show ?thesis
    proof (cases "run_handler env fin ?rule w")
      case (Panic e w1)
      then show ?thesis using True by simp
    next
      case (Ret q w1)
      consider e where "q = Inl e" | "q = Inr False" | "q = Inr True" by (cases q) auto
      then show ?thesis
      proof cases
        case 3
        then have e: "answers w1 = answers w" using run Ret by simp
        have "answered w1 (evaluate_children env fin hash children w1)"
          using "1.IH" True Ret 3 "1.prems" by simp
        then have "answered w (evaluate_children env fin hash children w1)" using answered_same [OF e] by simp
        then show ?thesis using True Ret 3 by simp
      qed (use run True Ret in simp_all)
    qed
  next
    case False
    then show ?thesis by (auto split: sum.split option.split cel_value.split bool.split)
  qed
next
  case (3 env fin hash child children w)
  have c: "answered w (Evaluate env fin child w)" using "3.IH"(1) "3.prems" by simp
  show ?case
  proof (cases "Evaluate env fin child w")
    case (Panic e w1)
    then show ?thesis by simp
  next
    case (Ret q w1)
    consider e where "q = Inl e" | "q = Inr False" | "q = Inr True" by (cases q) auto
    then show ?thesis
    proof cases
      case 3
      then have e: "answers w1 = answers w" using c Ret by simp
      have "answered w1 (evaluate_children env fin hash children w1)"
        using "3.IH"(2) Ret 3 "3.prems" by simp
      then have "answered w (evaluate_children env fin hash children w1)" using answered_same [OF e] by simp
      then show ?thesis using Ret 3 by simp
    qed (use c Ret in simp_all)
  qed
qed simp_all

section \<open>Properties\<close>


end
