(* ===== verification/Conditions.thy ===== *)
theory Conditions
  imports Networks Rules
begin

text \<open>
  The functions that conditions may call and the registration of a condition (\<open>lib/conditions.go\<close>): the
  test of a network, which loads the network on first use, the test of a country with its cache, and
  the walk over the syntax tree of a condition that loads the networks it names. The language of the
  conditions, the country database and Unicode are not part of the program.
\<close>

section \<open>Networks that are loaded once\<close>

text \<open>A network is a function made by \<open>sync.OnceValue\<close>: it has not run yet, or it keeps its result.\<close>

datatype 'r cell = Unloaded | Loaded 'r

record ('r, 'd) net_state =
  ns_cells :: "(string, 'r cell) gomap"
  ns_disk :: 'd

type_synonym ('r, 'd) loader = "string \<Rightarrow> 'd \<Rightarrow> 'r \<times> 'd"

text \<open>The network with a name, if the policy has one.\<close>

definition run_network :: "('r, 'd) loader \<Rightarrow> string \<Rightarrow> ('r, 'd) net_state \<Rightarrow> 'r option \<times> ('r, 'd) net_state" where
  "run_network load k s =
     (case mget (ns_cells s) k of
        None \<Rightarrow> (None, s)
      | Some (Loaded r) \<Rightarrow> (Some r, s)
      | Some Unloaded \<Rightarrow>
          (case load k (ns_disk s) of
             (r, d) \<Rightarrow> (Some r, \<lparr>ns_cells = mset_key k (Loaded r) (ns_cells s), ns_disk = d\<rparr>)))"

definition is_loaded :: "('r, 'd) net_state \<Rightarrow> string \<Rightarrow> bool" where
  "is_loaded s k \<longleftrightarrow> (case mget (ns_cells s) k of Some (Loaded r) \<Rightarrow> True | _ \<Rightarrow> False)"

definition configured :: "('r, 'd) net_state \<Rightarrow> string \<Rightarrow> bool" where
  "configured s k \<longleftrightarrow> mget (ns_cells s) k \<noteq> None"

section \<open>The test of a network\<close>

text \<open>The Go values that a condition passes; a byte slice may be nil.\<close>

datatype go_value =
    GoBytes "bytes option" | GoNetIP "ip option" | GoString string | GoList "go_value list" | GoOther string

definition value_ip :: "go_value \<Rightarrow> ip option" where
  "value_ip v = (case v of GoBytes b \<Rightarrow> b | GoNetIP b \<Rightarrow> b | _ \<Rightarrow> None)"

definition network_test ::
    "string \<Rightarrow> 'r ranger_ops \<Rightarrow> (string \<Rightarrow> go_error + ip_net) \<Rightarrow> ('r, 'd) loader \<Rightarrow> go_value \<Rightarrow> go_value \<Rightarrow>
       ('r, 'd) net_state \<Rightarrow> (bool, ('r, 'd) net_state) outcome" where
  "network_test what ra cidr load addr name s =
     (case value_ip addr of
        None \<Rightarrow> Panic (Err ''invalid ip'') s
      | Some ip \<Rightarrow>
          (case name of
             GoString val \<Rightarrow>
               (case run_network load val s of
                  (None, s1) \<Rightarrow>
                    (case cidr val of
                       Inl e \<Rightarrow> Panic (Err ''network not found'') s1
                     | Inr n \<Rightarrow> Ret (Contains n ip) s1)
                | (Some r, s1) \<Rightarrow>
                    (case ra_contains ra r ip of Inl e \<Rightarrow> Panic e s1 | Inr b \<Rightarrow> Ret b s1))
           | _ \<Rightarrow> Panic (Err what) s))"

text \<open>\<open>addr.network(name)\<close>, and the deprecated \<open>inNetwork(name, addr)\<close>.\<close>

definition cel_network ::
    "'r ranger_ops \<Rightarrow> (string \<Rightarrow> go_error + ip_net) \<Rightarrow> ('r, 'd) loader \<Rightarrow> go_value \<Rightarrow> go_value \<Rightarrow>
       ('r, 'd) net_state \<Rightarrow> (bool, ('r, 'd) net_state) outcome" where
  "cel_network ra cidr load lhs rhs s = network_test ''invalid network value'' ra cidr load lhs rhs s"

definition cel_inNetwork ::
    "'r ranger_ops \<Rightarrow> (string \<Rightarrow> go_error + ip_net) \<Rightarrow> ('r, 'd) loader \<Rightarrow> go_value \<Rightarrow> go_value \<Rightarrow>
       ('r, 'd) net_state \<Rightarrow> (bool, ('r, 'd) net_state) outcome" where
  "cel_inNetwork ra cidr load lhs rhs s = network_test ''invalid value'' ra cidr load rhs lhs s"

section \<open>The test of a country\<close>

record geo =
  g_open :: bool
  g_db :: "ip \<Rightarrow> go_error + string \<times> (string, string) gomap"
  g_text :: "ip \<Rightarrow> string"
  g_upper :: "string \<Rightarrow> string"
  g_trim :: "string \<Rightarrow> string"
  g_max :: nat

text \<open>
  \<open>strings.ToUpper\<close> and \<open>strings.TrimSpace\<close>: text in ASCII is handled byte by byte, other text with the
  tables of Unicode.
\<close>

definition is_ascii :: "string \<Rightarrow> bool" where
  "is_ascii s \<longleftrightarrow> list_all (\<lambda>c. of_char c < (128 :: nat)) s"

definition ToUpper :: "geo \<Rightarrow> string \<Rightarrow> string" where
  "ToUpper g s = (if is_ascii s then upper_string s else g_upper g s)"

definition TrimSpace :: "geo \<Rightarrow> string \<Rightarrow> string" where
  "TrimSpace g s = (if is_ascii s then trim_space s else g_trim g s)"

text \<open>An entry is the country's code and its English name, both empty for an address without one.\<close>

type_synonym country = "string \<times> string"
type_synonym geo_cache = "(string, country) gomap"

text \<open>The country of an address and the new cache; None is the early answer after a failed lookup.\<close>

definition country_lookup :: "geo \<Rightarrow> ip \<Rightarrow> geo_cache \<Rightarrow> country option \<times> geo_cache" where
  "country_lookup g ip mem =
     (let ipStr = g_text g ip in
      case mget mem ipStr of
        Some cached \<Rightarrow> (Some cached, mem)
      | None \<Rightarrow>
          (case g_db g ip of
             Inl err \<Rightarrow> (None, mset_key ipStr ([], []) mem)
           | Inr (code, names) \<Rightarrow>
               (let c = (code, mget_or [] names ''en'') in
                (Some c, if length mem < g_max g then mset_key ipStr c mem else mem))))"

definition country_is :: "geo \<Rightarrow> country \<Rightarrow> string \<Rightarrow> bool" where
  "country_is g c input =
     (case c of (code, name) \<Rightarrow>
        ToUpper g code = ToUpper g (TrimSpace g input) \<or> ToUpper g name = ToUpper g (TrimSpace g input))"

fun country_any :: "geo \<Rightarrow> country \<Rightarrow> go_value list \<Rightarrow> bool" where
  "country_any g c [] = False"
| "country_any g c (GoString s # vs) = (if country_is g c s then True else country_any g c vs)"
| "country_any g c (v # vs) = country_any g c vs"

definition invalid_ip :: "go_value \<Rightarrow> string" where
  "invalid_ip v =
     (case v of GoBytes b \<Rightarrow> ''invalid ip'' | GoNetIP b \<Rightarrow> ''invalid ip''
      | _ \<Rightarrow> ''invalid ip type, expected []byte or net.IP'')"

definition country_check ::
    "geo \<Rightarrow> go_value \<Rightarrow> go_error + (country \<Rightarrow> bool) \<Rightarrow> geo_cache \<Rightarrow> (bool, geo_cache) outcome" where
  "country_check g addr test mem =
     (case value_ip addr of
        None \<Rightarrow> Panic (Err (invalid_ip addr)) mem
      | Some ip \<Rightarrow>
          (case test of
             Inl e \<Rightarrow> Panic e mem
           | Inr matches \<Rightarrow>
               (if \<not> g_open g then Panic (Err ''geoip database not configured'') mem
                else (case country_lookup g ip mem of
                    (None, mem1) \<Rightarrow> Ret False mem1
                  | (Some c, mem1) \<Rightarrow> (if c = ([], []) then Ret False mem1 else Ret (matches c) mem1)))))"

definition cel_country_string :: "geo \<Rightarrow> go_value \<Rightarrow> go_value \<Rightarrow> geo_cache \<Rightarrow> (bool, geo_cache) outcome" where
  "cel_country_string g lhs rhs =
     country_check g lhs
       (case rhs of GoString s \<Rightarrow> Inr (\<lambda>c. country_is g c s) | _ \<Rightarrow> Inl (Err ''invalid country value''))"

definition cel_country_list :: "geo \<Rightarrow> go_value \<Rightarrow> go_value \<Rightarrow> geo_cache \<Rightarrow> (bool, geo_cache) outcome" where
  "cel_country_list g lhs rhs =
     country_check g lhs
       (case rhs of GoList vs \<Rightarrow> Inr (\<lambda>c. country_any g c vs) | _ \<Rightarrow> Inl (Err ''invalid country list''))"

text \<open>The deprecated \<open>inDNSBL\<close> is always false.\<close>

definition cel_inDNSBL :: "go_value \<Rightarrow> bool" where
  "cel_inDNSBL v = False"

section \<open>The syntax tree of a condition\<close>

datatype literal = LitString string | LitOther

datatype expr =
    Unspecified
  | Ident string
  | Literal literal
  | Call string bool expr "expr list"
  | Comprehension expr expr expr expr expr
  | ListExpr "expr list"
  | MapExpr "entry_expr list"
  | Select expr
  | StructExpr "entry_expr list"
and entry_expr = MapEntry expr expr | StructField expr

text \<open>
  A comprehension has its result, the range, the start of the accumulator, the condition and the step.
  \<open>walkExpr\<close> threads a state through its callback. A call that is not a member call has a target of
  the kind \<open>Unspecified\<close>.
\<close>

fun walkExpr :: "(expr \<Rightarrow> 's \<Rightarrow> 's) \<Rightarrow> expr \<Rightarrow> 's \<Rightarrow> 's"
  and walk_list :: "(expr \<Rightarrow> 's \<Rightarrow> 's) \<Rightarrow> expr list \<Rightarrow> 's \<Rightarrow> 's"
  and walk_entries :: "(expr \<Rightarrow> 's \<Rightarrow> 's) \<Rightarrow> entry_expr list \<Rightarrow> 's \<Rightarrow> 's" where
  "walkExpr f (Call fn member target args) s =
     walk_list f args (walkExpr f target (f (Call fn member target args) s))"
| "walkExpr f (Comprehension a b c d e) s =
     walkExpr f e (walkExpr f d (walkExpr f c (walkExpr f b (walkExpr f a (f (Comprehension a b c d e) s)))))"
| "walkExpr f (ListExpr es) s = walk_list f es (f (ListExpr es) s)"
| "walkExpr f (MapExpr es) s = walk_entries f es (f (MapExpr es) s)"
| "walkExpr f (Select e) s = walkExpr f e (f (Select e) s)"
| "walkExpr f (StructExpr es) s = walk_entries f es (f (StructExpr es) s)"
| "walkExpr f e s = f e s"
| "walk_list f [] s = s"
| "walk_list f (e # es) s = walk_list f es (walkExpr f e s)"
| "walk_entries f [] s = s"
| "walk_entries f (MapEntry k v # es) s = walk_entries f es (walkExpr f v (walkExpr f k s))"
| "walk_entries f (StructField v # es) s = walk_entries f es (walkExpr f v s)"

section \<open>Registering a condition\<close>

text \<open>The name that a call selects a network with, as the callback of the walk looks for it.\<close>

definition network_name :: "expr \<Rightarrow> string option" where
  "network_name e =
     (case e of
        Call fn member target args \<Rightarrow>
          (if fn = ''inNetwork'' \<and> \<not> member \<and> length args = 2
           then (case args ! 1 of Literal (LitString k) \<Rightarrow> Some k | _ \<Rightarrow> None)
           else if fn = ''network'' \<and> member \<and> length args = 1
           then (case args ! 0 of Literal (LitString k) \<Rightarrow> Some k | _ \<Rightarrow> None)
           else None)
      | _ \<Rightarrow> None)"

definition preload :: "('r, 'd) loader \<Rightarrow> expr \<Rightarrow> ('r, 'd) net_state \<Rightarrow> ('r, 'd) net_state" where
  "preload load e s = (case network_name e of None \<Rightarrow> s | Some k \<Rightarrow> snd (run_network load k s))"

datatype cel_type = BoolType | OtherType

record cel_ast =
  ast_expr :: expr
  ast_output :: "cel_type option"

record cel_env =
  ce_ast :: "string \<Rightarrow> string list \<Rightarrow> go_error + cel_ast"
  ce_program :: "cel_ast \<Rightarrow> go_error + cel_program"

definition RegisterCondition ::
    "cel_env \<Rightarrow> ('r, 'd) loader \<Rightarrow> string \<Rightarrow> string list \<Rightarrow> ('r, 'd) net_state \<Rightarrow>
       (go_error + cel_program) \<times> ('r, 'd) net_state" where
  "RegisterCondition ce load operator conditions s =
     (case ce_ast ce operator conditions of
        Inl e \<Rightarrow> (Inl e, s)
      | Inr ast \<Rightarrow>
          (case ast_output ast of
             None \<Rightarrow> (Inl (Err ''no output''), s)
           | Some out \<Rightarrow>
               (if out \<noteq> BoolType then (Inl (Err ''output type is not bool''), s)
                else (ce_program ce ast, walkExpr (preload load) (ast_expr ast) s))))"

section \<open>Lemmas on the walk\<close>

definition entry_exprs :: "entry_expr \<Rightarrow> expr list" where
  "entry_exprs en = (case en of MapEntry k v \<Rightarrow> [k, v] | StructField v \<Rightarrow> [v])"

fun children :: "expr \<Rightarrow> expr list" where
  "children (Call fn member target args) = target # args"
| "children (Comprehension a b c d e) = [a, b, c, d, e]"
| "children (ListExpr es) = es"
| "children (MapExpr es) = concat (map entry_exprs es)"
| "children (Select e) = [e]"
| "children (StructExpr es) = concat (map entry_exprs es)"
| "children e = []"

text \<open>\<open>part p e\<close>: the expression \<open>p\<close> occurs in \<open>e\<close>.\<close>

inductive part :: "expr \<Rightarrow> expr \<Rightarrow> bool" for p :: expr where
  whole: "part p p"
| inside: "c \<in> set (children e) \<Longrightarrow> part p c \<Longrightarrow> part p e"

inductive_simps part_iff: "part p e"

lemma walk_list_fold: "walk_list f es s = fold (walkExpr f) es s"
  by (induction es arbitrary: s) simp_all

lemma walk_entries_list: "walk_entries f es s = walk_list f (concat (map entry_exprs es)) s"
  by (induction f es s rule: walkExpr_walk_list_walk_entries.induct(3) [where P = "\<lambda>_ _ _. True" and Q = "\<lambda>_ _ _. True"])
    (simp_all add: entry_exprs_def)

lemma walk_step: "walkExpr f e s = fold (walkExpr f) (children e) (f e s)"
  by (cases e) (simp_all add: walk_list_fold walk_entries_list)

lemma run_network_cells:
  "is_loaded (snd (run_network load n s)) k \<longleftrightarrow> is_loaded s k \<or> configured s k \<and> k = n"
  "configured (snd (run_network load n s)) k \<longleftrightarrow> configured s k"
  by (auto simp: run_network_def is_loaded_def configured_def split: option.splits cell.splits prod.splits)

lemma preload_cells:
  "is_loaded (preload load e s) k \<longleftrightarrow> is_loaded s k \<or> configured s k \<and> network_name e = Some k"
  "configured (preload load e s) k \<longleftrightarrow> configured s k"
  by (auto simp: preload_def run_network_cells split: option.splits)

lemma entry_size: "c \<in> set (entry_exprs en) \<Longrightarrow> size c < size en"
  by (cases en) (auto simp: entry_exprs_def)

lemma child_size: "c \<in> set (children e) \<Longrightarrow> size c < size e"
  by (cases e)
    (auto dest!: entry_size dest: size_list_estimation' [OF _ order_refl, where f = size] simp: less_Suc_eq_le
      intro: less_imp_le order_trans)

definition named :: "string \<Rightarrow> expr \<Rightarrow> bool" where
  "named k e \<longleftrightarrow> (\<exists>p. part p e \<and> network_name p = Some k)"

lemma named_iff: "named k e \<longleftrightarrow> network_name e = Some k \<or> (\<exists>c \<in> set (children e). named k c)"
  unfolding named_def by (subst part_iff) blast

lemma named_simps:
  "named k (Call fn member target args) \<longleftrightarrow>
     network_name (Call fn member target args) = Some k \<or> named k target \<or> (\<exists>c \<in> set args. named k c)"
  "\<not> named k (Ident x)" "\<not> named k (Literal l)" "\<not> named k Unspecified"
  by (subst named_iff, simp add: network_name_def)+

lemma fold_loaded:
  assumes "\<And>c s. c \<in> set cs \<Longrightarrow> is_loaded (walkExpr (preload load) c s) k \<longleftrightarrow> is_loaded s k \<or> configured s k \<and> named k c"
    and "\<And>c s. c \<in> set cs \<Longrightarrow> configured (walkExpr (preload load) c s) k \<longleftrightarrow> configured s k"
  shows "is_loaded (fold (walkExpr (preload load)) cs s) k \<longleftrightarrow>
      is_loaded s k \<or> configured s k \<and> (\<exists>c \<in> set cs. named k c)"
    and "configured (fold (walkExpr (preload load)) cs s) k \<longleftrightarrow> configured s k"
  using assms by (induction cs arbitrary: s) auto

lemma walk_loaded:
  "(is_loaded (walkExpr (preload load) e s) k \<longleftrightarrow> is_loaded s k \<or> configured s k \<and> named k e) \<and>
   (configured (walkExpr (preload load) e s) k \<longleftrightarrow> configured s k)"
proof (induction e arbitrary: s rule: measure_induct_rule [of size])
  case (less e)
  have c: "(is_loaded (walkExpr (preload load) c s) k \<longleftrightarrow> is_loaded s k \<or> configured s k \<and> named k c) \<and>
      (configured (walkExpr (preload load) c s) k \<longleftrightarrow> configured s k)" if "c \<in> set (children e)" for c s
    using less.IH [OF child_size [OF that]] .
  have "is_loaded (fold (walkExpr (preload load)) (children e) (preload load e s)) k \<longleftrightarrow>
      is_loaded (preload load e s) k \<or> configured (preload load e s) k \<and> (\<exists>c \<in> set (children e). named k c)"
    "configured (fold (walkExpr (preload load)) (children e) (preload load e s)) k \<longleftrightarrow> configured (preload load e s) k"
    by (rule fold_loaded; use c in blast)+
  then show ?case
    unfolding walk_step [of _ e] preload_cells named_iff [of k e] by blast
qed

text \<open>A network that has been loaded is not loaded again.\<close>

lemma run_network_again:
  "run_network load k s = (Some r, s1) \<Longrightarrow> run_network load' k s1 = (Some r, s1)"
  by (auto simp: run_network_def split: option.splits cell.splits prod.splits)

section \<open>Lemmas on the countries\<close>

definition direct :: "geo \<Rightarrow> ip \<Rightarrow> country" where
  "direct g ip = (case g_db g ip of Inl e \<Rightarrow> ([], []) | Inr (code, names) \<Rightarrow> (code, mget_or [] names ''en''))"

text \<open>Addresses with the same text are the same address to the database.\<close>

definition geo_ok :: "geo \<Rightarrow> bool" where
  "geo_ok g \<longleftrightarrow> (\<forall>ip ip'. g_text g ip = g_text g ip' \<longrightarrow> g_db g ip = g_db g ip')"

definition mem_ok :: "geo \<Rightarrow> geo_cache \<Rightarrow> bool" where
  "mem_ok g mem \<longleftrightarrow> (\<forall>k c. mget mem k = Some c \<longrightarrow> (\<exists>ip. g_text g ip = k \<and> c = direct g ip))"

lemma mem_ok_Nil [simp]: "mem_ok g []"
  by (simp add: mem_ok_def)

lemma mem_ok_set: "mem_ok g mem \<Longrightarrow> c = direct g ip \<Longrightarrow> mem_ok g (mset_key (g_text g ip) c mem)"
  by (auto simp: mem_ok_def)

lemma lookup_direct:
  assumes "geo_ok g" "mem_ok g mem" "country_lookup g ip mem = (r, mem1)"
  shows "(case r of None \<Rightarrow> direct g ip = ([], []) | Some c \<Rightarrow> c = direct g ip) \<and> mem_ok g mem1"
proof (cases "mget mem (g_text g ip)")
  case None
  with assms(2,3) show ?thesis
    by (auto simp: country_lookup_def direct_def Let_def split: sum.splits prod.splits if_splits intro!: mem_ok_set)
next
  case (Some c)
  then obtain ip' where ip': "g_text g ip' = g_text g ip" "c = direct g ip'"
    using assms(2) unfolding mem_ok_def by metis
  then have "g_db g ip' = g_db g ip" using assms(1) unfolding geo_ok_def by blast
  with ip' have c: "c = direct g ip" by (simp add: direct_def)
  from Some assms(3) have "r = Some c" "mem1 = mem" by (simp_all add: country_lookup_def Let_def)
  with c assms(2) show ?thesis by simp
qed

text \<open>The test without a cache.\<close>

definition country_answer :: "geo \<Rightarrow> go_value \<Rightarrow> go_error + (country \<Rightarrow> bool) \<Rightarrow> go_error + bool" where
  "country_answer g addr test =
     (case value_ip addr of
        None \<Rightarrow> Inl (Err (invalid_ip addr))
      | Some ip \<Rightarrow>
          (case test of
             Inl e \<Rightarrow> Inl e
           | Inr matches \<Rightarrow>
               (if \<not> g_open g then Inl (Err ''geoip database not configured'')
                else Inr (direct g ip \<noteq> ([], []) \<and> matches (direct g ip)))))"

fun answer_of :: "('a, 's) outcome \<Rightarrow> go_error + 'a" where
  "answer_of (Ret a s) = Inr a"
| "answer_of (Panic e s) = Inl e"

lemma check_answer:
  assumes "geo_ok g" "mem_ok g mem"
  shows "answer_of (country_check g addr test mem) = country_answer g addr test \<and>
    mem_ok g (final_state (country_check g addr test mem))"
proof (cases "value_ip addr")
  case None
  with assms(2) show ?thesis by (simp add: country_check_def country_answer_def)
next
  case (Some ip)
  obtain r mem1 where l: "country_lookup g ip mem = (r, mem1)" by (cases "country_lookup g ip mem")
  from lookup_direct [OF assms l] l Some assms(2) show ?thesis
    by (auto simp: country_check_def country_answer_def split: sum.split option.splits)
qed

text \<open>A sequence of tests, each of which may panic, with the cache they share.\<close>

datatype country_call = CountryString go_value go_value | CountryList go_value go_value

fun call_test :: "geo \<Rightarrow> country_call \<Rightarrow> geo_cache \<Rightarrow> (bool, geo_cache) outcome" where
  "call_test g (CountryString l r) = cel_country_string g l r"
| "call_test g (CountryList l r) = cel_country_list g l r"

fun run_tests :: "geo \<Rightarrow> country_call list \<Rightarrow> geo_cache \<Rightarrow> (go_error + bool) list \<times> geo_cache" where
  "run_tests g [] mem = ([], mem)"
| "run_tests g (c # cs) mem =
     (let o1 = call_test g c mem in
      case run_tests g cs (final_state o1) of (as, mem1) \<Rightarrow> (answer_of o1 # as, mem1))"

fun direct_test :: "geo \<Rightarrow> country_call \<Rightarrow> go_error + bool" where
  "direct_test g (CountryString l r) =
     country_answer g l (case r of GoString s \<Rightarrow> Inr (\<lambda>c. country_is g c s) | _ \<Rightarrow> Inl (Err ''invalid country value''))"
| "direct_test g (CountryList l r) =
     country_answer g l (case r of GoList vs \<Rightarrow> Inr (\<lambda>c. country_any g c vs) | _ \<Rightarrow> Inl (Err ''invalid country list''))"

lemma call_direct:
  assumes "geo_ok g" "mem_ok g mem"
  shows "answer_of (call_test g c mem) = direct_test g c \<and> mem_ok g (final_state (call_test g c mem))"
  using check_answer [OF assms] by (cases c) (simp_all add: cel_country_string_def cel_country_list_def)

lemma run_direct:
  assumes "geo_ok g" "mem_ok g mem"
  shows "fst (run_tests g cs mem) = map (direct_test g) cs"
  using assms(2)
proof (induction cs arbitrary: mem)
  case Nil
  then show ?case by simp
next
  case (Cons c cs)
  from call_direct [OF assms(1) Cons.prems, of c] Cons.IH [of "final_state (call_test g c mem)"]
  show ?case by (cases "run_tests g cs (final_state (call_test g c mem))") (simp add: Let_def)
qed

text \<open>What a lookup does to the size of the cache.\<close>

lemma mset_key_new: "mget m k = None \<Longrightarrow> mset_key k v m = m @ [(k, v)]"
  by (induction m) (auto simp: mset_key_def mget_def split: if_splits)

definition positives :: "geo_cache \<Rightarrow> geo_cache" where
  "positives mem = filter (\<lambda>(k, c). c \<noteq> ([], [])) mem"

lemma lookup_bound:
  assumes "length (positives mem) \<le> g_max g"
  shows "length (positives (snd (country_lookup g ip mem))) \<le> g_max g"
proof (cases "mget mem (g_text g ip)")
  case (Some c)
  with assms show ?thesis by (simp add: country_lookup_def Let_def)
next
  case None
  have "length mem < g_max g \<Longrightarrow> Suc (length (positives mem)) \<le> g_max g"
    using length_filter_le [of "\<lambda>(k, c). c \<noteq> ([], [])" mem] unfolding positives_def by linarith
  with None assms show ?thesis
    by (auto simp: country_lookup_def Let_def positives_def mset_key_new split: sum.splits prod.splits)
qed

lemma check_bound:
  assumes "length (positives mem) \<le> g_max g"
  shows "length (positives (final_state (country_check g addr test mem))) \<le> g_max g"
  using assms lookup_bound [OF assms, of "the (value_ip addr)"]
  by (auto simp: country_check_def split: option.splits sum.splits prod.splits)

lemma run_bound:
  "length (positives mem) \<le> g_max g \<Longrightarrow> length (positives (snd (run_tests g cs mem))) \<le> g_max g"
proof (induction cs arbitrary: mem)
  case Nil
  then show ?case by simp
next
  case (Cons c cs)
  have "length (positives (final_state (call_test g c mem))) \<le> g_max g"
    using check_bound [OF Cons.prems] by (cases c) (simp_all add: cel_country_string_def cel_country_list_def)
  from Cons.IH [OF this] show ?case
    by (cases "run_tests g cs (final_state (call_test g c mem))") (simp add: Let_def)
qed

lemma failing_grow:
  assumes "g_open g" "\<And>ip. ip \<in> set ips \<Longrightarrow> isl (g_db g ip)" "distinct (map (g_text g) ips)"
    and "\<And>ip. ip \<in> set ips \<Longrightarrow> mget mem (g_text g ip) = None"
  shows "length (snd (run_tests g (map (\<lambda>ip. CountryString (GoNetIP (Some ip)) (GoString c)) ips) mem)) =
    length mem + length ips"
  using assms(2-4)
proof (induction ips arbitrary: mem)
  case Nil
  then show ?case by simp
next
  case (Cons ip ips)
  obtain e where e: "g_db g ip = Inl e" using Cons.prems(1) [of ip] by (auto simp: isl_def)
  let ?c = "CountryString (GoNetIP (Some ip)) (GoString c)"
  have f: "final_state (call_test g ?c mem) = mem @ [(g_text g ip, ([], []))]"
    using e assms(1) Cons.prems(3) [of ip]
    by (simp add: cel_country_string_def country_check_def value_ip_def country_lookup_def Let_def mset_key_new)
  have "length (snd (run_tests g (map (\<lambda>ip. CountryString (GoNetIP (Some ip)) (GoString c)) ips)
      (mem @ [(g_text g ip, ([], []))]))) = length (mem @ [(g_text g ip, ([], []) :: country)]) + length ips"
  proof (rule Cons.IH)
    fix i assume i: "i \<in> set ips"
    have "g_text g i \<noteq> g_text g ip" using Cons.prems(2) i by (force simp: image_iff)
    with Cons.prems(3) [of i] i show "mget (mem @ [(g_text g ip, ([], []))]) (g_text g i) = None"
      by (simp add: mget_def map_add_def)
    show "isl (g_db g i)" using Cons.prems(1) i by simp
  qed (use Cons.prems(2) in simp)
  with f show ?case
    by (cases "run_tests g (map (\<lambda>ip. CountryString (GoNetIP (Some ip)) (GoString c)) ips)
      (mem @ [(g_text g ip, ([], []))])") (simp add: Let_def)
qed

section \<open>The claims\<close>

text \<open>
  Loading networks ahead of time: when a condition has been accepted, the networks that are loaded are
  those that were loaded before and those networks of the policy that a call anywhere in the condition
  names by a literal, and no network is added or removed.
\<close>

theorem RegisterCondition_preloads:
  assumes "RegisterCondition ce load operator conditions s = (Inr program, s1)"
    and "ce_ast ce operator conditions = Inr ast"
  shows "(is_loaded s1 k \<longleftrightarrow> is_loaded s k \<or> configured s k \<and> named k (ast_expr ast)) \<and>
    (configured s1 k \<longleftrightarrow> configured s k)"
proof -
  have "s1 = walkExpr (preload load) (ast_expr ast) s"
    using assms by (auto simp: RegisterCondition_def split: option.splits if_splits)
  then show ?thesis using walk_loaded [of load "ast_expr ast" s k] by simp
qed

definition test_ast :: cel_ast where
  "test_ast = \<lparr>ast_expr = Call ''_||_'' False Unspecified
     [Call ''network'' True (Ident ''remoteAddress'') [Literal (LitString ''lan'')],
      Call ''inNetwork'' False Unspecified [Literal (LitString ''wan''), Ident ''remoteAddress'']],
     ast_output = Some BoolType\<rparr>"

definition test_nets :: "(nat, unit) net_state" where
  "test_nets = \<lparr>ns_cells = [(''lan'', Unloaded), (''wan'', Unloaded)], ns_disk = ()\<rparr>"

definition test_cel :: cel_env where
  "test_cel = \<lparr>ce_ast = \<lambda>op cs. Inr test_ast, ce_program = \<lambda>a. Inr ''p''\<rparr>"

text \<open>The deprecated call names its network in the first argument, which the callback does not look at.\<close>

theorem RegisterCondition_preloads_witness:
  "is_loaded (snd (RegisterCondition test_cel (\<lambda>k d. (0, d)) ''||'' [] test_nets)) ''lan'' \<and>
   \<not> is_loaded (snd (RegisterCondition test_cel (\<lambda>k d. (0, d)) ''||'' [] test_nets)) ''wan''"
proof -
  obtain p s1 where r: "RegisterCondition test_cel (\<lambda>k d. (0, d)) ''||'' [] test_nets = (Inr p, s1)"
    by (simp add: RegisterCondition_def test_cel_def test_ast_def)
  have a: "ce_ast test_cel ''||'' [] = Inr test_ast" by (simp add: test_cel_def)
  have lan: "named ''lan'' (ast_expr test_ast)" and wan: "\<not> named ''wan'' (ast_expr test_ast)"
    by (simp_all add: test_ast_def named_simps network_name_def)
  from RegisterCondition_preloads [OF r a, of "''lan''"] RegisterCondition_preloads [OF r a, of "''wan''"] lan wan
  moreover have "configured test_nets ''lan''" "\<not> is_loaded test_nets ''wan''"
    by (simp_all add: is_loaded_def configured_def test_nets_def mget_Cons)
  ultimately show ?thesis by (simp add: r)
qed

text \<open>
  C23: The cache of countries is transparent: starting with an empty cache, any sequence of tests of
  countries, those that panic included, has exactly the answers that asking the database every time
  would give.
\<close>

theorem country_cache_transparent:
  assumes "geo_ok g"
  shows "fst (run_tests g cs []) = map (direct_test g) cs"
  by (rule run_direct [OF assms mem_ok_Nil])

lemma string_of_inj: "string_of a = string_of b \<longleftrightarrow> a = b"
  by (metis bytes_of_string_of)

definition test_geo :: geo where
  "test_geo = \<lparr>g_open = True,
     g_db = \<lambda>ip. if ip = [1, 1, 1, 1] then Inr (''AU'', [(''en'', ''Australia'')]) else Inl (Err ''no record''),
     g_text = string_of, g_upper = \<lambda>s. s, g_trim = \<lambda>s. s, g_max = 1\<rparr>"

theorem country_cache_transparent_witness:
  "fst (run_tests test_geo
     [CountryString (GoNetIP (Some [1, 1, 1, 1])) (GoString ''au''),
      CountryList (GoNetIP (Some [1, 1, 1, 1])) (GoList [GoOther ''int'', GoString ''Australia'']),
      CountryString (GoNetIP None) (GoString ''au'')] []) =
   [Inr True, Inr True, Inl (Err ''invalid ip'')]"
proof -
  have g: "geo_ok test_geo"
    unfolding geo_ok_def by (simp add: test_geo_def string_of_inj)
  have u: "ToUpper test_geo ''AU'' = ''AU''" "ToUpper test_geo ''au'' = ''AU''"
      "ToUpper test_geo ''Australia'' = ''AUSTRALIA''" "TrimSpace test_geo ''au'' = ''au''"
      "TrimSpace test_geo ''Australia'' = ''Australia''"
    by code_simp+
  have d: "direct test_geo [1, 1, 1, 1] = (''AU'', ''Australia'')" "g_open test_geo"
    by (simp_all add: direct_def test_geo_def mget_or_def mget_Cons)
  show ?thesis
    unfolding country_cache_transparent [OF g]
    by (simp add: country_answer_def value_ip_def invalid_ip_def country_is_def u d)
qed

text \<open>
  The limit of the cache of countries holds only for addresses whose country was found: after any
  sequence of tests there are at most as many such entries as the limit, while every address that the
  database does not answer for adds an entry, whatever the limit.
\<close>

theorem country_cache_bound:
  assumes "g_open g" "filter (\<lambda>ip. \<not> isl (g_db g ip)) ips = []" "distinct (map (g_text g) ips)"
  shows "length (positives (snd (run_tests g cs []))) \<le> g_max g \<and>
    length (snd (run_tests g (map (\<lambda>ip. CountryString (GoNetIP (Some ip)) (GoString c)) ips) [])) = length ips"
proof
  show "length (positives (snd (run_tests g cs []))) \<le> g_max g"
    by (rule run_bound) (simp add: positives_def)
  have "isl (g_db g ip)" if "ip \<in> set ips" for ip
    using assms(2) that by (auto simp: filter_empty_conv)
  from failing_grow [OF assms(1) this assms(3), of "[]" c]
  show "length (snd (run_tests g (map (\<lambda>ip. CountryString (GoNetIP (Some ip)) (GoString c)) ips) [])) = length ips"
    by simp
qed

theorem country_cache_bound_witness:
  "length (snd (run_tests test_geo
     (map (\<lambda>ip. CountryString (GoNetIP (Some ip)) (GoString ''au'')) [[0], [1], [2]]) [])) = 3"
proof -
  have "distinct (map (g_text test_geo) [[0], [1], [2]])"
    unfolding distinct_map by (simp add: test_geo_def inj_on_def string_of_inj del: string_of_simps)
  from country_cache_bound [of test_geo "[[0], [1], [2]]" "[]" "''au''"] this
  show ?thesis by (simp add: test_geo_def)
qed

end
