(* ===== verification/Policies.thy ===== *)
theory Policies
  imports Networks Rules
begin

text \<open>
  Reading a policy with its snippets (\<open>lib/policy/policy.go\<close>): the main file is decoded, and each file of the
  snippet directories adds the networks, conditions and challenges that are not defined yet. The YAML
  decoder and the file system are parameters.
\<close>

section \<open>The policy\<close>

text \<open>A Go map may be nil: reading it finds nothing and writing to it panics.\<close>

type_synonym ('k, 'v) nilmap = "('k, 'v) gomap option"

definition nget :: "('k, 'v) nilmap \<Rightarrow> 'k \<Rightarrow> 'v option" where
  "nget m k = (case m of None \<Rightarrow> None | Some g \<Rightarrow> mget g k)"

definition nil_entries :: "('k, 'v) nilmap \<Rightarrow> ('k \<times> 'v) list" where
  "nil_entries m = (case m of None \<Rightarrow> [] | Some g \<Rightarrow> g)"

record 'p policy =
  po_networks :: "(string, network_entry list) nilmap"
  po_conditions :: "(string, string list) nilmap"
  po_challenges :: "(string, 'p policy_challenge) nilmap"
  po_rules :: "policy_rule list"

definition empty_policy :: "'p policy" where
  "empty_policy = \<lparr>po_networks = Some [], po_conditions = Some [], po_challenges = Some [], po_rules = []\<rparr>"

definition zero_policy :: "'p policy" where
  "zero_policy = \<lparr>po_networks = None, po_conditions = None, po_challenges = None, po_rules = []\<rparr>"

section \<open>Reading\<close>

text \<open>
  \<open>pi_decode files data p\<close> decodes into the value that \<open>p\<close> points to, with the files that references may
  name; a directory lists names, with whether each is a directory.
\<close>

record 'p policy_io =
  pi_readdir :: "string \<Rightarrow> go_error + (string \<times> bool) list"
  pi_readfile :: "string \<Rightarrow> go_error + bytes"
  pi_decode :: "string list \<Rightarrow> bytes \<Rightarrow> 'p policy \<Rightarrow> go_error + 'p policy"

definition dir_entries :: "string \<Rightarrow> (string \<times> bool) list \<Rightarrow> string list" where
  "dir_entries dir fs = map (\<lambda>(name, d). path_Join dir name) (filter (\<lambda>(name, d). \<not> d) fs)"

fun snippet_files :: "'p policy_io \<Rightarrow> string list \<Rightarrow> go_error + string list" where
  "snippet_files pio [] = Inr []"
| "snippet_files pio (dir # dirs) =
     (if dir = [] then snippet_files pio dirs
      else (case pi_readdir pio dir of
          Inl e \<Rightarrow> Inl e
        | Inr fs \<Rightarrow> (case snippet_files pio dirs of Inl e \<Rightarrow> Inl e | Inr es \<Rightarrow> Inr (dir_entries dir fs @ es))))"

text \<open>The loop over the entries of a snippet's map; None is the panic of a write to a nil map.\<close>

fun add_missing :: "('k \<times> 'v) list \<Rightarrow> ('k, 'v) nilmap \<Rightarrow> ('k, 'v) nilmap option" where
  "add_missing [] m = Some m"
| "add_missing ((k, v) # es) m =
     (if nget m k \<noteq> None then add_missing es m
      else (case m of None \<Rightarrow> None | Some g \<Rightarrow> add_missing es (Some (mset_key k v g))))"

definition merge_policy :: "'p policy \<Rightarrow> 'p policy \<Rightarrow> 'p policy option" where
  "merge_policy entry p =
     (case add_missing (nil_entries (po_networks entry)) (po_networks p) of
        None \<Rightarrow> None
      | Some networks \<Rightarrow>
          (case add_missing (nil_entries (po_conditions entry)) (po_conditions p) of
             None \<Rightarrow> None
           | Some conditions \<Rightarrow>
               (case add_missing (nil_entries (po_challenges entry)) (po_challenges p) of
                  None \<Rightarrow> None
                | Some challenges \<Rightarrow>
                    Some (p\<lparr>po_networks := networks, po_conditions := conditions, po_challenges := challenges\<rparr>))))"

definition read_snippet :: "'p policy_io \<Rightarrow> string list \<Rightarrow> string \<Rightarrow> go_error + 'p policy" where
  "read_snippet pio entries entry =
     (case pi_readfile pio entry of Inl e \<Rightarrow> Inl e | Inr data \<Rightarrow> pi_decode pio entries data zero_policy)"

fun merge_snippets :: "'p policy_io \<Rightarrow> string list \<Rightarrow> string list \<Rightarrow> 'p policy \<Rightarrow> (go_error + 'p policy) option" where
  "merge_snippets pio entries [] p = Some (Inr p)"
| "merge_snippets pio entries (entry # rest) p =
     (case read_snippet pio entries entry of
        Inl e \<Rightarrow> Some (Inl e)
      | Inr s \<Rightarrow> (case merge_policy s p of None \<Rightarrow> None | Some p1 \<Rightarrow> merge_snippets pio entries rest p1))"

text \<open>The result is None when reading the policy panics.\<close>

definition NewPolicy :: "'p policy_io \<Rightarrow> bytes \<Rightarrow> string list \<Rightarrow> (go_error + 'p policy) option" where
  "NewPolicy pio r snippetsDirectories =
     (if snippetsDirectories = [] then Some (pi_decode pio [] r empty_policy)
      else (case snippet_files pio snippetsDirectories of
          Inl e \<Rightarrow> Some (Inl e)
        | Inr entries \<Rightarrow>
            (case pi_decode pio entries r empty_policy of
               Inl e \<Rightarrow> Some (Inl e)
             | Inr p \<Rightarrow> merge_snippets pio entries entries p)))"

section \<open>Lemmas\<close>

text \<open>The first map of a list that has a key decides.\<close>

fun first_get :: "('k, 'v) nilmap list \<Rightarrow> 'k \<Rightarrow> 'v option" where
  "first_get [] k = None"
| "first_get (m # ms) k = (case nget m k of Some v \<Rightarrow> Some v | None \<Rightarrow> first_get ms k)"

lemma first_get_append: "first_get (ms @ ms') k = (case first_get ms k of Some v \<Rightarrow> Some v | None \<Rightarrow> first_get ms' k)"
  by (induction ms) (auto split: option.split)

lemma nget_Some [simp]: "nget (Some g) k = mget g k"
  by (simp add: nget_def)

lemma add_missing_get:
  "add_missing es m = Some m' \<Longrightarrow> nget m' k = (case nget m k of Some v \<Rightarrow> Some v | None \<Rightarrow> mget es k)"
proof (induction es m arbitrary: m' rule: add_missing.induct)
  case (1 m)
  then show ?case by (simp split: option.split)
next
  case (2 k' v es m)
  show ?case
  proof (cases "nget m k'")
    case None
    with 2 show ?thesis by (auto simp: mget_Cons split: option.splits if_splits)
  next
    case (Some w)
    with 2 show ?thesis by (auto simp: mget_Cons split: option.splits)
  qed
qed

lemma add_missing_nil: "add_missing (nil_entries s) m = Some m' \<Longrightarrow> nget m' k = first_get [m, s] k"
  by (auto dest!: add_missing_get [of _ _ _ k] simp: nil_entries_def nget_def split: option.splits)

lemma merge_policy_get:
  assumes "merge_policy s p = Some p1"
  shows "nget (po_networks p1) k = first_get [po_networks p, po_networks s] k"
    and "nget (po_conditions p1) k = first_get [po_conditions p, po_conditions s] k"
    and "nget (po_challenges p1) k = first_get [po_challenges p, po_challenges s] k"
    and "po_rules p1 = po_rules p"
  using assms add_missing_nil unfolding merge_policy_def
  by (auto simp del: first_get.simps split: option.splits)

lemma merge_snippets_get:
  "merge_snippets pio entries rest p = Some (Inr p') \<Longrightarrow>
     \<exists>ss. map (read_snippet pio entries) rest = map Inr ss \<and>
       nget (po_networks p') k = first_get (map po_networks (p # ss)) k \<and>
       nget (po_conditions p') k' = first_get (map po_conditions (p # ss)) k' \<and>
       nget (po_challenges p') k'' = first_get (map po_challenges (p # ss)) k'' \<and> po_rules p' = po_rules p"
proof (induction rest arbitrary: p)
  case Nil
  then show ?case by (simp split: option.split)
next
  case (Cons entry rest)
  then obtain s p1 where s: "read_snippet pio entries entry = Inr s" and m: "merge_policy s p = Some p1"
      and r: "merge_snippets pio entries rest p1 = Some (Inr p')"
    by (auto split: sum.splits option.splits)
  from Cons.IH [OF r] obtain ss where ss: "map (read_snippet pio entries) rest = map Inr ss"
      "nget (po_networks p') k = first_get (map po_networks (p1 # ss)) k"
      "nget (po_conditions p') k' = first_get (map po_conditions (p1 # ss)) k'"
      "nget (po_challenges p') k'' = first_get (map po_challenges (p1 # ss)) k''" "po_rules p' = po_rules p1"
    by blast
  show ?case
    by (intro exI [of _ "s # ss"]) (simp add: s ss merge_policy_get [OF m] split: option.split)
qed

section \<open>The claim\<close>

text \<open>
  C26: Precedence in a policy. When a policy with snippets has been read, the rules are those of the main
  file alone, and every network, condition and challenge has the definition of the main file if there
  is one, else of the first snippet file, in the order of the directories, that defines it.
\<close>

theorem policy_precedence:
  assumes "NewPolicy pio r dirs = Some (Inr p)" "dirs \<noteq> []"
  shows "\<exists>entries main ss. snippet_files pio dirs = Inr entries \<and> pi_decode pio entries r empty_policy = Inr main \<and>
    map (read_snippet pio entries) entries = map Inr ss \<and> po_rules p = po_rules main \<and>
    nget (po_networks p) n = first_get (map po_networks (main # ss)) n \<and>
    nget (po_conditions p) c = first_get (map po_conditions (main # ss)) c \<and>
    nget (po_challenges p) h = first_get (map po_challenges (main # ss)) h"
proof -
  from assms obtain entries main where e: "snippet_files pio dirs = Inr entries"
      and m: "pi_decode pio entries r empty_policy = Inr main"
      and s: "merge_snippets pio entries entries main = Some (Inr p)"
    by (auto simp: NewPolicy_def split: sum.splits)
  from merge_snippets_get [OF s, of n c h] e m show ?thesis by blast
qed

definition test_pio :: "unit policy_io" where
  "test_pio = \<lparr>pi_readdir = \<lambda>d. Inr [(''a.yml'', False), (''sub'', True), (''b.yml'', False)], pi_readfile = \<lambda>f. Inr (bytes_of f),
     pi_decode = \<lambda>fs data p. Inr
       (if data = [] then p\<lparr>po_conditions := Some [(''x'', [''main''])]\<rparr>
        else p\<lparr>po_conditions := Some [(''x'', [string_of data]), (''y'', [string_of data])]\<rparr>)\<rparr>"

theorem policy_precedence_witness:
  "\<exists>p. NewPolicy test_pio [] [''s''] = Some (Inr p) \<and>
     nget (po_conditions p) ''x'' = Some [''main''] \<and> nget (po_conditions p) ''y'' = Some [''s/a.yml'']"
proof -
  have j: "path_Join ''s'' ''a.yml'' = ''s/a.yml''" "path_Join ''s'' ''b.yml'' = ''s/b.yml''"
    by code_simp+
  have de: "dir_entries ''s'' [(''a.yml'', False), (''sub'', True), (''b.yml'', False)] = [''s/a.yml'', ''s/b.yml'']"
    by (simp add: dir_entries_def j)
  have f: "snippet_files test_pio [''s''] = Inr [''s/a.yml'', ''s/b.yml'']"
    by (simp add: test_pio_def de)
  obtain p where p: "NewPolicy test_pio [] [''s''] = Some (Inr p)"
    by (simp add: NewPolicy_def f)
      (simp add: de test_pio_def read_snippet_def merge_policy_def zero_policy_def empty_policy_def nil_entries_def mget_Cons)
  have "\<exists>entries main ss. snippet_files test_pio [''s''] = Inr entries \<and>
      pi_decode test_pio entries [] empty_policy = Inr main \<and>
      map (read_snippet test_pio entries) entries = map Inr ss \<and> po_rules p = po_rules main \<and>
      nget (po_networks p) [] = first_get (map po_networks (main # ss)) [] \<and>
      nget (po_conditions p) c = first_get (map po_conditions (main # ss)) c \<and>
      nget (po_challenges p) [] = first_get (map po_challenges (main # ss)) []" for c
    by (rule policy_precedence [OF p]) simp
  from this [of "''x''"] this [of "''y''"] p show ?thesis
    unfolding f
    by (auto simp: test_pio_def read_snippet_def mget_Cons Cons_eq_map_conv)
qed

end
