(* ===== verification/Server.thy ===== *)
theory Server
  imports Rules
begin

text \<open>
  The server (\<open>lib/http.go\<close>): the routes, the entry point of a request, the evaluation of all rules with
  the clean-up of the request before a backend sees it, and the default action.
\<close>

section \<open>The clean-up\<close>

definition cleanup_request :: "env \<Rightarrow> bool \<Rightarrow> string \<Rightarrow> string \<Rightarrow> world \<Rightarrow> world" where
  "cleanup_request env fromChallenge ruleName ruleAction w =
     (let w1 = (if fromChallenge then set_req (\<lambda>r. r\<lparr>r_header := header_del (r_header r) ''Referer''\<rparr>) w else w);
          ref = values_get (url_query (u_rawquery (r_url (w_req w1)))) QueryArgReferer;
          w2 = (if ref \<noteq> [] then set_req (\<lambda>r. r\<lparr>r_header := header_set (r_header r) ''Referer'' ref\<rparr>) w1 else w1);
          rawQ = strip_args (fst (ParseRawQuery (u_rawquery (r_url (w_req w2)))));
          w3 = set_req (\<lambda>r. r\<lparr>r_url := (r_url r)\<lparr>u_rawquery := EncodeRawQuery rawQ\<rparr>\<rparr>) w2;
          w4 = set_data (\<lambda>d. d\<lparr>d_extra := header_set (header_set (d_extra d) ''X-Away-Rule'' ruleName)
                 ''X-Away-Action'' ruleAction\<rparr>) w3;
          w5 = set_req (\<lambda>r. r\<lparr>r_header := strip_cookies (r_header r)\<rparr>) w4
      in ResponseHeaders env w5)"

text \<open>The backend of the request; the option for another backend is looked up under the same host.\<close>

definition get_backend :: "env \<Rightarrow> backend \<Rightarrow> string \<Rightarrow> done_func" where
  "get_backend env backend host w =
     (let opt = GetOpt (w_data w) RequestOptBackendHost [] in
      if opt \<noteq> [] \<and> opt \<noteq> host then
        (case GetBackend env host of
           None \<Rightarrow> (EmptyHandler, emit (HttpError 503) w)
         | Some b \<Rightarrow> (BackendHandler b, w))
      else (BackendHandler backend, w))"

definition request_done :: "env \<Rightarrow> backend \<Rightarrow> string \<Rightarrow> bool \<Rightarrow> string \<Rightarrow> string \<Rightarrow> done_func" where
  "request_done env backend host fromChallenge name action w =
     get_backend env backend host (cleanup_request env fromChallenge name action w)"

section \<open>All rules\<close>

text \<open>The loop over the rules; it falls through with True. An error is shown on a page, then it panics.\<close>

fun run_rules :: "env \<Rightarrow> backend \<Rightarrow> string \<Rightarrow> rule_state list \<Rightarrow> world \<Rightarrow> (bool, world) outcome" where
  "run_rules env backend host [] w = Ret True w"
| "run_rules env backend host (rule # rules) w =
     (case Evaluate env (request_done env backend host True (rs_name rule) (rs_action rule)) rule w of
        Panic e w1 \<Rightarrow> Panic e w1
      | Ret (Inl e) w1 \<Rightarrow> obind (ErrorPage env 500 e [] w1) (\<lambda>_ w2. Panic e w2)
      | Ret (Inr False) w1 \<Rightarrow> Ret False w1
      | Ret (Inr True) w1 \<Rightarrow> run_rules env backend host rules w1)"

definition handleRequest :: "env \<Rightarrow> rule_state list \<Rightarrow> world \<Rightarrow> (unit, world) outcome" where
  "handleRequest env rules w =
     (let host = r_host (w_req w) in
      case GetBackend env host of
        None \<Rightarrow> Ret () (emit (HttpError 503) w)
      | Some backend \<Rightarrow>
          obind (run_rules env backend host rules w) (\<lambda>next w1.
            if \<not> next then Ret () w1
            else obind (handle_pass (request_done env backend host False ''DEFAULT'' ''PASS'')
                   (ActionHit ''PASS'' (RuleHit ''DEFAULT'' w1))) (\<lambda>_. Ret ())))"

section \<open>Routes\<close>

datatype route =
    RouteRequest
  | RouteAssets
  | RouteMux registration
  | RouteVerify registration
  | RoutePreload registration
  | RouteResource registration
  | RouteMake registration wasm_params
  | RouteScript registration wasm_params
  | RouteStatic registration

text \<open>
  A pattern of \<open>http.ServeMux\<close>: whether it is for GET only (which includes HEAD), its path, which stands
  for the whole subtree when it ends in a slash, and what it leads to.
\<close>

record mux_pattern =
  mp_get :: bool
  mp_path :: string
  mp_route :: route

definition verify_path :: "registration \<Rightarrow> string" where
  "verify_path reg = reg_path reg @ VerifyChallengeUrlSuffix"

text \<open>The \<open>Handler\<close> of a registration: the patterns of its own mux, or none.\<close>

definition reg_routes :: "registration \<Rightarrow> mux_pattern list" where
  "reg_routes reg =
     (case reg_runtime reg of
        RPreloadLink _ \<Rightarrow> [\<lparr>mp_get = True, mp_path = verify_path reg, mp_route = RoutePreload reg\<rparr>]
      | RResourceLoad \<Rightarrow> [\<lparr>mp_get = True, mp_path = verify_path reg, mp_route = RouteResource reg\<rparr>]
      | RWasm p \<Rightarrow>
          [\<lparr>mp_get = True, mp_path = reg_path reg @ ''/static/'', mp_route = RouteStatic reg\<rparr>,
           \<lparr>mp_get = False, mp_path = reg_path reg @ MakeChallengeUrlSuffix, mp_route = RouteMake reg p\<rparr>,
           \<lparr>mp_get = False, mp_path = verify_path reg, mp_route = RouteVerify reg\<rparr>,
           \<lparr>mp_get = True, mp_path = reg_path reg @ ''/script.mjs'', mp_route = RouteScript reg p\<rparr>]
      | _ \<Rightarrow> [])"

definition setupRoutes :: "env \<Rightarrow> mux_pattern list" where
  "setupRoutes env =
     [\<lparr>mp_get = False, mp_path = ''/'', mp_route = RouteRequest\<rparr>,
      \<lparr>mp_get = True, mp_path = e_url_path env @ ''/assets/'', mp_route = RouteAssets\<rparr>] @
     concat (map (\<lambda>(i, reg).
       if reg_routes reg \<noteq> [] then [\<lparr>mp_get = False, mp_path = reg_path reg @ ''/'', mp_route = RouteMux reg\<rparr>]
       else if Verify env reg \<noteq> None then [\<lparr>mp_get = False, mp_path = verify_path reg, mp_route = RouteVerify reg\<rparr>]
       else []) (e_challenges env))"

section \<open>The multiplexer of the standard library\<close>

definition ends_in_slash :: "string \<Rightarrow> bool" where
  "ends_in_slash p \<longleftrightarrow> p \<noteq> [] \<and> last p = CHR ''/''"

text \<open>A path is matched by segments, each unescaped by itself; a pattern for a subtree needs all of its segments.\<close>

definition path_segments :: "string \<Rightarrow> string list" where
  "path_segments path =
     map (\<lambda>s. case unescape False s of None \<Rightarrow> s | Some t \<Rightarrow> t) (Split (CHR ''/'') path)"

definition pattern_matches :: "string \<Rightarrow> string \<Rightarrow> mux_pattern \<Rightarrow> bool" where
  "pattern_matches method path p \<longleftrightarrow>
     (mp_get p \<longrightarrow> method \<in> {''GET'', ''HEAD''}) \<and>
     (let ps = Split (CHR ''/'') (mp_path p); ss = path_segments path
      in if ends_in_slash (mp_path p) then length ps \<le> length ss \<and> take (length ps - 1) ss = butlast ps else ss = ps)"

text \<open>The most specific of the matching patterns: the longest path, and one for GET before one for all methods.\<close>

definition more_specific :: "mux_pattern \<Rightarrow> mux_pattern \<Rightarrow> bool" where
  "more_specific p q \<longleftrightarrow> length (mp_path q) < length (mp_path p) \<or>
     length (mp_path q) = length (mp_path p) \<and> mp_get p \<and> \<not> mp_get q"

definition mux_match :: "string \<Rightarrow> string \<Rightarrow> mux_pattern list \<Rightarrow> mux_pattern option" where
  "mux_match method path patterns =
     fold (\<lambda>p best. case best of None \<Rightarrow> Some p | Some q \<Rightarrow> if more_specific p q then Some p else Some q)
       (filter (pattern_matches method path) patterns) None"

text \<open>\<open>path.Clean\<close> for a rooted path, and the \<open>cleanPath\<close> of \<open>net/http\<close>, which keeps a trailing slash.\<close>

definition clean_segment :: "string \<Rightarrow> string list \<Rightarrow> string list" where
  "clean_segment s acc =
     (if s = [] \<or> s = ''.'' then acc else if s = ''..'' then (if acc = [] then [] else butlast acc) else acc @ [s])"

definition path_clean :: "string \<Rightarrow> string" where
  "path_clean p = ''/'' @ Join ''/'' (fold clean_segment (Split (CHR ''/'') p) [])"

definition cleanPath :: "string \<Rightarrow> string" where
  "cleanPath p =
     (let np = path_clean p
      in if ends_in_slash p \<and> np \<noteq> ''/'' then np @ ''/'' else np)"

datatype dispatch = Moved string | Found route | NotAllowed | NotFound

text \<open>A match is exact unless the pattern is for a subtree and the path is below its root.\<close>

definition exact_match :: "mux_pattern option \<Rightarrow> string \<Rightarrow> bool" where
  "exact_match m path =
     (case m of
        None \<Rightarrow> False
      | Some p \<Rightarrow> \<not> ends_in_slash (mp_path p) \<or> path_segments path = Split (CHR ''/'') (mp_path p))"

definition mux_dispatch :: "mux_pattern list \<Rightarrow> http_request \<Rightarrow> dispatch" where
  "mux_dispatch patterns r =
     (let method = r_method r;
          escaped = escaped_path (r_url r);
          path = (if method = ''CONNECT'' then escaped else cleanPath escaped);
          m = mux_match method path patterns;
          query = (if u_rawquery (r_url r) = [] then [] else ''?'' @ u_rawquery (r_url r))
      in if \<not> exact_match m path \<and> \<not> ends_in_slash path \<and> exact_match (mux_match method (path @ ''/'') patterns) (path @ ''/'')
         then Moved (escape_mode encodePath (cleanPath (u_path (r_url r)) @ ''/'') @ query)
         else if path \<noteq> escaped then Moved (escape_mode encodePath path @ query)
         else (case m of
             Some p \<Rightarrow> Found (mp_route p)
           | None \<Rightarrow> (if \<exists>p \<in> set patterns. pattern_matches ''GET'' path p then NotAllowed else NotFound)))"

section \<open>The entry point\<close>

definition serve_route ::
    "env \<Rightarrow> rule_state list \<Rightarrow> route \<Rightarrow> world \<Rightarrow> (unit, world) outcome" where
  "serve_route env rules route w =
     (case route of
        RouteRequest \<Rightarrow> handleRequest env rules w
      | RouteAssets \<Rightarrow> Ret () (emit (StaticAsset (u_path (r_url (w_req w)))) w)
      | RouteStatic reg \<Rightarrow> Ret () (emit (StaticAsset (u_path (r_url (w_req w)))) w)
      | RouteVerify reg \<Rightarrow> VerifyHandlerFunc env reg VerifyHandlerChallengeResponseFunc w
      | RoutePreload reg \<Rightarrow> preload_handler env reg w
      | RouteResource reg \<Rightarrow> resource_load_handler env reg w
      | RouteMake reg p \<Rightarrow> make_handler env reg p w
      | RouteScript reg p \<Rightarrow> ServeChallengeScript env reg (wp_settings p) (path_clean (reg_path reg @ ''/static/'' @ wp_loader p)) w
      | RouteMux reg \<Rightarrow> Ret () w)"

definition serve_dispatch :: "(route \<Rightarrow> world \<Rightarrow> (unit, world) outcome) \<Rightarrow> dispatch \<Rightarrow> world \<Rightarrow> (unit, world) outcome" where
  "serve_dispatch serve_it d w =
     (case d of
        Moved u \<Rightarrow> Ret () (emit (Redirected u 301) w)
      | NotAllowed \<Rightarrow> Ret () (emit (HttpError 405) w)
      | NotFound \<Rightarrow> Ret () (emit (HttpError 404) w)
      | Found route \<Rightarrow> serve_it route w)"

definition mux_serve :: "env \<Rightarrow> rule_state list \<Rightarrow> world \<Rightarrow> (unit, world) outcome" where
  "mux_serve env rules w =
     serve_dispatch (\<lambda>route w. case route of
         RouteMux reg \<Rightarrow> serve_dispatch (serve_route env rules) (mux_dispatch (reg_routes reg) (w_req w)) w
       | _ \<Rightarrow> serve_route env rules route w)
       (mux_dispatch (setupRoutes env) (w_req w)) w"

definition ServeHTTP :: "env \<Rightarrow> rule_state list \<Rightarrow> (string \<times> string) option \<Rightarrow> world \<Rightarrow> (unit, world) outcome" where
  "ServeHTTP env rules fingerprint w =
     (case CreateRequestData env (w_ticks w) fingerprint (w_req w) of
        (data, t) \<Rightarrow> mux_serve env rules (EvaluateChallenges env (w\<lparr>w_data := data, w_ticks := t\<rparr>)))"

end
