(* ===== verification/Startup.thy ===== *)
theory Startup
  imports Conditions Policies Runtime_Laws Server
begin

text \<open>
  How a state is made from a policy and how it is closed (\<open>NewState\<close> and \<open>Close\<close> of \<open>lib/state.go\<close>), with the
  private key and its seed (\<open>cmd/go-away/main.go\<close>), the choice of the page template
  (\<open>lib/template.go\<close>), the named conditions, and the loops over challenges and rules.
\<close>

section \<open>The private key\<close>

definition SeedSize :: nat where "SeedSize = 32"

datatype seed_choice = NoSeed | GenerateSeed | Seed bytes

text \<open>The value comes from the first of two environment variables and a flag that is not empty.\<close>

definition seed_value :: "string \<Rightarrow> string \<Rightarrow> string \<Rightarrow> string" where
  "seed_value goaway_env env flag = (if goaway_env \<noteq> [] then goaway_env else if env \<noteq> [] then env else flag)"

definition parse_seed :: "string \<Rightarrow> go_error + seed_choice" where
  "parse_seed kValue =
     (if kValue = [] then Inr NoSeed
      else if lower_string kValue = ''generate'' then Inr GenerateSeed
      else (case hex_decode kValue of
          Inl e \<Rightarrow> Inl (Wrap ''failed to decode seed'' (hex_error_to_go e))
        | Inr seed \<Rightarrow>
            (if length seed \<noteq> SeedSize
             then Inl (Err (''invalid seed length: '' @ decimal (length seed) @ '', expected '' @ decimal SeedSize))
             else Inr (Seed seed))))"

record key_lib =
  kl_from_seed :: "bytes \<Rightarrow> bytes \<times> bytes"
  kl_generate :: "go_error + bytes \<times> bytes"

text \<open>
  The private and the public key. The seed is a slice that the caller keeps: the second result is what
  the slice holds afterwards.
\<close>

definition load_key :: "key_lib \<Rightarrow> bytes \<Rightarrow> (go_error + bytes \<times> bytes) \<times> bytes" where
  "load_key kl seed =
     (if seed \<noteq> [] then
        (if length seed \<noteq> SeedSize
         then (Inl (Err (''invalid private key seed length: '' @ decimal (length seed))), seed)
         else (Inr (kl_from_seed kl seed), replicate (length seed) 0))
      else (kl_generate kl, seed))"

section \<open>The page template\<close>

definition page_template :: "string \<Rightarrow> string" where
  "page_template name = ''challenge-'' @ name @ ''.gohtml''"

text \<open>\<open>path.Base\<close>.\<close>

definition path_Base :: "string \<Rightarrow> string" where
  "path_Base p =
     (if p = [] then ''.''
      else (let q = rev (dropWhile (\<lambda>c. c = CHR ''/'') (rev p));
                b = rev (takeWhile (\<lambda>c. c \<noteq> CHR ''/'') (rev q))
            in if b = [] then ''/'' else b))"

definition load_template ::
    "(string \<Rightarrow> go_error + bytes) \<Rightarrow> (string \<Rightarrow> bytes \<Rightarrow> go_error + 't) \<Rightarrow> string \<Rightarrow> (string, 't) gomap \<Rightarrow>
       (go_error + string) \<times> (string, 't) gomap" where
  "load_template readfile parse name templates =
     (if mget templates (page_template name) \<noteq> None then (Inr name, templates)
      else (case readfile name of
          Inr (b # bs) \<Rightarrow>
            (let base = path_Base name in
             case parse base (b # bs) of
               Inl e \<Rightarrow> (Inl (Wrap (''error loading template '' @ name) e), templates)
             | Inr t \<Rightarrow> (Inr base, mset_key base t templates))
        | _ \<Rightarrow> (Inl (Err (''no template defined for '' @ name)), templates)))"

section \<open>Named conditions\<close>

fun named_conditions ::
    "cel_env \<Rightarrow> (cel_ast \<Rightarrow> go_error + string) \<Rightarrow> (string \<times> string list) list \<Rightarrow> go_error + (string \<times> string) list" where
  "named_conditions ce print [] = Inr []"
| "named_conditions ce print ((k, entries) # cs) =
     (case ce_ast ce ''||'' entries of
        Inl e \<Rightarrow> Inl (Err (''conditions '' @ k @ '': error compiling conditions: '' @ error_text e))
      | Inr ast \<Rightarrow>
          (case ast_output ast of
             None \<Rightarrow> Inl (Err (''conditions '' @ k @ '': error compiling conditions: no output''))
           | Some out \<Rightarrow>
               (if out \<noteq> BoolType
                then Inl (Err (''conditions '' @ k @ '': error compiling conditions: output type is not bool''))
                else (case print ast of
                    Inl e \<Rightarrow> Inl (Err (''conditions '' @ k @ '': error printing condition: '' @ error_text e))
                  | Inr cond \<Rightarrow>
                      (case named_conditions ce print cs of
                         Inl e \<Rightarrow> Inl e
                       | Inr rs \<Rightarrow> Inr ((''($'' @ k @ '')'', ''('' @ cond @ '')'') # rs))))))"

text \<open>\<open>strings.Replacer\<close>: at each place the first of the old texts, in their order, that matches.\<close>

fun find_old :: "(string \<times> string) list \<Rightarrow> string \<Rightarrow> (string \<times> string) option" where
  "find_old [] s = None"
| "find_old ((old, new) # ps) s = (if HasPrefix s old then Some (old, new) else find_old ps s)"

function Replace :: "(string \<times> string) list \<Rightarrow> string \<Rightarrow> string" where
  "Replace ps [] = []"
| "Replace ps (c # s) =
     (case find_old ps (c # s) of
        None \<Rightarrow> c # Replace ps s
      | Some (old, new) \<Rightarrow> (if old = [] then c # Replace ps s else new @ Replace ps (drop (length old) (c # s))))"
  by pat_completeness auto
termination by (relation "measure (\<lambda>(ps, s). length s)") auto

section \<open>Challenges and rules\<close>

fun create_challenges ::
    "(string \<Rightarrow> ('p \<Rightarrow> registration \<Rightarrow> go_error + registration) option) \<Rightarrow> (string list \<Rightarrow> go_error + cel_program) \<Rightarrow>
     (string \<Rightarrow> string) \<Rightarrow> (string list \<Rightarrow> string) \<Rightarrow> string \<Rightarrow> (string \<times> 'p policy_challenge) list \<Rightarrow> int \<Rightarrow> register \<Rightarrow>
       (go_error + register) \<times> int" where
  "create_challenges runtimes compile replace join urlPath [] counter r = (Inr r, counter)"
| "create_challenges runtimes compile replace join urlPath ((name, pol) # cs) counter r =
     (case Create runtimes compile (Some replace) join urlPath name pol counter r of
        (Inl e, counter1, r1) \<Rightarrow> (Inl (Wrap (''challenge '' @ name) e), counter1)
      | (Inr (reg, i), counter1, r1) \<Rightarrow> create_challenges runtimes compile replace join urlPath cs counter1 r1)"

fun new_rules :: "env \<Rightarrow> compilers \<Rightarrow> policy_rule list \<Rightarrow> go_error + rule_state list" where
  "new_rules env co [] = Inr []"
| "new_rules env co (r # rs) =
     (case NewRuleState env co None r of
        Inl e \<Rightarrow> Inl (Wrap (''rule '' @ pr_name r) e)
      | Inr rule \<Rightarrow> (case new_rules env co rs of Inl e \<Rightarrow> Inl e | Inr rules \<Rightarrow> Inr (rule # rules)))"

text \<open>The lists of conditions that are registered for the challenges and the rules, in the order of the code.\<close>

definition conditions_of :: "(string \<Rightarrow> string) \<Rightarrow> string list \<Rightarrow> string list list" where
  "conditions_of replace cs = (if cs = [] then [] else [map replace cs])"

fun rule_conditions :: "(string \<Rightarrow> string) \<Rightarrow> policy_rule \<Rightarrow> string list list" where
  "rule_conditions replace (PolicyRule name cs action settings kids) =
     conditions_of replace cs @ concat (map (rule_conditions replace) kids)"

section \<open>Making a state\<close>

record ('p, 'r, 'd, 't, 'g) new_io =
  ni_keys :: key_lib
  ni_readfile :: "string \<Rightarrow> go_error + bytes"
  ni_parse :: "string \<Rightarrow> bytes \<Rightarrow> go_error + 't"
  ni_cel :: cel_env
  ni_print :: "cel_ast \<Rightarrow> go_error + string"
  ni_load :: "('r, 'd) loader"
  ni_runtimes :: "string \<Rightarrow> ('p \<Rightarrow> registration \<Rightarrow> go_error + registration) option"
  ni_join :: "string list \<Rightarrow> string"
  ni_regexp :: "string \<Rightarrow> go_error + (string \<Rightarrow> string \<Rightarrow> string)"
  ni_geo :: "string \<Rightarrow> go_error + 'g"

text \<open>
  A state: its environment holds the keys, the template and the register; the rest are the networks, the
  rules, the patterns of the multiplexer, the country database, the limit of its cache, and whether it
  is closed.
\<close>

record ('r, 'd, 'g) state =
  st_env :: env
  st_networks :: "('r, 'd) net_state"
  st_rules :: "rule_state list"
  st_mux :: "mux_pattern list"
  st_geoipDB :: 'g
  st_maxGeoIPCacheSize :: nat
  st_closed :: bool

text \<open>
  What the process keeps across states: the slice of the seed, the templates, and the counter of
  identifiers. They change also when making a state fails.
\<close>

record 't process =
  ps_seed :: bytes
  ps_templates :: "(string, 't) gomap"
  ps_counter :: int

definition key_env :: "env \<Rightarrow> bytes \<times> bytes \<Rightarrow> string \<Rightarrow> env" where
  "key_env env0 keys template =
     env0\<lparr>e_private_key := fst keys, e_public_key := snd keys, e_fingerprint := e_sha256 env0 (fst keys),
          e_template := template\<rparr>"

definition register_conditions ::
    "cel_env \<Rightarrow> ('r, 'd) loader \<Rightarrow> string list list \<Rightarrow> ('r, 'd) net_state \<Rightarrow> ('r, 'd) net_state" where
  "register_conditions ce load css s = fold (\<lambda>cs s. snd (RegisterCondition ce load ''||'' cs s)) css s"

definition build_state ::
    "('p, 'r, 'd, 't, 'g) new_io \<Rightarrow> 'p policy \<Rightarrow> env \<Rightarrow> ('r, 'd) net_state \<Rightarrow> int \<Rightarrow>
       (go_error + ('r, 'd, 'g) state) \<times> int" where
  "build_state io p env nets counter =
     (case named_conditions (ni_cel io) (ni_print io) (nil_entries (po_conditions p)) of
        Inl e \<Rightarrow> (Inl e, counter)
      | Inr replacements \<Rightarrow>
          (let replace = Replace replacements;
               compile = (\<lambda>cs. fst (RegisterCondition (ni_cel io) (ni_load io) ''||'' cs nets)) in
           case create_challenges (ni_runtimes io) compile replace (ni_join io) (e_url_path env)
                  (nil_entries (po_challenges p)) counter [] of
             (Inl e, counter1) \<Rightarrow> (Inl e, counter1)
           | (Inr reg, counter1) \<Rightarrow>
               (let env1 = env\<lparr>e_challenges := reg\<rparr> in
                case new_rules env1 \<lparr>co_regexp = ni_regexp io, co_condition = compile, co_replace = replace\<rparr> (po_rules p) of
                  Inl e \<Rightarrow> (Inl e, counter1)
                | Inr rules \<Rightarrow>
                    (case ni_geo io ''GeoLite2-Country.mmdb'' of
                       Inl e \<Rightarrow> (Inl (Wrap ''failed to open GeoLite2-Country.mmdb'' e), counter1)
                     | Inr db \<Rightarrow>
                         (Inr \<lparr>st_env = env1,
                            st_networks = register_conditions (ni_cel io) (ni_load io)
                              (concat (map (\<lambda>(n, c). conditions_of replace (pc_conditions c)) (nil_entries (po_challenges p))) @
                               concat (map (rule_conditions replace) (po_rules p))) nets,
                            st_rules = rules, st_mux = setupRoutes env1, st_geoipDB = db,
                            st_maxGeoIPCacheSize = 10000, st_closed = False\<rparr>, counter1)))))"

definition NewState ::
    "('p, 'r, 'd, 't, 'g) new_io \<Rightarrow> 'p policy \<Rightarrow> env \<Rightarrow> 'd \<Rightarrow> 't process \<Rightarrow>
       (go_error + ('r, 'd, 'g) state) \<times> 't process" where
  "NewState io p env0 disk ps =
     (case load_key (ni_keys io) (ps_seed ps) of
        (Inl e, seed) \<Rightarrow> (Inl e, ps\<lparr>ps_seed := seed\<rparr>)
      | (Inr keys, seed) \<Rightarrow>
          (case load_template (ni_readfile io) (ni_parse io) (e_template env0) (ps_templates ps) of
             (Inl e, templates) \<Rightarrow> (Inl e, ps\<lparr>ps_seed := seed, ps_templates := templates\<rparr>)
           | (Inr template, templates) \<Rightarrow>
               (case build_state io p (key_env env0 keys template)
                       \<lparr>ns_cells = map (\<lambda>(k, n). (k, Unloaded)) (nil_entries (po_networks p)), ns_disk = disk\<rparr> (ps_counter ps) of
                  (res, counter) \<Rightarrow> (res, ps\<lparr>ps_seed := seed, ps_templates := templates, ps_counter := counter\<rparr>))))"

section \<open>Closing a state\<close>

text \<open>The challenges that have an object, and the answer of each \<open>Close\<close>; the calls are recorded.\<close>

fun close_all :: "('o \<Rightarrow> go_error option) \<Rightarrow> 'o list \<Rightarrow> go_error option \<times> 'o list" where
  "close_all close [] = (None, [])"
| "close_all close (ob # obs) =
     (case close ob of
        Some e \<Rightarrow> (Some e, [ob])
      | None \<Rightarrow> (case close_all close obs of (r, calls) \<Rightarrow> (r, ob # calls)))"

definition Close :: "('o \<Rightarrow> go_error option) \<Rightarrow> 'o list \<Rightarrow> ('r, 'd, 'g) state \<Rightarrow>
    (go_error option \<times> 'o list) \<times> ('r, 'd, 'g) state" where
  "Close close obs st = (if st_closed st then ((None, []), st) else (close_all close obs, st\<lparr>st_closed := True\<rparr>))"

section \<open>Lemmas\<close>

text \<open>The program that a condition compiles to does not depend on the networks.\<close>

lemma RegisterCondition_program:
  "fst (RegisterCondition ce load op cs s) = fst (RegisterCondition ce load op cs s')"
  by (simp add: RegisterCondition_def split: sum.split option.split)

lemma create_challenges_names:
  assumes "create_challenges runtimes compile replace join urlPath cs n r = (Inr r', n')"
    and "register_inv n r" "0 \<le> n" "\<And>k fill. runtimes k = Some fill \<Longrightarrow> fills fill"
  shows "register_inv n' r' \<and> n \<le> n' \<and>
    (\<forall>name. GetByName r' name \<noteq> None \<longleftrightarrow> GetByName r name \<noteq> None \<or> name \<in> fst ` set cs)"
  using assms(1-3)
proof (induction cs arbitrary: n r)
  case Nil
  then show ?case by simp
next
  case (Cons c cs)
  obtain name pol where c: "c = (name, pol)" by (cases c)
  with Cons.prems(1) obtain reg i n1 r1 where cr: "Create runtimes compile (Some replace) join urlPath name pol n r = (Inr (reg, i), n1, r1)"
      and rest: "create_challenges runtimes compile replace join urlPath cs n1 r1 = (Inr r', n')"
    by (auto split: prod.splits sum.splits)
  have "register_inv n1 r1 \<and> 0 \<le> n1" by (rule Create_inv [OF Cons.prems(2,3) cr]) (rule assms(4))
  then have inv: "register_inv n1 r1" "0 \<le> n1" by simp_all
  have ok: "assign_id n r name = (n1, i) \<and> reg_name reg = name \<and> r1 = mset_key i reg r"
    using Create_ok [OF cr] assms(4) by blast
  have le: "n \<le> n1" using ok assign_id_counter by blast
  have names: "GetByName r1 x \<noteq> None \<longleftrightarrow> GetByName r x \<noteq> None \<or> x = name" for x
  proof -
    have known: "GetByName q x \<noteq> None \<longleftrightarrow> (\<exists>j d. mget q j = Some d \<and> reg_name d = x)" if "register_inv m q" for m q
    proof
      assume "GetByName q x \<noteq> None"
      then obtain d j where "GetByName q x = Some (d, j)" by auto
      with that show "\<exists>j d. mget q j = Some d \<and> reg_name d = x"
        using GetByName_Some unfolding register_inv_def by blast
    next
      assume "\<exists>j d. mget q j = Some d \<and> reg_name d = x"
      with GetByName_complete [OF that] show "GetByName q x \<noteq> None" by fastforce
    qed
    have r1: "r1 = mset_key i reg r" and a: "assign_id n r name = (n1, i)" and rn: "reg_name reg = name"
      using ok by blast+
    have same: "mget r i = Some d \<Longrightarrow> reg_name d = name" for d
      using assign_id_known [OF Cons.prems(2) a] Cons.prems(3) le by blast
    have "(\<exists>j d. mget r1 j = Some d \<and> reg_name d = x) \<longleftrightarrow> (\<exists>j d. mget r j = Some d \<and> reg_name d = x) \<or> x = name"
    proof (cases "x = name")
      case True
      then show ?thesis by (auto simp: r1 rn intro: exI [of _ i])
    next
      case False
      then have "mget r1 j = Some d \<and> reg_name d = x \<longleftrightarrow> mget r j = Some d \<and> reg_name d = x" for j d
        using rn same by (auto simp: r1)
      with False show ?thesis by blast
    qed
    then show ?thesis unfolding known [OF inv(1)] known [OF Cons.prems(2)] .
  qed
  from Cons.IH [OF rest inv] le names show ?case by (auto simp: c)
qed

lemma NewRuleState_name: "NewRuleState env co parent r = Inr rule \<Longrightarrow> rs_name rule = full_name parent (pr_name r)"
  by (cases r) (auto simp: Let_def split: option.splits sum.splits)

lemma new_rules_names: "new_rules env co rs = Inr rules \<Longrightarrow> map rs_name rules = map pr_name rs"
  by (induction rs arbitrary: rules) (auto simp: full_name_def dest: NewRuleState_name split: sum.splits)

lemma register_conditions_configured:
  "configured (register_conditions ce load css s) k \<longleftrightarrow> configured s k"
proof (induction css arbitrary: s)
  case Nil
  then show ?case by (simp add: register_conditions_def)
next
  case (Cons cs css)
  have "configured (snd (RegisterCondition ce load ''||'' cs s)) k \<longleftrightarrow> configured s k"
    using walk_loaded [of load _ s k] by (simp add: RegisterCondition_def split: sum.split option.split)
  with Cons show ?case by (simp add: register_conditions_def)
qed

lemma configured_unloaded:
  "configured \<lparr>ns_cells = map (\<lambda>(k, n). (k, Unloaded)) es, ns_disk = d\<rparr> k \<longleftrightarrow> k \<in> fst ` set es"
  by (induction es) (auto simp: configured_def mget_Cons)

text \<open>The parts of a state that was made.\<close>

lemma NewState_parts:
  assumes "NewState io p env0 disk ps = (Inr st, ps')"
  obtains keys template env where
    "load_key (ni_keys io) (ps_seed ps) = (Inr keys, ps_seed ps')"
    "load_template (ni_readfile io) (ni_parse io) (e_template env0) (ps_templates ps) = (Inr template, ps_templates ps')"
    "env = key_env env0 keys template"
    "build_state io p env \<lparr>ns_cells = map (\<lambda>(k, n). (k, Unloaded)) (nil_entries (po_networks p)), ns_disk = disk\<rparr> (ps_counter ps) =
       (Inr st, ps_counter ps')"
  using assms by (auto simp: NewState_def split: prod.splits sum.splits)

lemma build_state_parts:
  assumes "build_state io p env nets n = (Inr st, n')"
  obtains replacements reg compile where
    "create_challenges (ni_runtimes io) compile (Replace replacements) (ni_join io) (e_url_path env)
       (nil_entries (po_challenges p)) n [] = (Inr reg, n')"
    "st_env st = env\<lparr>e_challenges := reg\<rparr>"
    "new_rules (env\<lparr>e_challenges := reg\<rparr>) \<lparr>co_regexp = ni_regexp io, co_condition = compile,
       co_replace = Replace replacements\<rparr> (po_rules p) = Inr (st_rules st)"
    "\<exists>css. st_networks st = register_conditions (ni_cel io) (ni_load io) css nets"
proof -
  from assms obtain replacements where 1: "named_conditions (ni_cel io) (ni_print io) (nil_entries (po_conditions p)) = Inr replacements"
    by (auto simp: build_state_def split: sum.splits)
  define compile where "compile = (\<lambda>cs. fst (RegisterCondition (ni_cel io) (ni_load io) ''||'' cs nets))"
  obtain res n1 where c: "create_challenges (ni_runtimes io) compile (Replace replacements) (ni_join io) (e_url_path env)
      (nil_entries (po_challenges p)) n [] = (res, n1)"
    by (cases "create_challenges (ni_runtimes io) compile (Replace replacements) (ni_join io) (e_url_path env)
      (nil_entries (po_challenges p)) n []")
  obtain reg where res: "res = Inr reg"
    using assms c by (cases res) (simp_all add: build_state_def 1 Let_def compile_def)
  obtain rules where r: "new_rules (env\<lparr>e_challenges := reg\<rparr>) \<lparr>co_regexp = ni_regexp io, co_condition = compile,
      co_replace = Replace replacements\<rparr> (po_rules p) = Inr rules"
    using assms c res by (auto simp: build_state_def 1 Let_def compile_def split: sum.splits)
  have "n1 = n'" "st_env st = env\<lparr>e_challenges := reg\<rparr>" "st_rules st = rules"
      "\<exists>css. st_networks st = register_conditions (ni_cel io) (ni_load io) css nets"
    using assms c res r by (auto simp: build_state_def 1 Let_def compile_def split: sum.splits)
  with c res r show ?thesis by (intro that) simp_all
qed

lemma key_env_private: "e_private_key (key_env env0 keys t) = fst keys" "e_fingerprint (key_env env0 keys t) = e_sha256 env0 (fst keys)"
  by (simp_all add: key_env_def)

lemma page_template_longer: "page_template name \<noteq> name"
proof
  assume "page_template name = name"
  then have "length (page_template name) = length name" by simp
  then show False by (simp add: page_template_def)
qed

lemma Close_twice: "snd (Close close obs st) = st' \<Longrightarrow> Close close obs' st' = ((None, []), st')"
  by (cases "st_closed st") (auto simp: Close_def)

lemma NewState_key:
  assumes "NewState io p env0 disk ps = (Inr st, ps')"
  shows "\<exists>keys. load_key (ni_keys io) (ps_seed ps) = (Inr keys, ps_seed ps') \<and> e_private_key (st_env st) = fst keys"
proof -
  obtain keys template env where k: "load_key (ni_keys io) (ps_seed ps) = (Inr keys, ps_seed ps')"
      and env: "env = key_env env0 keys template"
      and b: "build_state io p env \<lparr>ns_cells = map (\<lambda>(k, n). (k, Unloaded)) (nil_entries (po_networks p)), ns_disk = disk\<rparr>
        (ps_counter ps) = (Inr st, ps_counter ps')"
    using NewState_parts [OF assms] by metis
  obtain reg where "st_env st = env\<lparr>e_challenges := reg\<rparr>"
    by (rule build_state_parts [OF b]) blast
  with k env show ?thesis by (simp add: key_env_private)
qed

section \<open>The claims\<close>


definition test_io :: "(yaml_node option, ip_net list, unit, bytes, unit) new_io" where
  "test_io = \<lparr>ni_keys = \<lparr>kl_from_seed = \<lambda>s. (s @ s, s), kl_generate = Inl (Err ''no entropy'')\<rparr>,
     ni_readfile = \<lambda>f. Inl (Err ''no file''), ni_parse = \<lambda>n b. Inr b, ni_cel = test_cel, ni_print = \<lambda>a. Inr ''true'',
     ni_load = \<lambda>k d. ([], d), ni_runtimes = Runtimes (\<lambda>_ _ _. None), ni_join = concat,
     ni_regexp = \<lambda>r. Inl (Err ''no regexp''), ni_geo = \<lambda>f. Inr ()\<rparr>"

definition test_policy :: "yaml_node option policy" where
  "test_policy = \<lparr>po_networks = Some [(''lan'', [])], po_conditions = Some [],
     po_challenges = Some [(''c'', \<lparr>pc_conditions = [], pc_runtime = ''refresh'', pc_duration = 0, pc_parameters = None\<rparr>)],
     po_rules = [PolicyRule ''r'' [] ''pass'' None []]\<rparr>"

definition test_env :: env where
  "test_env = sample_env\<lparr>e_template := ''anubis''\<rparr>"

definition process_with :: "bytes \<Rightarrow> int \<Rightarrow> bytes process" where
  "process_with s n = \<lparr>ps_seed = s, ps_templates = [(page_template ''anubis'', [])], ps_counter = n\<rparr>"

lemma any_test_state:
  assumes "length s = 32" "e_template env0 = ''anubis''"
  shows "\<exists>st. NewState test_io test_policy env0 () (process_with s n) = (Inr st, process_with (replicate 32 0) (n + 1))"
proof -
  have up: "upper_string ''pass'' = ''PASS''" by code_simp
  have k: "load_key (ni_keys test_io) s = (Inr (s @ s, s), replicate 32 0)"
    using assms(1) by (auto simp: load_key_def test_io_def SeedSize_def)
  have t: "load_template (ni_readfile test_io) (ni_parse test_io) (e_template env0) [(page_template ''anubis'', [])] =
      (Inr ''anubis'', [(page_template ''anubis'', [])])"
    by (simp add: load_template_def assms(2) mget_Cons)
  have f: "nil_entries (po_conditions test_policy) = []" "po_rules test_policy = [PolicyRule ''r'' [] ''pass'' None []]"
      "nil_entries (po_challenges test_policy) =
        [(''c'', \<lparr>pc_conditions = [], pc_runtime = ''refresh'', pc_duration = 0, pc_parameters = None\<rparr>)]"
    by (simp_all add: test_policy_def nil_entries_def)
  have g: "ni_geo test_io db = Inr ()" for db by (simp add: test_io_def)
  have c: "\<exists>reg. create_challenges (ni_runtimes test_io) compile rep (ni_join test_io) path
      (nil_entries (po_challenges test_policy)) n [] = (Inr reg, n + 1)" for compile rep path
    by (simp add: f test_io_def Create_def Runtimes_def fill_refresh_def decode_params_def assign_id_def Let_def
        new_registration_def)
  have h: "new_handler env cmp name hash ''PASS'' None = Some (Inr HPass)" for env cmp name hash
    by (subst new_handler.simps) simp
  have r: "\<exists>rules. new_rules env co (po_rules test_policy) = Inr rules" for env co
    by (simp add: f Let_def up compile_conditions_def h)
  have "\<exists>st. build_state test_io test_policy env nets n = (Inr st, n + 1)" for env nets
  proof -
    let ?compile = "\<lambda>cs. fst (RegisterCondition (ni_cel test_io) (ni_load test_io) ''||'' cs nets)"
    obtain reg where reg: "create_challenges (ni_runtimes test_io) ?compile (Replace []) (ni_join test_io) (e_url_path env)
        (nil_entries (po_challenges test_policy)) n [] = (Inr reg, n + 1)"
      using c by blast
    obtain rules where rules: "new_rules (env\<lparr>e_challenges := reg\<rparr>) \<lparr>co_regexp = ni_regexp test_io,
        co_condition = ?compile, co_replace = Replace []\<rparr> (po_rules test_policy) = Inr rules"
      using r by blast
    show ?thesis by (simp add: build_state_def Let_def f(1) reg rules g)
  qed
  then obtain st where "build_state test_io test_policy (key_env env0 (s @ s, s) ''anubis'')
      \<lparr>ns_cells = map (\<lambda>(k, n). (k, Unloaded)) (nil_entries (po_networks test_policy)), ns_disk = ()\<rparr> n = (Inr st, n + 1)"
    by blast
  then show ?thesis by (simp add: NewState_def process_with_def k t)
qed

lemma test_state:
  "length s = 32 \<Longrightarrow> \<exists>st. NewState test_io test_policy test_env () (process_with s n) = (Inr st, process_with (replicate 32 0) (n + 1))"
  by (rule any_test_state) (simp_all add: test_env_def)


text \<open>
  C38: After a reload the key is public knowledge. Making a state from a seed clears the slice that the
  process keeps the seed in, so every later state is made with the key of a seed of zeroes.
\<close>

theorem reload_key_of_zeroes:
  assumes "NewState io p env0 disk ps = (Inr st, ps1)" "ps_seed ps \<noteq> []"
    and "NewState io' p' env0' disk' ps1 = (Inr st', ps2)" "ni_keys io' = ni_keys io"
  shows "e_private_key (st_env st) = fst (kl_from_seed (ni_keys io) (ps_seed ps)) \<and>
    e_private_key (st_env st') = fst (kl_from_seed (ni_keys io) (replicate SeedSize 0))"
proof -
  obtain keys where k: "load_key (ni_keys io) (ps_seed ps) = (Inr keys, ps_seed ps1)" "e_private_key (st_env st) = fst keys"
    using NewState_key [OF assms(1)] by blast
  obtain keys' where k': "load_key (ni_keys io') (ps_seed ps1) = (Inr keys', ps_seed ps2)" "e_private_key (st_env st') = fst keys'"
    using NewState_key [OF assms(3)] by blast
  have "keys = kl_from_seed (ni_keys io) (ps_seed ps)" "ps_seed ps1 = replicate SeedSize 0"
    using k(1) assms(2) by (auto simp: load_key_def split: if_splits)
  moreover from this(2) have "keys' = kl_from_seed (ni_keys io) (replicate SeedSize 0)"
    using k'(1) assms(4) by (auto simp: load_key_def SeedSize_def)
  ultimately show ?thesis using k(2) k'(2) by simp
qed

theorem reload_key_of_zeroes_witness:
  "\<exists>st ps1 st' ps2. NewState test_io test_policy test_env () (process_with (replicate 32 7) 0) = (Inr st, ps1) \<and>
     NewState test_io test_policy test_env () ps1 = (Inr st', ps2) \<and> e_private_key (st_env st') = replicate 64 0"
proof -
  obtain st where st: "NewState test_io test_policy test_env () (process_with (replicate 32 7) 0) =
      (Inr st, process_with (replicate 32 0) 1)"
    using test_state [of "replicate 32 7" 0] by auto
  obtain st' where st': "NewState test_io test_policy test_env () (process_with (replicate 32 0) 1) =
      (Inr st', process_with (replicate 32 0) 2)"
    using test_state [of "replicate 32 0" 1] by auto
  have "ps_seed (process_with (replicate 32 7) 0) \<noteq> []" by (simp add: process_with_def)
  from reload_key_of_zeroes [OF st this st' refl] st st' show ?thesis
    by (auto simp: test_io_def SeedSize_def replicate_add [symmetric])
qed

text \<open>
  A template of one's own is loaded and never shown: what is read from the file is stored under the base
  name of the file, while pages look for that name with a prefix and a suffix, so they find what was
  there before, if there was anything.
\<close>

theorem custom_template_unused:
  assumes "mget templates (page_template name) = None"
    and "load_template readfile parse name templates = (Inr base, templates')"
  shows "mget templates' (page_template base) = mget templates (page_template base) \<and> base = path_Base name"
  using assms page_template_longer [of base]
  by (auto simp: load_template_def Let_def split: sum.splits list.splits)

theorem custom_template_unused_witness:
  "load_template (\<lambda>f. Inr [1]) (\<lambda>n b. Inr b) ''/etc/mine.gohtml'' [] = (Inr ''mine.gohtml'', [(''mine.gohtml'', [1])]) \<and>
   mget [(''mine.gohtml'', [1 :: byte])] (page_template ''mine.gohtml'') = None"
proof -
  have b: "path_Base ''/etc/mine.gohtml'' = ''mine.gohtml''" by code_simp
  have l: "load_template (\<lambda>f. Inr [1]) (\<lambda>n b. Inr b) ''/etc/mine.gohtml'' [] = (Inr ''mine.gohtml'', [(''mine.gohtml'', [1])])"
    by (simp add: load_template_def b mset_key_def Let_def)
  from custom_template_unused [OF _ l] l show ?thesis by simp
qed

end
