(* ===== verification/Server_Laws.thy ===== *)
theory Server_Laws
  imports Server
begin

text \<open>
  What the server guarantees: every request to the entry point of the site is answered exactly once, a
  backend sees no trace of the program in the request, and behind a gate it sees only requests that
  came with a valid token.
\<close>

section \<open>The callback of the rules\<close>

lemma cleanup_frame [simp]:
  "answers (cleanup_request env f n a w) = answers w" "served_events (cleanup_request env f n a w) = served_events w"
  "d_verify (w_data (cleanup_request env f n a w)) = d_verify (w_data w)"
  using ResponseHeaders_writes by (simp_all add: cleanup_request_def Let_def writes_def)

lemma request_done_backend:
  assumes "GetBackend env host = Some b"
  shows "\<exists>b'. request_done env b host f n a w = (BackendHandler b', cleanup_request env f n a w)"
  by (simp add: request_done_def get_backend_def Let_def assms)

lemma request_done_ok:
  assumes "GetBackend env host = Some b"
  shows "done_ok (request_done env b host f n a)"
  unfolding done_ok_def using request_done_backend [OF assms] cleanup_frame(1) by blast

section \<open>Answers\<close>

lemma run_rules_answers:
  assumes "GetBackend env host = Some b" "200 \<le> e_response_code env"
  shows "\<forall>rule \<in> set rules. wf_rule rule \<Longrightarrow> run_rules env b host rules w = Ret next w' \<Longrightarrow>
     answers w' = (if next then answers w else answers w + 1)"
proof (induction rules arbitrary: w)
  case (Cons rule rules)
  let ?e = "Evaluate env (request_done env b host True (rs_name rule) (rs_action rule)) rule w"
  have a: "answered w ?e"
    using Evaluate_answered(1) [OF _ request_done_ok [OF assms(1)] assms(2)] Cons.prems(1) by simp
  show ?case
  proof (cases ?e)
    case (Panic e w1)
    then show ?thesis using Cons.prems(2) by simp
  next
    case (Ret q w1)
    consider e where "q = Inl e" | "q = Inr False" | "q = Inr True" by (cases q) auto
    then show ?thesis
    proof cases
      case (1 e)
      then show ?thesis using Cons.prems(2) Ret by (auto simp: obind_Ret_iff)
    next
      case 2
      then show ?thesis using Cons.prems(2) Ret a by simp
    next
      case 3
      then show ?thesis using Cons.prems Cons.IH [of w1] Ret a by simp
    qed
  qed
qed simp

lemma handleRequest_answers:
  assumes "\<forall>rule \<in> set rules. wf_rule rule" "200 \<le> e_response_code env" "handleRequest env rules w = Ret () w'"
  shows "answers w' = answers w + 1"
proof (cases "GetBackend env (r_host (w_req w))")
  case None
  then show ?thesis using assms(3) by (auto simp: handleRequest_def final_event_def)
next
  case (Some b)
  let ?r = "run_rules env b (r_host (w_req w)) rules w"
  show ?thesis
  proof (cases ?r)
    case (Panic e w1)
    then show ?thesis using assms(3) Some by (simp add: handleRequest_def)
  next
    case (Ret n w1)
    have a: "answers w1 = (if n then answers w else answers w + 1)"
      by (rule run_rules_answers [OF Some assms(2) assms(1) Ret])
    show ?thesis
    proof (cases n)
      case False
      then show ?thesis using assms(3) Some Ret a by (simp add: handleRequest_def)
    next
      case True
      obtain b' where "request_done env b (r_host (w_req w)) False ''DEFAULT'' ''PASS'' (ActionHit ''PASS'' (RuleHit ''DEFAULT'' w1)) =
          (BackendHandler b', cleanup_request env False ''DEFAULT'' ''PASS'' (ActionHit ''PASS'' (RuleHit ''DEFAULT'' w1)))"
        using request_done_backend [OF Some] by blast
      then show ?thesis
        using assms(3) Some Ret a True by (auto simp: handleRequest_def handle_pass_def serve_def final_event_def)
    qed
  qed
qed

section \<open>Requests that a backend sees\<close>

definition all_served :: "(http_request \<Rightarrow> bool) \<Rightarrow> world \<Rightarrow> bool" where
  "all_served P w \<longleftrightarrow> (\<forall>e \<in> set (served_events w). \<exists>b q. e = Served b q \<and> P q)"

definition hands_over :: "(http_request \<Rightarrow> bool) \<Rightarrow> done_func \<Rightarrow> bool" where
  "hands_over P fin \<longleftrightarrow> (\<forall>w. all_served P w \<longrightarrow> all_served P (snd (fin w)) \<and> P (w_req (snd (fin w))))"

lemma all_served_same: "served_events w' = served_events w \<Longrightarrow> all_served P w' = all_served P w"
  by (simp add: all_served_def)

lemma all_served_frame [simp]:
  "all_served P (set_req g w) = all_served P w" "all_served P (ActionHit a w) = all_served P w"
  "all_served P (RuleMiss n w) = all_served P w" "all_served P (RuleHit n w) = all_served P w"
  by (rule all_served_same; simp add: RuleMiss_def RuleHit_def)+

lemma serve_all_served: "hands_over P fin \<Longrightarrow> all_served P w \<Longrightarrow> fin w = (h, w1) \<Longrightarrow> all_served P (serve h' w1)"
proof -
  assume "hands_over P fin" "all_served P w" "fin w = (h, w1)"
  then have "all_served P w1 \<and> P (w_req w1)" unfolding hands_over_def by (metis snd_conv)
  then show ?thesis by (auto simp: all_served_def serve_def is_served_def split: http_handler.split)
qed

lemma page_served:
  "ErrorPage env c e x w = Ret () w' \<Longrightarrow> served_events w' = served_events w"
  using ErrorPage_cases [of env c e x w] by (auto dest!: writes_same_request simp: is_served_def)

lemma check_loop_kept:
  assumes "check_loop env cont pa pass regs w = Some (Ret r w')" "all_served P w"
    "\<forall>w r w'. pass w = Ret r w' \<longrightarrow> all_served P w \<longrightarrow> all_served P w'"
  shows "all_served P w'"
proof -
  have v: "all_served P w'" if "valid_branch env cont pa pass reg w = Ret r w'" for reg
  proof -
    have s: "all_served P (ChallengeChecked reg w)" "all_served P (ActionHit pa (ChallengeChecked reg w))"
      "all_served P (emit (Redirected u 307) (ResponseHeaders env (ChallengeChecked reg w)))" for u
      using assms(2) by (simp_all add: all_served_def is_served_def)
    then show ?thesis using that assms(3) by (auto simp: valid_branch_def Let_def split: if_splits)
  qed
  show ?thesis using assms(1) by (induction regs) (auto split: if_splits intro: v)
qed

lemma issue_loop_kept:
  assumes code: "200 \<le> e_response_code env"
    and pass: "\<forall>w r w'. pass w = Ret r w' \<longrightarrow> all_served P w \<longrightarrow> all_served P w'"
    and fail: "\<forall>w r w'. fail w = Ret r w' \<longrightarrow> all_served P w \<longrightarrow> all_served P w'"
  shows "issue_loop env cont pa pass fa fail regs w = Ret r w' \<Longrightarrow> all_served P w \<Longrightarrow> all_served P w'"
proof (induction regs arbitrary: w)
  case Nil
  have "all_served P (ActionHit fa w)" using Nil.prems(2) by (simp add: all_served_def)
  then show ?case using fail Nil.prems(1) by auto
next
  case (Cons reg regs)
  show ?case
  proof (cases "skipped reg w")
    case True
    then show ?thesis using Cons by simp
  next
    case False
    let ?e = "Expiration (d_time (w_data w)) (reg_duration reg)"
    show ?thesis
    proof (cases "IssueChallenge env reg (GetChallengeKeyForRequest env reg ?e w) ?e w")
      case (Panic e w1)
      then show ?thesis using False Cons.prems by (simp add: Let_def)
    next
      case (Ret x w1)
      let ?w2 = "record_result reg x w1"
      have "all_served P w1"
        using IssueChallenge_issued [OF Ret code] Cons.prems(2) by (simp add: issued_def all_served_def)
      then have s: "all_served P ?w2" "all_served P (ChallengeFailed reg ?w2)" "all_served P (ChallengePassed reg ?w2)"
          "all_served P (ActionHit fa (ChallengeFailed reg ?w2))" "all_served P (ActionHit pa (ChallengePassed reg ?w2))"
        by (simp_all add: all_served_def)
      have p: "pass (ActionHit pa (ChallengePassed reg ?w2)) = Ret r w' \<Longrightarrow> all_served P w'"
        "fail (ActionHit fa (ChallengeFailed reg ?w2)) = Ret r w' \<Longrightarrow> all_served P w'"
        using pass fail s by blast+
      show ?thesis
        using Cons.prems(1) False Ret s p Cons.IH [of ?w2] Cons.IH [of "ChallengeFailed reg ?w2"]
        by (cases x) (auto simp: Let_def split: if_splits)
    qed
  qed
qed

lemma Handle_kept:
  assumes "hands_over P fin" "200 \<le> e_response_code env"
  shows "Handle h env fin w = Ret r w' \<Longrightarrow> all_served P w \<Longrightarrow> all_served P w'"
proof (induction h arbitrary: w r w')
  case (HChallenge hash code cont regs pa pass fa fail)
  have p: "\<forall>w r w'. Handle pass env fin w = Ret r w' \<longrightarrow> all_served P w \<longrightarrow> all_served P w'"
    and f: "\<forall>w r w'. Handle fail env fin w = Ret r w' \<longrightarrow> all_served P w \<longrightarrow> all_served P w'"
    using HChallenge.IH by blast+
  show ?case
  proof (cases "check_loop env cont pa (Handle pass env fin) regs w")
    case None
    then have "issue_loop env cont pa (Handle pass env fin) fa (Handle fail env fin) regs w = Ret r w'"
      using HChallenge.prems(1) by (simp add: handle_challenge_def)
    then show ?thesis using issue_loop_kept [OF assms(2) p f] HChallenge.prems(2) by blast
  next
    case (Some out)
    then have "check_loop env cont pa (Handle pass env fin) regs w = Some (Ret r w')"
      using HChallenge.prems(1) by (simp add: handle_challenge_def)
    then show ?thesis using check_loop_kept [OF _ HChallenge.prems(2) p] by blast
  qed
next
  case (HDeny code hash)
  then show ?case by (auto simp: handle_deny_def obind_Ret_iff all_served_def dest!: page_served)
next
  case HPass
  then show ?case by (auto simp: handle_pass_def intro: serve_all_served [OF assms(1)] split: prod.splits)
next
  case (HProxy rewrite name)
  have f: "all_served P w'"
    if "(case fin w1 of (x, w2) \<Rightarrow> Ret (Inr False) (serve (BackendHandler b) w2)) = Ret r w'" "all_served P w1" for w1 b
  proof -
    obtain x w2 where "fin w1 = (x, w2)" by (cases "fin w1")
    then show ?thesis using that serve_all_served [OF assms(1)] by auto
  qed
  show ?case
  proof (cases "GetBackend env name")
    case None
    then show ?thesis using HProxy.prems by (simp add: handle_proxy_def)
  next
    case (Some b)
    then show ?thesis
    proof (cases rewrite)
      case None
      show ?thesis by (rule f [of b w]) (use HProxy.prems \<open>GetBackend env name = Some b\<close> None in \<open>simp_all add: handle_proxy_def Let_def\<close>)
    next
      case (Some g)
      show ?thesis
        by (rule f [of b "set_req (\<lambda>r. r\<lparr>r_url := (r_url r)\<lparr>u_path := g (u_path (r_url r))\<rparr>\<rparr>) w"])
          (use HProxy.prems \<open>GetBackend env name = Some b\<close> Some in \<open>simp_all add: handle_proxy_def Let_def\<close>)
    qed
  qed
qed (auto simp: handle_block_def handle_drop_def handle_code_def handle_context_def no_cache_def Let_def
    all_served_def is_served_def split: if_splits)

lemma rule_done_hands: "hands_over P fin \<Longrightarrow> hands_over P (rule_done name hash action fin)"
  unfolding hands_over_def rule_done_def by (intro allI impI, drule spec, erule mp, simp)

lemma run_handler_kept:
  assumes "hands_over P fin" "200 \<le> e_response_code env" "run_handler env fin rule w = Ret q w1" "all_served P w"
  shows "all_served P w1"
proof -
  have "all_served P (ActionHit (rs_action rule) (RuleHit (rs_name rule) w))" using assms(4) by simp
  then show ?thesis
    using Handle_kept [OF rule_done_hands [OF assms(1)] assms(2)] assms(3) unfolding run_handler_def by blast
qed

lemma runs_kept:
  assumes "hands_over P fin" "200 \<le> e_response_code env"
  shows "runs env fin rule w r w' \<Longrightarrow> all_served P w \<longrightarrow> all_served P w'"
    and "runs_all env fin hash children w r w' \<Longrightarrow> all_served P w \<longrightarrow> all_served P w'"
  by (induction rule: runs_runs_all.inducts) (use run_handler_kept [OF assms] in \<open>auto simp del: split_paired_All\<close>)

lemma cleanup_hands_over:
  assumes "GetBackend env host = Some b"
    and "\<forall>w. P (w_req (cleanup_request env f n a w))"
  shows "hands_over P (request_done env b host f n a)"
proof -
  have "snd (request_done env b host f n a w) = cleanup_request env f n a w" for w
    using request_done_backend [OF assms(1), of f n a w] by auto
  then show ?thesis using assms(2) by (simp add: hands_over_def all_served_def)
qed

lemma run_rules_kept:
  assumes "GetBackend env host = Some b" "200 \<le> e_response_code env"
    and "\<forall>f n a w. P (w_req (cleanup_request env f n a w))"
  shows "run_rules env b host rules w = Ret next w' \<Longrightarrow> all_served P w \<Longrightarrow> all_served P w'"
proof (induction rules arbitrary: w)
  case (Cons rule rules)
  let ?fin = "request_done env b host True (rs_name rule) (rs_action rule)"
  have h: "hands_over P ?fin" by (rule cleanup_hands_over [OF assms(1)]) (use assms(3) in blast)
  show ?case
  proof (cases "Evaluate env ?fin rule w")
    case (Panic e w1)
    then show ?thesis using Cons.prems(1) by simp
  next
    case (Ret q w1)
    have s: "all_served P w1" using runs_kept(1) [OF h assms(2) Evaluate_runs(1) [OF Ret]] Cons.prems(2) by blast
    consider e where "q = Inl e" | "q = Inr False" | "q = Inr True" by (cases q) auto
    then show ?thesis
      by cases (use Cons Ret s in \<open>auto simp: obind_Ret_iff\<close>)
  qed
qed simp

lemma handleRequest_kept:
  assumes "200 \<le> e_response_code env" "\<forall>f n a w. P (w_req (cleanup_request env f n a w))"
    and "handleRequest env rules w = Ret () w'" "all_served P w"
  shows "all_served P w'"
proof (cases "GetBackend env (r_host (w_req w))")
  case None
  then show ?thesis using assms(3,4) by (auto simp: handleRequest_def all_served_def is_served_def)
next
  case (Some b)
  let ?r = "run_rules env b (r_host (w_req w)) rules w"
  show ?thesis
  proof (cases ?r)
    case (Panic e w1)
    then show ?thesis using assms(3) Some by (simp add: handleRequest_def)
  next
    case (Ret n w1)
    have s: "all_served P w1" by (rule run_rules_kept [OF Some assms(1,2) Ret assms(4)])
    let ?d = "request_done env b (r_host (w_req w)) False ''DEFAULT'' ''PASS''"
    have h: "hands_over P ?d" by (rule cleanup_hands_over [OF Some]) (use assms(2) in blast)
    let ?w2 = "ActionHit ''PASS'' (RuleHit ''DEFAULT'' w1)"
    have "all_served P ?w2" using s by simp
    then have "handle_pass ?d ?w2 = Ret x w3 \<Longrightarrow> all_served P w3" for x w3
      using Handle_kept [OF h assms(1), of HPass] by simp
    then show ?thesis using assms(3) Some Ret s by (auto simp: handleRequest_def obind_Ret_iff split: if_splits)
  qed
qed

text \<open>What the clean-up leaves: no cookie of the program and no argument spelled as one of the program.\<close>

definition untraced :: "http_request \<Rightarrow> bool" where
  "untraced q \<longleftrightarrow> (\<forall>c \<in> set (readCookies (r_header q)). \<not> HasPrefix (c_name c) DefaultCookiePrefix) \<and>
     (\<forall>k. mget (fst (ParseRawQuery (u_rawquery (r_url q)))) k \<noteq> None \<longrightarrow> \<not> HasPrefix k QueryArgPrefix)"

lemma parse_encode_keys:
  assumes "raw_map v" "mget (fst (ParseRawQuery (EncodeRawQuery v))) k \<noteq> None"
  shows "mget v k \<noteq> None"
proof -
  let ?ps = "List.map_filter (decoded Some) (Split (CHR ''&'') (EncodeRawQuery v))"
  have "\<exists>x. (k, x) \<in> set ?ps"
    using assms(2) unfolding ParseRawQuery_pairs dom_add_pairs by auto
  then obtain seg x where d: "decoded Some seg = Some (k, x)" "seg \<in> set (Split (CHR ''&'') (EncodeRawQuery v))"
    by (auto simp: map_filter_def)
  have "seg \<noteq> []" using d(1) by (auto simp: decoded_def)
  then have "seg \<in> set (segments (\<lambda>s. s) v)" using d(2) Split_EncodeRawQuery [OF assms(1)] by (auto split: if_splits)
  then obtain k' y where s: "seg = k' @ ''='' @ y" "k' \<in> set (mkeys v)" by (auto simp: segments_def)
  then have r: "raw_key k'" using assms(1) by (auto simp: raw_map_def set_mkeys_iff)
  then have "k' = k" using d(1) s(1) by (auto simp: decoded_def raw_key_def split: if_splits)
  then show ?thesis using s(2) by (simp add: set_mkeys_iff)
qed

lemma raw_map_strip [simp]: "raw_map v \<Longrightarrow> raw_map (strip_args v)"
  by (auto simp: raw_map_def strip_args_def mget_or_def)

lemma cleanup_untraced: "untraced (w_req (cleanup_request env f n a w))"
proof -
  let ?q = "u_rawquery (r_url (w_req w))"
  have rh: "w_req (ResponseHeaders env x) = w_req x" for x
    using ResponseHeaders_writes [of x env] by (simp add: writes_def)
  have "\<exists>h. r_header (w_req (cleanup_request env f n a w)) = strip_cookies h"
    by (simp add: cleanup_request_def Let_def rh) blast
  then obtain h where h: "r_header (w_req (cleanup_request env f n a w)) = strip_cookies h" by blast
  have q: "u_rawquery (r_url (w_req (cleanup_request env f n a w))) = EncodeRawQuery (strip_args (fst (ParseRawQuery ?q)))"
    by (simp add: cleanup_request_def Let_def rh)
  have c: "\<forall>c \<in> set (readCookies (strip_cookies h)). \<not> HasPrefix (c_name c) DefaultCookiePrefix"
    by (auto simp: strip_cookies_read forwarded_def)
  have "\<not> HasPrefix k QueryArgPrefix"
    if "mget (fst (ParseRawQuery (EncodeRawQuery (strip_args (fst (ParseRawQuery ?q)))))) k \<noteq> None" for k
    using parse_encode_keys [OF raw_map_strip [OF raw_map_parse] that] by (auto simp: strip_args_def split: if_splits)
  then show ?thesis unfolding untraced_def h q using c by auto
qed

section \<open>The other routes serve nothing to a backend\<close>

definition keeps_served :: "world \<Rightarrow> (unit, world) outcome \<Rightarrow> bool" where
  "keeps_served w o1 \<longleftrightarrow> (\<forall>w'. o1 = Ret () w' \<longrightarrow> served_events w' = served_events w)"

lemma verify_func_kept:
  assumes "\<And>r e red x. keeps_served x (f env r e red x)"
  shows "keeps_served w (VerifyHandlerFunc env reg f w)"
proof -
  have k: "keeps_served w (f env r e red x)" if "served_events x = served_events w" for r e red x
    using assms [of x r e red] that by (simp add: keeps_served_def)
  show ?thesis
  proof (cases "GetVerifyInformation env (w_req w) reg")
    case (Inl e)
    then show ?thesis by (simp add: VerifyHandlerFunc_def k)
  next
    case (Inr info)
    obtain i redirect token where info: "info = (i, redirect, token)" by (cases info)
    show ?thesis
    proof (cases "Verify env reg")
      case None
      then show ?thesis using Inr info by (simp add: VerifyHandlerFunc_def Let_def keeps_served_def)
    next
      case (Some v)
      let ?w1 = "set_data (\<lambda>d. d\<lparr>d_id := i\<rparr>) w"
      obtain r err w2 where vr: "v (GetChallengeKeyForRequest env reg (Expiration (d_time (w_data ?w1)) (reg_duration reg)) ?w1)
          (bytes_of token) ?w1 = ((r, err), w2)" by (metis prod.exhaust_sel)
      have s: "served_events w2 = served_events w" using Verify_world [OF Some vr] by auto
      show ?thesis
        unfolding VerifyHandlerFunc_def Inr info sum.case prod.case Let_def Some option.case vr
        by (cases err; cases "result_Ok r") (simp_all add: k s)
    qed
  qed
qed

lemma response_kept:
  "keeps_served w (VerifyHandlerChallengeResponseFunc env r err redirect w)"
  "keeps_served w (resource_load_response env r err redirect w)"
proof -
  have e: "keeps_served w (ErrorPage env c e x w)" for c e x using page_served by (simp add: keeps_served_def)
  have "keeps_served w (Ret () (emit (Redirected u n) (ResponseHeaders env w)))" for u n
    by (simp add: keeps_served_def is_served_def)
  with e show "keeps_served w (VerifyHandlerChallengeResponseFunc env r err redirect w)"
    by (auto simp: VerifyHandlerChallengeResponseFunc_def split: option.splits)
  show "keeps_served w (resource_load_response env r err redirect w)"
    by (simp add: resource_load_response_def keeps_served_def css_headers_def is_served_def Let_def)
qed

lemma respond_served: "served_events (respond env c b w) = served_events w"
  using writes_same_request [OF respond_writes [OF writes_refl, of c b w env]] by (simp add: is_served_def)

lemma route_kept:
  assumes "route \<noteq> RouteRequest"
  shows "keeps_served w (serve_route env rules route w)"
proof (cases route)
  case (RoutePreload reg)
  then show ?thesis
    by (auto simp: serve_route_def preload_handler_def keeps_served_def Let_def css_headers_def is_served_def split: sum.split)
next
  case (RouteMake reg p)
  then show ?thesis
    using page_served by (fastforce simp: serve_route_def make_handler_def keeps_served_def Let_def respond_served split: sum.splits)
next
  case (RouteScript reg p)
  then show ?thesis
    by (auto simp: serve_route_def ServeChallengeScript_def keeps_served_def Let_def is_served_def split: sum.splits)
qed (use assms in \<open>auto simp: serve_route_def resource_load_handler_def keeps_served_def is_served_def
      intro: verify_func_kept [unfolded keeps_served_def, rule_format] response_kept [unfolded keeps_served_def, rule_format]\<close>)

section \<open>The gate of the site\<close>

text \<open>The runtimes that only show a page or redirect; the others can pass a challenge on the spot.\<close>

definition shows_page :: "registration \<Rightarrow> bool" where
  "shows_page reg = (case reg_runtime reg of
     RCookie \<Rightarrow> True | RRefresh _ \<Rightarrow> True | RResourceLoad \<Rightarrow> True | RWasm _ \<Rightarrow> True | _ \<Rightarrow> False)"

lemma page_never_OK:
  assumes "shows_page reg"
  shows "IssueChallenge env reg k expiry w \<noteq> Ret VerifyResultOK w'"
  using assms unfolding shows_page_def
  by (cases "reg_runtime reg")
    (auto simp: IssueChallenge_def issue_cookie_def issue_refresh_def issue_resource_load_def issue_js_def issue_page_def
      obind_Ret_iff Let_def split: sum.splits prod.splits)

lemma check_loop_valid: "check_loop env cont pa pass regs w = Some out \<Longrightarrow> passed_one regs w"
  by (induction regs) (auto simp: passed_one_def split: if_splits)

lemma issue_loop_closed:
  assumes fail: "\<forall>w r w'. fail w = Ret r w' \<longrightarrow> \<not> let_through w r w'" and code: "200 \<le> e_response_code env"
  shows "\<forall>reg \<in> set regs. shows_page reg \<Longrightarrow> issue_loop env cont pa pass fa fail regs w = Ret r w' \<Longrightarrow> \<not> let_through w r w'"
proof (induction regs arbitrary: w)
  case Nil
  then have "\<not> let_through (ActionHit fa w) r w'" using fail by simp
  then show ?case by (simp add: let_through_def)
next
  case (Cons reg regs)
  have rest: "\<not> let_through w r w'" if "issue_loop env cont pa pass fa fail regs w1 = Ret r w'" "served_events w1 = served_events w" for w1
    using Cons.IH [OF _ that(1)] Cons.prems(1) that(2) by (simp add: let_through_def)
  show ?case
  proof (cases "skipped reg w")
    case True
    then show ?thesis using Cons by simp
  next
    case False
    let ?e = "Expiration (d_time (w_data w)) (reg_duration reg)"
    show ?thesis
    proof (cases "IssueChallenge env reg (GetChallengeKeyForRequest env reg ?e w) ?e w")
      case (Panic e w1)
      then show ?thesis using False Cons.prems by (simp add: Let_def)
    next
      case (Ret x w1)
      let ?w2 = "record_result reg x w1"
      have s: "served_events w1 = served_events w" using IssueChallenge_issued [OF Ret code] by (simp add: issued_def)
      have x: "x \<noteq> VerifyResultOK" using Ret page_never_OK [of reg] Cons.prems(1) by auto
      have f: "\<not> let_through w r w'" if "fail (ActionHit fa (ChallengeFailed reg ?w2)) = Ret r w'"
      proof -
        have "\<not> let_through (ActionHit fa (ChallengeFailed reg ?w2)) r w'" using fail that by blast
        then show ?thesis by (simp add: let_through_def s)
      qed
      have n: "\<not> let_through w (Inr False) ?w2" by (simp add: let_through_def s)
      show ?thesis
        using Cons.prems(2) False Ret x f n rest [of ?w2] rest [of "ChallengeFailed reg ?w2"] s
        by (cases x) (auto simp: Let_def split: if_splits)
    qed
  qed
qed

lemma gate_needs_pass:
  assumes "Handle (HChallenge hash code cont regs pa pass fa fail) env fin w = Ret r w'"
    and "refusing fail" "200 \<le> e_response_code env" "\<forall>reg \<in> set regs. shows_page reg" "let_through w r w'"
  shows "passed_one regs w"
proof (cases "check_loop env cont pa (Handle pass env fin) regs w")
  case None
  have fail: "\<forall>w r w'. Handle fail env fin w = Ret r w' \<longrightarrow> \<not> let_through w r w'"
    using refusing_Handle [OF assms(2)] by blast
  have "issue_loop env cont pa (Handle pass env fin) fa (Handle fail env fin) regs w = Ret r w'"
    using assms(1) None by (simp add: handle_challenge_def)
  then show ?thesis using issue_loop_closed [OF fail assms(3,4)] assms(5) by blast
next
  case (Some out)
  then show ?thesis by (rule check_loop_valid)
qed

text \<open>A rule that can only refuse: it stops without a backend, or it does not match.\<close>

definition only_refuses :: "rule_state \<Rightarrow> bool" where
  "only_refuses rule \<longleftrightarrow> refusing (rs_handler rule)"

definition gate_rule :: "registration list \<Rightarrow> rule_state \<Rightarrow> bool" where
  "gate_rule regs rule \<longleftrightarrow> rs_condition rule = None \<and> (\<forall>reg \<in> set regs. shows_page reg) \<and>
     (\<exists>hash code cont pa pass fa fail. rs_handler rule = HChallenge hash code cont regs pa pass fa fail \<and> refusing fail)"

lemma hit_served [simp]:
  "served_events (RuleHit n w) = served_events w" "served_events (RuleMiss n w) = served_events w"
  "w_data (ActionHit a (RuleHit n w)) = w_data w" "w_data (RuleMiss n w) = w_data w"
  by (simp_all add: callback_defs served_events_def)

lemma refusing_rule:
  assumes "only_refuses rule" "Evaluate env fin rule w = Ret r w'"
  shows "served_events w' = served_events w \<and> (r = Inr True \<longrightarrow> w_data w' = w_data w)"
proof -
  have h: "q \<noteq> Inr True \<and> served_events w1 = served_events w" if "run_handler env fin rule w = Ret q w1" for q w1
    using refusing_Handle [OF assms(1) [unfolded only_refuses_def] that [unfolded run_handler_def]]
    by (simp add: let_through_def)
  from Evaluate_runs(1) [OF assms(2)] show ?thesis by cases (use h in \<open>fastforce+\<close>)
qed

lemma gate_stops:
  assumes "gate_rule regs rule" "200 \<le> e_response_code env" "\<not> passed_one regs w" "Evaluate env fin rule w = Ret r w'"
  shows "r \<noteq> Inr True \<and> served_events w' = served_events w"
proof -
  obtain hash code cont pa pass fa fail where g: "rs_condition rule = None" "\<forall>reg \<in> set regs. shows_page reg"
      "rs_handler rule = HChallenge hash code cont regs pa pass fa fail" "refusing fail"
    using assms(1) unfolding gate_rule_def by blast
  have c: "condition_value env (rs_condition rule) w = Inr (Some (CelBool True))" by (simp add: condition_value_def g(1))
  have h: "q \<noteq> Inr True \<and> served_events w1 = served_events w" if "run_handler env fin rule w = Ret q w1" for q w1
  proof -
    have "\<not> passed_one regs (ActionHit (rs_action rule) (RuleHit (rs_name rule) w))"
      using assms(3) by (simp add: passed_one_def)
    then show ?thesis
      using gate_needs_pass [OF that [unfolded run_handler_def g(3)] g(4) assms(2) g(2)] by (auto simp: let_through_def)
  qed
  from Evaluate_runs(1) [OF assms(4)] show ?thesis by cases (use h c in \<open>fastforce+\<close>)
qed

lemma run_rules_gate:
  assumes "200 \<le> e_response_code env" "gate_rule regs gate"
  shows "\<forall>rule \<in> set pre. only_refuses rule \<Longrightarrow> \<not> passed_one regs w \<Longrightarrow>
    run_rules env b host (pre @ gate # post) w = Ret next w' \<Longrightarrow> \<not> next \<and> served_events w' = served_events w"
proof (induction pre arbitrary: w)
  case Nil
  let ?e = "Evaluate env (request_done env b host True (rs_name gate) (rs_action gate)) gate w"
  show ?case
  proof (cases ?e)
    case (Panic e w1)
    then show ?thesis using Nil.prems(3) by simp
  next
    case (Ret q w1)
    note g = gate_stops [OF assms(2,1) Nil.prems(2) Ret]
    show ?thesis using g Nil.prems(3) Ret by (auto simp: obind_Ret_iff split: sum.splits bool.splits)
  qed
next
  case (Cons rule pre)
  let ?e = "Evaluate env (request_done env b host True (rs_name rule) (rs_action rule)) rule w"
  show ?case
  proof (cases ?e)
    case (Panic e w1)
    then show ?thesis using Cons.prems(3) by simp
  next
    case (Ret q w1)
    have g: "served_events w1 = served_events w" "q = Inr True \<Longrightarrow> w_data w1 = w_data w"
      using refusing_rule [OF _ Ret] Cons.prems(1) by auto
    show ?thesis
    proof (cases "q = Inr True")
      case True
      then have "\<not> passed_one regs w1" using g(2) Cons.prems(2) by (simp add: passed_one_def)
      then show ?thesis using Cons.IH [of w1] Cons.prems(1,3) Ret True g(1) by simp
    next
      case False
      then show ?thesis using g(1) Cons.prems(3) Ret by (auto simp: obind_Ret_iff split: sum.splits bool.splits)
    qed
  qed
qed

lemma handleRequest_gate:
  assumes "200 \<le> e_response_code env" "gate_rule regs gate" "\<forall>rule \<in> set pre. only_refuses rule" "\<not> passed_one regs w"
    and "handleRequest env (pre @ gate # post) w = Ret () w'"
  shows "served_events w' = served_events w"
proof (cases "GetBackend env (r_host (w_req w))")
  case None
  then show ?thesis using assms(5) by (auto simp: handleRequest_def is_served_def)
next
  case (Some b)
  show ?thesis
  proof (cases "run_rules env b (r_host (w_req w)) (pre @ gate # post) w")
    case (Panic e w1)
    then show ?thesis using assms(5) Some by (simp add: handleRequest_def)
  next
    case (Ret n w1)
    then show ?thesis
      using run_rules_gate [OF assms(1,2,3,4) Ret] assms(5) Some by (simp add: handleRequest_def)
  qed
qed

section \<open>The entry point\<close>

text \<open>Evaluating the challenges writes nothing.\<close>

lemma verifyChallenge_events: "verifyChallenge env reg k w = (res, w') \<Longrightarrow> w_events w' = w_events w"
proof -
  assume v: "verifyChallenge env reg k w = (res, w')"
  show ?thesis
  proof (cases "mget (d_map (w_data w)) (reg_name reg)")
    case None
    then show ?thesis using v by (auto simp: verifyChallenge_def)
  next
    case (Some token)
    obtain r s err w1 where t: "VerifyChallengeToken env reg token k w = ((r, s, err), w1)" by (metis prod.collapse)
    have "w_events w1 = w_events w" by (rule only_ticksD(5) [OF VerifyChallengeToken_frame [OF t]])
    then have "w_events w1 = w_events w" "w_events (ClearChallengeToken reg w1) = w_events w"
      by (simp_all add: ClearChallengeToken_def)
    then show ?thesis
      using v Some t unfolding verifyChallenge_def Let_def
      by (auto split: option.splits if_splits sum.splits cel_value.splits bool.splits)
  qed
qed

lemma evaluate_one_events: "w_events (evaluate_one env reg w) = w_events w"
proof -
  let ?k = "GetChallengeKeyForRequest env reg (Expiration (d_time (w_data w)) (reg_duration reg)) w"
  obtain r s err w1 where v: "verifyChallenge env reg ?k w = ((r, s, err), w1)" by (metis prod.collapse)
  then show ?thesis
    using verifyChallenge_events [OF v] by (simp add: evaluate_one_def Let_def ClearChallengeToken_def)
qed

lemma evaluate_all_events: "w_events (evaluate_all env rs w) = w_events w"
  by (induction env rs w rule: evaluate_all.induct) (simp_all add: evaluate_one_events)

lemma EvaluateChallenges_frame [simp]:
  "w_events (EvaluateChallenges env w) = w_events w" "w_req (EvaluateChallenges env w) = w_req w"
proof -
  have l: "w_events (load_state env w) = w_events w" "w_req (load_state env w) = w_req w"
    by (rule load_state_cases [of env w]; simp)+
  then show "w_events (EvaluateChallenges env w) = w_events w"
    by (simp add: EvaluateChallenges_def evaluate_all_events)
  have "w_req (evaluate_all env rs x) = w_req x" for rs x
    by (induction rs arbitrary: x) (auto intro: evaluate_one_effect [of env])
  then show "w_req (EvaluateChallenges env w) = w_req w" using l by (simp add: EvaluateChallenges_def)
qed

definition with_data :: "env \<Rightarrow> (string \<times> string) option \<Rightarrow> world \<Rightarrow> world" where
  "with_data env fp w =
     w\<lparr>w_data := fst (CreateRequestData env (w_ticks w) fp (w_req w)), w_ticks := w_ticks w + 2\<rparr>"

lemma ServeHTTP_with_data: "ServeHTTP env rules fp w = mux_serve env rules (EvaluateChallenges env (with_data env fp w))"
  by (simp add: ServeHTTP_def with_data_def CreateRequestData_def Let_def)

lemma with_data_fresh [simp]:
  "d_verify (w_data (with_data env fp w)) = []" "w_req (with_data env fp w) = w_req w" "w_events (with_data env fp w) = w_events w"
  by (simp_all add: with_data_def CreateRequestData_def Let_def)

lemma dispatch_kept:
  assumes "\<And>r. keeps_served w (f r w)"
  shows "keeps_served w (serve_dispatch f d w)"
  using assms by (auto simp: serve_dispatch_def keeps_served_def is_served_def split: dispatch.splits)

lemma reg_routes_no_request: "p \<in> set (reg_routes reg) \<Longrightarrow> mp_route p \<noteq> RouteRequest"
  by (auto simp: reg_routes_def split: runtime.splits)

lemma mux_match_in: "mux_match m path ps = Some p \<Longrightarrow> p \<in> set ps"
proof -
  have "fold (\<lambda>p best. case best of None \<Rightarrow> Some p | Some q \<Rightarrow> if more_specific p q then Some p else Some q) qs b = Some p \<Longrightarrow>
      b = Some p \<or> p \<in> set qs" for qs b
    by (induction qs arbitrary: b) (auto split: option.splits if_splits)
  then show "mux_match m path ps = Some p \<Longrightarrow> p \<in> set ps" unfolding mux_match_def by fastforce
qed

lemma mux_dispatch_in: "mux_dispatch ps r = Found route \<Longrightarrow> \<exists>p \<in> set ps. mp_route p = route"
  using mux_match_in by (fastforce simp: mux_dispatch_def Let_def split: if_splits option.splits)

lemma inner_mux_kept: "keeps_served w (serve_dispatch (serve_route env rules) (mux_dispatch (reg_routes reg) r) w)"
proof (cases "mux_dispatch (reg_routes reg) r")
  case (Found route)
  then have "route \<noteq> RouteRequest" using mux_dispatch_in reg_routes_no_request by blast
  then show ?thesis using route_kept Found by (simp add: serve_dispatch_def)
qed (simp_all add: serve_dispatch_def keeps_served_def is_served_def)

lemma mux_serve_cases:
  assumes "mux_serve env rules w = Ret () w'"
  shows "served_events w' = served_events w \<or>
    mux_dispatch (setupRoutes env) (w_req w) = Found RouteRequest \<and> handleRequest env rules w = Ret () w'"
proof (cases "mux_dispatch (setupRoutes env) (w_req w)")
  case (Found route)
  show ?thesis
  proof (cases "route = RouteRequest")
    case True
    then show ?thesis using assms Found by (simp add: mux_serve_def serve_dispatch_def serve_route_def)
  next
    case False
    have "keeps_served w (mux_serve env rules w)"
      using False Found inner_mux_kept route_kept by (auto simp: mux_serve_def serve_dispatch_def split: route.split)
    then show ?thesis using assms by (simp add: keeps_served_def)
  qed
qed (use assms in \<open>auto simp: mux_serve_def serve_dispatch_def is_served_def\<close>)

section \<open>A site for the witnesses\<close>

definition site_name :: string where
  "site_name = cookie_name sample_env ''h'' (GetRequestAddress (\<lambda>_. None) ''192.0.2.7:80'' [] [])"

definition site_request :: http_request where
  "site_request = sample_request\<lparr>r_header := [(''Cookie'', [site_name @ ''=sealed''])]\<rparr>"

definition site_world :: world where
  "site_world = sample_world\<lparr>w_req := site_request\<rparr>"

definition site_key :: key where
  "site_key = GetChallengeKeyForRequest sample_env sample_reg (Expiration sample_epoch hour) (with_data sample_env None site_world)"

definition site_token :: token_challenge where
  "site_token = \<lparr>tc_key = site_key, tc_result = [], tc_ok = True, tc_expiry = Unix (Expiration sample_epoch hour),
     tc_not_before = 0, tc_issued_at = 0\<rparr>"

definition site_env :: env where
  "site_env = sample_env\<lparr>e_open := (\<lambda>_ _ _. Inr (sample_token\<lparr>t_state := [(''c'', site_token)]\<rparr>))\<rparr>"

definition site_gate :: rule_state where
  "site_gate = RuleState ''gate'' sample_hash None ''CHALLENGE'' sample_gate []"

lemma site_env_simps [simp]:
  "e_now site_env t = sample_epoch" "e_sha256 site_env b = replicate 32 7" "e_challenges site_env = [(1, sample_reg)]"
  "e_open site_env k q c = Inr (sample_token\<lparr>t_state := [(''c'', site_token)]\<rparr>)" "e_client_ip_header site_env = []"
  "e_parse_ip6 site_env = (\<lambda>_. None)" "e_response_code site_env = 418" "e_fingerprint site_env = replicate 32 7"
  by (simp_all add: site_env_def sample_env_def)

lemma site_data:
  "d_time (w_data (with_data site_env None site_world)) = sample_epoch"
  "d_cookie_name (w_data (with_data site_env None site_world)) = site_name"
  "with_data site_env None site_world = with_data sample_env None site_world"
  "GetChallengeKeyForRequest site_env sample_reg (Expiration sample_epoch hour) (with_data sample_env None site_world) = site_key"
  by (simp_all add: with_data_def CreateRequestData_def Let_def site_world_def site_request_def sample_request_def
      sample_world_def site_env_def sample_env_def site_name_def cookie_name_def cookieHostKey_def GetRequestAddress_def
      site_key_def GetChallengeKeyForRequest_def key_material_def)

lemma site_cookie:
  "\<exists>c. Cookie (r_header (w_req (with_data site_env None site_world))) site_name = Inr c"
proof -
  have "hex_digit 7 = 0x37" "hex_digit 0 = 0x30" by (simp_all add: hex_digit_def hextable_def bytes_of_def byte_of_def)
  then have "hex_encode [7, 7, 7, 7, 7, 7] = ''070707070707''"
    by (simp add: hex_encode_def string_of_def char_of_byte_def) code_simp
  then have n: "site_name = DefaultCookiePrefix @ ''070707070707-state''"
    by (simp add: site_name_def cookie_name_def cookieHostKey_def numeral_eq_Suc)
  define c where "c = \<lparr>c_name = site_name, c_value = ''sealed'', c_quoted = False\<rparr>"
  have g: "good_cookie c"
    by (simp add: c_def n good_cookie_def DefaultCookiePrefix_def isToken_def valid_key_def valid_tchar
        tchar_code_def validCookieValueByte_def)
  have "cookie_text [c] = site_name @ ''=sealed''"
    using cookie_pair_good [OF g] by (simp add: cookie_text_def c_def pair_value_def)
  then have "read_line (site_name @ ''=sealed'') = [forwarded c]" using read_line_text [of "[c]"] g by simp
  moreover have "site_name \<noteq> []" by (simp add: n)
  ultimately show ?thesis
    by (simp add: Cookie_def CookiesNamed_def readCookies_def mget_or_def mget_Cons forwarded_def
        site_world_def site_request_def c_def)
qed

lemma site_passed: "mget (d_verify (w_data (EvaluateChallenges site_env (with_data site_env None site_world)))) 1 = Some VerifyResultOK"
proof -
  let ?w = "with_data site_env None site_world"
  obtain c where c: "Cookie (r_header (w_req ?w)) (d_cookie_name (w_data ?w)) = Inr c"
    using site_cookie by (auto simp: site_data(2))
  then obtain y ys where n: "CookiesNamed (r_header (w_req ?w)) (d_cookie_name (w_data ?w)) = y # ys"
    unfolding Cookie_def by (cases "CookiesNamed (r_header (w_req ?w)) (d_cookie_name (w_data ?w))") auto
  have t: "sample_epoch \<le> from_unix (t_expiry sample_token)" "from_unix (t_not_before sample_token) \<le> sample_epoch"
    by (simp_all add: sample_token_def sample_epoch_def from_unix_def Unix_def Expiration_def Round_def
        DefaultDuration_def hour_def second_def unix_to_internal_def Let_def)
  have "fst (verifyChallengeState site_env ?w) = Inr [(''c'', site_token)]"
    unfolding verifyChallengeState_def n using t c by (simp add: verifyChallengeStateCookie_def now_def)
  then show ?thesis
  proof (rule EvaluateChallenges_complete [where n = 1 and reg = sample_reg and token = site_token, rotated 2])
    show "e_now site_env (w_ticks (EvaluateChallenges site_env ?w)) \<le> from_unix (tc_expiry site_token)"
      by (simp add: site_token_def sample_epoch_def from_unix_def Unix_def Expiration_def Round_def hour_def second_def
          unix_to_internal_def Let_def)
    show "settled site_env sample_reg (tc_key site_token) (tc_result site_token)" by (simp add: settled_def Verify.simps)
    show "tc_key site_token = GetChallengeKeyForRequest site_env sample_reg
        (Expiration (d_time (w_data ?w)) (reg_duration sample_reg)) ?w"
      using site_data(4) by (simp add: site_data(1) site_token_def) (simp add: site_data(3))
  qed (simp_all add: clock_ok_def mono_def mget_Cons site_token_def sample_epoch_def)
qed

lemma site_dispatch: "mux_dispatch (setupRoutes site_env) (w_req site_world) = Found RouteRequest"
proof -
  have p: "setupRoutes site_env =
     [\<lparr>mp_get = False, mp_path = ''/'', mp_route = RouteRequest\<rparr>,
      \<lparr>mp_get = True, mp_path = ''/away/assets/'', mp_route = RouteAssets\<rparr>]"
    by (simp add: setupRoutes_def reg_routes_def Verify.simps) (simp add: site_env_def sample_env_def)
  have "escaped_path (r_url (w_req site_world)) = ''/''" "u_rawquery (r_url (w_req site_world)) = []"
    "r_method (w_req site_world) = ''GET''"
    by (simp_all add: site_world_def site_request_def sample_request_def empty_url_def escaped_path_def validEncoded_def escape_mode_def)
  then show ?thesis
    by (simp add: p mux_dispatch_def Let_def cleanPath_def path_clean_def clean_segment_def ends_in_slash_def mux_match_def pattern_matches_def
        path_segments_def exact_match_def)
qed

lemma site_served:
  "\<exists>w' b q. ServeHTTP site_env [site_gate] None site_world = Ret () w' \<and> w_events w' = [Served b q]"
proof -
  define w1 where "w1 = EvaluateChallenges site_env (with_data site_env None site_world)"
  have r: "w_req w1 = site_request" "w_events w1 = []" "HasValidChallenge (w_data w1) 1"
    using site_passed by (simp_all add: w1_def HasValidChallenge_def mget_or_def site_world_def sample_world_def)
  have q: "mkeys (url_query []) = []" by (simp add: url_query_def parse_query_loop.simps mkeys_def)
  have b: "GetBackend site_env ''h'' = Some ''backend''"
    by (simp add: GetBackend_def SelectHTTPHandler_def site_env_def sample_env_def mget_Cons)
  define fin where "fin = rule_done ''gate'' sample_hash ''CHALLENGE'' (request_done site_env ''backend'' ''h'' True ''gate'' ''CHALLENGE'')"
  define w2 where "w2 = ActionHit ''PASS'' (ChallengeChecked sample_reg (ActionHit ''CHALLENGE'' (RuleHit ''gate'' w1)))"
  have w2: "w_req w2 = site_request" "w_events w2 = []" by (simp_all add: w2_def callback_defs r)
  obtain b' w3 where f: "fin w2 = (BackendHandler b', w3)" "w_events w3 = []"
  proof -
    let ?x = "set_req (\<lambda>r. r\<lparr>r_header := header_set (header_set (header_set (r_header r) ''X-Away-Rule'' ''gate'')
       ''X-Away-Hash'' sample_hash) ''X-Away-Action'' ''CHALLENGE''\<rparr>) w2"
    have "w_events (cleanup_request site_env True ''gate'' ''CHALLENGE'' ?x) = w_events ?x"
      using ResponseHeaders_writes by (simp add: cleanup_request_def Let_def writes_def)
    then show ?thesis
      using that request_done_backend [OF b, of True "''gate''" "''CHALLENGE''" ?x] w2 by (auto simp: fin_def rule_done_def)
  qed
  have h: "run_handler site_env (request_done site_env ''backend'' ''h'' True ''gate'' ''CHALLENGE'') site_gate w1 =
      Ret (Inr False) (serve (BackendHandler b') w3)"
    using r q f(1) by (simp add: run_handler_def site_gate_def sample_gate_def handle_challenge_def HasValidChallenge_def valid_branch_def
        has_go_away_params_def Let_def handle_pass_def site_request_def sample_request_def empty_url_def
        fin_def [symmetric] w2_def callback_defs)
  have "Evaluate site_env (request_done site_env ''backend'' ''h'' True ''gate'' ''CHALLENGE'') site_gate w1 =
      Ret (Inr False) (serve (BackendHandler b') w3)"
    unfolding Evaluate_eq h by (simp add: condition_value_def site_gate_def)
  moreover have "rs_name site_gate = ''gate''" "rs_action site_gate = ''CHALLENGE''" by (simp_all add: site_gate_def)
  ultimately have "handleRequest site_env [site_gate] w1 = Ret () (serve (BackendHandler b') w3)"
    using b r(1) by (simp add: handleRequest_def site_request_def sample_request_def Let_def)
  then have "ServeHTTP site_env [site_gate] None site_world = Ret () (serve (BackendHandler b') w3)"
    using site_dispatch r(1) by (simp add: ServeHTTP_with_data w1_def mux_serve_def serve_dispatch_def serve_route_def)
  then show ?thesis using f(2) by (simp add: serve_def)
qed

lemma site_gate_rule: "gate_rule [sample_reg] site_gate"
  by (auto simp: gate_rule_def site_gate_def sample_gate_def shows_page_def refusing_def)

section \<open>Properties\<close>

text \<open>A request that reaches a backend through a gate has a token for one of the challenges of the gate.\<close>

lemma gate_token:
  assumes "ServeHTTP env (pre @ gate # post) fp w = Ret () w'" "served w' \<noteq> served w"
    and "gate_rule regs gate" "\<forall>rule \<in> set pre. only_refuses rule" "200 \<le> e_response_code env"
    and w0: "w0 = with_data env fp w"
  obtains reg reg' m token s where "reg \<in> snd ` set (e_challenges env)" "reg' \<in> set regs" "reg_id reg = reg_id reg'"
    "sealed_state env w0 m" "mget m (reg_name reg) = Some token"
    "token_backed env reg token
      (GetChallengeKeyForRequest env reg (Expiration (d_time (w_data w0)) (reg_duration reg)) w0) (w_ticks w0) s"
proof -
  define w1 where "w1 = EvaluateChallenges env w0"
  have run: "mux_serve env (pre @ gate # post) w1 = Ret () w'"
    using assms(1) by (simp add: ServeHTTP_with_data w1_def w0)
  have "served_events w1 = served_events w" by (simp add: w1_def w0 served_events_def)
  then have "served_events w' \<noteq> served_events w1" using assms(2) by (auto simp: served_def)
  then have "passed_one regs w1"
    using mux_serve_cases [OF run] handleRequest_gate [OF assms(5,3,4)] by blast
  then obtain r where r: "r \<in> set regs" "mget (d_verify (w_data w1)) (reg_id r) = Some VerifyResultOK"
    by (auto simp: passed_one_def HasValidChallenge_def mget_or_def split: option.splits)
  have "d_verify (w_data w0) = []" by (simp add: w0)
  from EvaluateChallenges_sound [OF this r(2) [unfolded w1_def]] show ?thesis using that r(1) by metis
qed

text \<open>
  the site behind a gate. The rules of the site are a gate, a rule without a condition whose action is
  a challenge or a check with challenges that are solved on a page and with a refusing fail action,
  after any rules that can only refuse, and before any other rules. When the server hands a request to
  a backend, one of the challenges of the gate has a token that the server sealed into a cookie for
  this host and network, that has not expired, that was issued under the key of this request, and that
  is marked as passed or was verified again.
\<close>

theorem backend_needs_token:
  assumes "ServeHTTP env (pre @ gate # post) fp w = Ret () w'" "served w' \<noteq> served w"
    and "gate_rule regs gate" "\<forall>rule \<in> set pre. only_refuses rule" "200 \<le> e_response_code env"
  defines "w0 \<equiv> with_data env fp w"
  shows "\<exists>reg m token s. reg \<in> snd ` set (e_challenges env) \<and> reg_id reg \<in> reg_id ` set regs \<and> sealed_state env w0 m \<and>
    mget m (reg_name reg) = Some token \<and>
    token_backed env reg token
      (GetChallengeKeyForRequest env reg (Expiration (d_time (w_data w0)) (reg_duration reg)) w0) (w_ticks w0) s"
proof -
  obtain reg reg' m token s where t: "reg \<in> snd ` set (e_challenges env)" "reg' \<in> set regs" "reg_id reg = reg_id reg'"
    "sealed_state env w0 m" "mget m (reg_name reg) = Some token"
    "token_backed env reg token
      (GetChallengeKeyForRequest env reg (Expiration (d_time (w_data w0)) (reg_duration reg)) w0) (w_ticks w0) s"
    by (rule gate_token [OF assms(1-5) w0_def [THEN meta_eq_to_obj_eq]])
  from t(2,3) have "reg_id reg \<in> reg_id ` set regs" by (rule image_eqI [rotated])
  with t(1,4-6) show ?thesis by blast
qed

theorem backend_needs_token_witness:
  "\<exists>m (token :: token_challenge). sealed_state site_env (with_data site_env None site_world) m \<and>
     mget m ''c'' = Some token"
proof -
  obtain w' b q where w': "ServeHTTP site_env ([] @ site_gate # []) None site_world = Ret () w'" "w_events w' = [Served b q]"
    using site_served by auto
  have "served w' \<noteq> served site_world"
    by (simp add: served_def served_events_def w'(2) is_served_def site_world_def sample_world_def)
  from backend_needs_token [OF w'(1) this site_gate_rule] show ?thesis by auto
qed

text \<open>
  C5: no trace of the program reaches a backend through the request. Every request that the server hands
  to a backend carries no cookie with the prefix of the program and no argument of the query that is
  spelled with the prefix of the arguments of the program.
\<close>

theorem backend_sees_no_trace:
  assumes "ServeHTTP env rules fp w = Ret () w'" "served w = 0" "200 \<le> e_response_code env"
    and "Served b q \<in> set (w_events w')"
  shows "(\<forall>c \<in> set (readCookies (r_header q)). \<not> HasPrefix (c_name c) DefaultCookiePrefix) \<and>
    (\<forall>k. mget (fst (ParseRawQuery (u_rawquery (r_url q)))) k \<noteq> None \<longrightarrow> \<not> HasPrefix k QueryArgPrefix)"
proof -
  define w1 where "w1 = EvaluateChallenges env (with_data env fp w)"
  have run: "mux_serve env rules w1 = Ret () w'" using assms(1) by (simp add: ServeHTTP_with_data w1_def)
  have "served_events w1 = []" using assms(2) by (simp add: w1_def served_def served_events_def)
  then have s: "all_served untraced w1" by (simp add: all_served_def)
  from mux_serve_cases [OF run] have "all_served untraced w'"
    using s all_served_same handleRequest_kept [OF assms(3), of untraced] cleanup_untraced by blast
  moreover have "Served b q \<in> set (served_events w')" using assms(4) by (simp add: served_events_def is_served_def)
  ultimately show ?thesis by (auto simp: all_served_def untraced_def)
qed

theorem backend_sees_no_trace_witness:
  "\<exists>w' b q. ServeHTTP site_env [site_gate] None site_world = Ret () w' \<and> w_events w' = [Served b q] \<and>
     filter (\<lambda>c. HasPrefix (c_name c) DefaultCookiePrefix) (readCookies (r_header q)) = []"
proof -
  obtain w' b q where w': "ServeHTTP site_env [site_gate] None site_world = Ret () w'" "w_events w' = [Served b q]"
    using site_served by auto
  have "served site_world = 0" "200 \<le> e_response_code site_env" "Served b q \<in> set (w_events w')"
    by (simp_all add: served_def served_events_def site_world_def sample_world_def w'(2))
  from backend_sees_no_trace [OF w'(1) this] have
    "filter (\<lambda>c. HasPrefix (c_name c) DefaultCookiePrefix) (readCookies (r_header q)) = []"
    by (simp add: filter_empty_conv)
  with w' show ?thesis by blast
qed

text \<open>
  every request that the multiplexer leads to the rules is answered exactly once, whatever the rules
  are: by a page, by a redirect, by a backend or with an error.
\<close>

theorem request_answered_once:
  assumes "ServeHTTP env rules fp w = Ret () w'" "mux_dispatch (setupRoutes env) (w_req w) = Found RouteRequest"
    and "\<forall>rule \<in> set rules. wf_rule rule" "200 \<le> e_response_code env"
  shows "answers w' = answers w + 1"
proof -
  define w1 where "w1 = EvaluateChallenges env (with_data env fp w)"
  have "handleRequest env rules w1 = Ret () w'"
    using assms(1,2) by (simp add: ServeHTTP_with_data w1_def mux_serve_def serve_dispatch_def serve_route_def)
  moreover have "answers w1 = answers w" by (simp add: w1_def answers_def)
  ultimately show ?thesis using handleRequest_answers [OF assms(3,4)] by simp
qed

theorem request_answered_once_witness:
  "\<exists>w'. ServeHTTP site_env [site_gate] None site_world = Ret () w' \<and> answers w' = 1"
proof -
  obtain w' b q where w': "ServeHTTP site_env [site_gate] None site_world = Ret () w'" using site_served by auto
  have "\<forall>rule \<in> set [site_gate]. wf_rule rule"
    by (simp add: site_gate_def sample_gate_def wf_registration_def sample_reg_def blocking_runtime_def DefaultKeyHeaders_def)
  then have "answers w' = answers site_world + 1"
    by (intro request_answered_once [OF w' site_dispatch]) simp_all
  then show ?thesis using w' by (simp add: answers_def site_world_def sample_world_def)
qed

end
