(* ===== verification/Site.thy ===== *)
theory Site
  imports Startup Server_Laws
begin

text \<open>
  From the policy to the site: the states that \<open>NewState\<close> makes satisfy what the laws of the server ask
  for. Well-formed settings give well-formed rules, and a rule of the policy that is a gate becomes a gate
  of the state.
\<close>

section \<open>The register of a state\<close>

text \<open>A property that every created registration has, all registrations of the register have.\<close>

lemma create_challenges_all:
  assumes "create_challenges runtimes compile replace join urlPath cs n r = (Inr r', n')"
    and "register_inv n r" "0 \<le> n" "\<And>k fill. runtimes k = Some fill \<Longrightarrow> fills fill"
    and "\<And>name pol m q reg i m' q'. (name, pol) \<in> set cs \<Longrightarrow> register_inv m q \<Longrightarrow> 0 \<le> m \<Longrightarrow>
      Create runtimes compile (Some replace) join urlPath name pol m q = (Inr (reg, i), m', q') \<Longrightarrow> P reg"
    and "\<And>i reg. mget r i = Some reg \<Longrightarrow> P reg" "mget r' i = Some reg"
  shows "P reg"
  using assms(1-3,5-7)
proof (induction cs arbitrary: n r)
  case Nil
  then show ?case by simp
next
  case (Cons c cs)
  obtain name pol where c: "c = (name, pol)" by (cases c)
  with Cons.prems(1) obtain reg1 i1 n1 r1 where cr: "Create runtimes compile (Some replace) join urlPath name pol n r = (Inr (reg1, i1), n1, r1)"
      and rest: "create_challenges runtimes compile replace join urlPath cs n1 r1 = (Inr r', n')"
    by (auto split: prod.splits sum.splits)
  have "register_inv n1 r1 \<and> 0 \<le> n1" by (rule Create_inv [OF Cons.prems(2,3) cr]) (rule assms(4))
  then have inv: "register_inv n1 r1" "0 \<le> n1" by simp_all
  have r1: "r1 = mset_key i1 reg1 r" using Create_ok [OF cr] assms(4) by blast
  have new: "P reg1" by (rule Cons.prems(4) [OF _ Cons.prems(2,3) cr]) (simp add: c)
  show ?case
  proof (rule Cons.IH [OF rest inv _ _ Cons.prems(6)])
    show "P reg2" if "mget r1 j = Some reg2" for j reg2
      using that new Cons.prems(5) by (auto simp: r1 split: if_splits)
    show "P reg2" if "(name, pol) \<in> set cs" "register_inv m q" "0 \<le> m"
      "Create runtimes compile (Some replace) join urlPath name pol m q = (Inr (reg2, i), m', q')" for name pol m q reg2 i m' q'
      by (rule Cons.prems(4) [OF _ that(2-4)]) (simp add: that(1))
  qed
qed

text \<open>The runtimes whose challenge is solved on a page.\<close>

definition page_runtime :: "string \<Rightarrow> bool" where
  "page_runtime k \<longleftrightarrow> k \<in> {''cookie'', ''refresh'', ''resource-load'', ''js''}"

lemma page_fill:
  assumes "Runtimes assets k = Some fill" "page_runtime k" "fill p reg = Inr reg'"
  shows "shows_page reg'"
  using assms
  by (auto simp: page_runtime_def Runtimes_def shows_page_def fill_cookie_def fill_refresh_def fill_resource_load_def fill_js_def
      Let_def split: if_splits sum.splits option.splits)

lemma Create_page:
  assumes "Create (Runtimes assets) compile replacer jp up name pol n r = (Inr (reg, i), n', r')" "page_runtime (pc_runtime pol)"
  shows "shows_page reg"
proof -
  obtain fill where fill: "Runtimes assets (pc_runtime pol) = Some fill"
    using assms(1) by (cases "Runtimes assets (pc_runtime pol)") (simp_all add: Create_def)
  have "\<exists>reg0. fill (pc_parameters pol) reg0 = Inr reg"
    using assms(1) fill by (auto simp: Create_def Let_def split: if_splits sum.splits prod.splits)
  with page_fill [OF fill assms(2)] show ?thesis by blast
qed

section \<open>The rules of a state\<close>

text \<open>Settings without a status that is not a final one; a code of zero is none.\<close>

fun node_ok :: "settings_node \<Rightarrow> bool" where
  "node_ok (SettingsNode code ctx proxy ch pass fail) \<longleftrightarrow>
     (case code of Inl e \<Rightarrow> True | Inr c \<Rightarrow> c = 0 \<or> 200 \<le> c) \<and> pred_option node_ok pass \<and> pred_option node_ok fail"

lemma node_ok_sub: "node_ok node \<Longrightarrow> pred_option node_ok (sn_pass node) \<and> pred_option node_ok (sn_fail node)"
  by (cases node) simp

fun rule_ok :: "policy_rule \<Rightarrow> bool" where
  "rule_ok (PolicyRule name cs action settings kids) \<longleftrightarrow> pred_option node_ok settings \<and> list_all rule_ok kids"

lemma lookup_challenges_in:
  assumes "lookup_challenges env names = Inr regs" "wf_map (e_challenges env)" "reg \<in> set regs"
  shows "reg_name reg \<in> set names \<and> (\<exists>i. mget (e_challenges env) i = Some reg)"
  using assms(1,3)
proof (induction names arbitrary: regs)
  case Nil
  then show ?case by simp
next
  case (Cons name names)
  then obtain reg1 i regs1 where g: "GetByName (e_challenges env) name = Some (reg1, i)"
      and l: "lookup_challenges env names = Inr regs1" "regs = reg1 # regs1"
    by (auto split: option.splits sum.splits)
  from GetByName_Some [OF assms(2) g] Cons.IH [OF l(1)] Cons.prems(2) l(2) show ?case by auto
qed

text \<open>What a challenge or a check is made of.\<close>

lemma new_handler_challenge:
  assumes "new_handler env compile name hash action settings = Some (Inr h)" "action = ''CHALLENGE'' \<or> action = ''CHECK''"
  obtains node params regs pass fail where "settings = Some node" "sn_challenge node = Inr params"
    "lookup_challenges env (chs_challenges params) = Inr regs" "regs \<noteq> []"
    "new_handler env compile name hash (upper_string (chs_pass params)) (sn_pass node) = Some (Inr pass)"
    "new_handler env compile name hash (upper_string (chs_fail params)) (sn_fail node) = Some (Inr fail)"
    "h = HChallenge hash (if chs_code params = 0 then e_response_code env else chs_code params) (action = ''CHECK'') regs
       (upper_string (chs_pass params)) pass (upper_string (chs_fail params)) fail"
proof (cases settings)
  case None
  with assms show ?thesis by (subst (asm) new_handler.simps) auto
next
  case (Some node)
  have e: "new_handler env compile name hash action (Some node) = Some (Inr h)" using assms(1) Some by simp
  obtain params where p: "sn_challenge node = Inr params"
    using e assms(2) by (subst (asm) new_handler.simps) (auto split: sum.splits)
  obtain regs where r: "lookup_challenges env (chs_challenges params) = Inr regs" "regs \<noteq> []"
    using e assms(2) p by (subst (asm) new_handler.simps) (auto split: sum.splits list.splits)
  obtain reg regs' where rr: "regs = reg # regs'" using r(2) by (cases regs) auto
  obtain pass where pa: "new_handler env compile name hash (upper_string (chs_pass params)) (sn_pass node) = Some (Inr pass)"
    using e assms(2) p r rr by (subst (asm) new_handler.simps) (auto split: sum.splits option.splits)
  obtain fail where fa: "new_handler env compile name hash (upper_string (chs_fail params)) (sn_fail node) = Some (Inr fail)"
    using e assms(2) p r rr pa by (subst (asm) new_handler.simps) (auto split: sum.splits option.splits)
  have "h = HChallenge hash (if chs_code params = 0 then e_response_code env else chs_code params) (action = ''CHECK'') regs
       (upper_string (chs_pass params)) pass (upper_string (chs_fail params)) fail"
    using e assms(2) p r rr pa fa by (subst (asm) new_handler.simps) auto
  then show ?thesis using that Some p r pa fa by blast
qed

lemma new_handler_plain:
  assumes "new_handler env compile name hash action settings = Some (Inr h)" "action \<noteq> ''CHALLENGE''" "action \<noteq> ''CHECK''"
    and "pred_option node_ok settings"
  shows "wf_handler h"
proof -
  have code: "wf_handler h" if "new_code settings = Inr h"
    using that assms(4) by (cases settings; cases "sn_code (the settings)"; cases "the settings") (auto simp: new_code_def split: if_splits)
  have ctx: "wf_handler h" if "new_context settings = Inr h" using that by (auto simp: new_context_def split: sum.splits)
  have proxy: "wf_handler h" if "new_proxy compile settings = Inr h"
    using that by (auto simp: new_proxy_def split: sum.splits if_splits)
  have "h \<in> {HBlock 403 hash, HDeny 403 hash, HDrop, HNone, HPass} \<or> new_code settings = Inr h \<or>
      new_context settings = Inr h \<or> new_proxy compile settings = Inr h"
    using assms(1) by (subst (asm) new_handler.simps) (simp only: assms(2,3) split: if_splits, simp_all)
  with code ctx proxy show ?thesis by auto
qed

lemma new_handler_wf:
  assumes "new_handler env compile ruleName hash action settings = Some (Inr h)"
    and "wf_map (e_challenges env)" "\<And>i reg. mget (e_challenges env) i = Some reg \<Longrightarrow> wf_registration reg"
    and "pred_option node_ok settings"
  shows "wf_handler h"
  using assms(1,4)
proof (induction "settings_size settings" arbitrary: action settings h rule: less_induct)
  case less
  show ?case
  proof (cases "action = ''CHALLENGE'' \<or> action = ''CHECK''")
    case False
    then show ?thesis using new_handler_plain [OF less.prems(1) _ _ less.prems(2)] by blast
  next
    case True
    obtain node params regs pass fail where
      q: "settings = Some node" "sn_challenge node = Inr params" "lookup_challenges env (chs_challenges params) = Inr regs" "regs \<noteq> []"
      "new_handler env compile ruleName hash (upper_string (chs_pass params)) (sn_pass node) = Some (Inr pass)"
      "new_handler env compile ruleName hash (upper_string (chs_fail params)) (sn_fail node) = Some (Inr fail)"
      and h: "h = HChallenge hash (if chs_code params = 0 then e_response_code env else chs_code params) (action = ''CHECK'') regs
       (upper_string (chs_pass params)) pass (upper_string (chs_fail params)) fail"
      by (rule new_handler_challenge [OF less.prems(1) True])
    note p = q(1,3,5,6)
    have ok: "pred_option node_ok (sn_pass node)" "pred_option node_ok (sn_fail node)"
      using node_ok_sub [of node] less.prems(2) unfolding p(1) by simp_all
    have "wf_handler pass" by (rule less.hyps [OF _ p(3) ok(1)]) (simp add: p(1) settings_size_sub)
    moreover have "wf_handler fail" by (rule less.hyps [OF _ p(4) ok(2)]) (simp add: p(1) settings_size_sub)
    moreover have "wf_registration reg" if "reg \<in> set regs" for reg
      using lookup_challenges_in [OF p(2) assms(2) that] assms(3) by blast
    ultimately show ?thesis by (simp add: h)
  qed
qed

text \<open>The actions that never let a request through.\<close>

definition refusing_action :: "string \<Rightarrow> bool" where
  "refusing_action a \<longleftrightarrow> upper_string a \<in> {''BLOCK'', ''DENY'', ''DROP'', ''CODE''}"

lemma new_code_refusing: "new_code settings = Inr h \<Longrightarrow> refusing h"
  by (auto simp: new_code_def refusing_def split: sum.splits if_splits)

lemma new_handler_refusing:
  assumes "new_handler env compile name hash (upper_string a) settings = Some (Inr h)" "refusing_action a"
  shows "refusing h"
proof -
  consider "upper_string a = ''BLOCK''" | "upper_string a = ''DENY''" | "upper_string a = ''DROP''" | "upper_string a = ''CODE''"
    using assms(2) by (auto simp: refusing_action_def)
  then show ?thesis
    by cases (use assms(1) in \<open>subst (asm) new_handler.simps; auto simp: refusing_def new_code_refusing [unfolded refusing_def]\<close>)+
qed

lemma NewRuleState_handler:
  assumes "NewRuleState env co parent rule = Inr r"
  shows "new_handler env (co_regexp co) (full_name parent (pr_name rule)) (rule_hash env parent (full_name parent (pr_name rule)))
      (upper_string (pr_action rule)) (pr_settings rule) = Some (Inr (rs_handler r))"
    and "compile_conditions co (pr_conditions rule) = Inr (rs_condition r)"
    and "new_children env co (full_name parent (pr_name rule)) (pr_children rule) = Inr (rs_children r)"
  using assms by (cases rule; auto simp: Let_def split: option.splits sum.splits)+

lemma NewRuleState_wf:
  assumes "wf_map (e_challenges env)" "\<And>i reg. mget (e_challenges env) i = Some reg \<Longrightarrow> wf_registration reg"
  shows "NewRuleState env co parent rule = Inr r \<Longrightarrow> rule_ok rule \<Longrightarrow> wf_rule r"
    and "new_children env co name kids = Inr rs \<Longrightarrow> \<forall>kid \<in> set kids. rule_ok kid \<Longrightarrow> \<forall>q \<in> set rs. wf_rule q"
  using assms
proof (induction env co parent rule and env co name kids arbitrary: r and rs rule: NewRuleState_new_children.induct)
  case (1 env co parent rname conditions raction settings kids)
  note h = NewRuleState_handler [OF "1.prems"(1)]
  have hd: "new_handler env (co_regexp co) (full_name parent rname) (rule_hash env parent (full_name parent rname))
      (upper_string raction) settings = Some (Inr (rs_handler r))"
    and c: "compile_conditions co conditions = Inr (rs_condition r)"
    and k: "new_children env co (full_name parent rname) kids = Inr (rs_children r)"
    using h by simp_all
  have ok: "pred_option node_ok settings" "\<forall>kid \<in> set kids. rule_ok kid" using "1.prems"(2) by (simp_all add: list_all_iff)
  have "wf_handler (rs_handler r)" by (rule new_handler_wf [OF hd "1.prems"(3,4) ok(1)])
  moreover have "\<forall>q \<in> set (rs_children r). wf_rule q"
    by (rule "1.IH" [OF refl refl refl hd refl c k ok(2) "1.prems"(3,4)])
  ultimately show ?case by (cases r) simp
next
  case (2 env co name)
  then show ?case by simp
next
  case (3 env co name child kids)
  then show ?case by (auto split: sum.splits)
qed

lemma new_rules_split:
  assumes "new_rules env co (pre @ rule # post) = Inr rules"
  shows "\<exists>as r bs. rules = as @ r # bs \<and> NewRuleState env co None rule = Inr r \<and>
    (\<forall>a \<in> set as. \<exists>q \<in> set pre. NewRuleState env co None q = Inr a)"
  using assms
proof (induction pre arbitrary: rules)
  case Nil
  then obtain r bs where "NewRuleState env co None rule = Inr r" "rules = [] @ r # bs" by (auto split: sum.splits)
  then show ?case by fastforce
next
  case (Cons q pre)
  then obtain a rules1 where q: "NewRuleState env co None q = Inr a" "new_rules env co (pre @ rule # post) = Inr rules1" "rules = a # rules1"
    by (auto split: sum.splits)
  from Cons.IH [OF q(2)] obtain as r bs where i: "rules1 = as @ r # bs" "NewRuleState env co None rule = Inr r"
      "\<forall>a \<in> set as. \<exists>q \<in> set pre. NewRuleState env co None q = Inr a" by blast
  from i q have "rules = (a # as) @ r # bs" "\<forall>x \<in> set (a # as). \<exists>y \<in> set (q # pre). NewRuleState env co None y = Inr x" by auto
  with i(2) show ?case by blast
qed

lemma new_rules_members:
  "new_rules env co rs = Inr rules \<Longrightarrow> r \<in> set rules \<Longrightarrow> \<exists>q \<in> set rs. NewRuleState env co None q = Inr r"
  by (induction rs arbitrary: rules) (auto split: sum.splits)

section \<open>The states that the policy makes\<close>

text \<open>
  What a made state gives the server: a consistent register whose challenges are well formed and come from
  the policy, and rules that are made in the environment of the state.
\<close>

definition from_policy :: "'p policy \<Rightarrow> registration \<Rightarrow> bool" where
  "from_policy p reg \<longleftrightarrow> wf_registration reg \<and>
     (\<exists>pol. (reg_name reg, pol) \<in> set (nil_entries (po_challenges p)) \<and> (page_runtime (pc_runtime pol) \<longrightarrow> shows_page reg))"

lemma state_made:
  assumes "NewState io p env0 disk ps = (Inr st, ps')" "ni_runtimes io = Runtimes assets" "0 \<le> ps_counter ps"
  obtains co where "new_rules (st_env st) co (po_rules p) = Inr (st_rules st)"
    "register_inv (ps_counter ps') (e_challenges (st_env st))"
    "\<forall>i reg. mget (e_challenges (st_env st)) i = Some reg \<longrightarrow> from_policy p reg"
    "e_response_code (st_env st) = e_response_code env0"
proof -
  obtain keys template env where env: "env = key_env env0 keys template"
      and b: "build_state io p env \<lparr>ns_cells = map (\<lambda>(k, n). (k, Unloaded)) (nil_entries (po_networks p)), ns_disk = disk\<rparr>
        (ps_counter ps) = (Inr st, ps_counter ps')"
    using NewState_parts [OF assms(1)] by metis
  obtain replacements reg compile where
      c: "create_challenges (ni_runtimes io) compile (Replace replacements) (ni_join io) (e_url_path env)
        (nil_entries (po_challenges p)) (ps_counter ps) [] = (Inr reg, ps_counter ps')"
      and e: "st_env st = env\<lparr>e_challenges := reg\<rparr>"
      and r: "new_rules (env\<lparr>e_challenges := reg\<rparr>) \<lparr>co_regexp = ni_regexp io, co_condition = compile,
        co_replace = Replace replacements\<rparr> (po_rules p) = Inr (st_rules st)"
    by (rule build_state_parts [OF b])
  have f: "fills fill" if "ni_runtimes io k = Some fill" for k fill
    using that Runtimes_fill(1) by (simp add: assms(2))
  have i0: "register_inv (ps_counter ps) []" by (simp add: register_inv_def)
  have made: "from_policy p q" if "mget reg i = Some q" for i q
  proof (rule create_challenges_all [OF c i0 assms(3) f _ _ that])
    show "from_policy p x" if "(name, pol) \<in> set (nil_entries (po_challenges p))"
      "Create (ni_runtimes io) compile (Some (Replace replacements)) (ni_join io) (e_url_path env) name pol m t = (Inr (x, j), m', t')"
      for name pol m t x j m' t'
    proof -
      note cr = that(2) [unfolded assms(2)]
      have "reg_name x = name" using Create_ok [OF that(2)] f by blast
      then show ?thesis
        unfolding from_policy_def using Create_wf [OF cr] Create_page [OF cr] that(1) by blast
    qed
  qed simp_all
  have "register_inv (ps_counter ps') reg" using create_challenges_names [OF c i0 assms(3)] f by blast
  then show ?thesis
    using made by (intro that [OF r [folded e]]) (simp_all add: e env key_env_def)
qed

text \<open>
  A rule of the policy that is a gate for the challenges \<open>names\<close>: it has no condition, its action is a
  challenge or a check, its fail action refuses, and its challenges are solved on a page.
\<close>

definition policy_gate :: "'p policy \<Rightarrow> string list \<Rightarrow> policy_rule \<Rightarrow> bool" where
  "policy_gate p names rule \<longleftrightarrow> pr_conditions rule = [] \<and> upper_string (pr_action rule) \<in> {''CHALLENGE'', ''CHECK''} \<and>
     (\<exists>node params. pr_settings rule = Some node \<and> sn_challenge node = Inr params \<and> chs_challenges params = names \<and>
        refusing_action (chs_fail params)) \<and>
     (\<forall>(name, pol) \<in> set (nil_entries (po_challenges p)). name \<in> set names \<longrightarrow> page_runtime (pc_runtime pol))"

lemma gate_made:
  assumes "NewRuleState env co None rule = Inr r" "policy_gate p names rule"
    and "register_inv n (e_challenges env)" "\<forall>i reg. mget (e_challenges env) i = Some reg \<longrightarrow> from_policy p reg"
  shows "\<exists>regs. gate_rule regs r \<and> (\<forall>reg \<in> set regs. reg_name reg \<in> set names \<and> (\<exists>i. mget (e_challenges env) i = Some reg))"
proof -
  have w: "wf_map (e_challenges env)" using assms(3) by (simp add: register_inv_def)
  note h = NewRuleState_handler [OF assms(1)]
  have g: "pr_conditions rule = []" "upper_string (pr_action rule) = ''CHALLENGE'' \<or> upper_string (pr_action rule) = ''CHECK''"
    using assms(2) unfolding policy_gate_def by blast+
  have pages: "page_runtime (pc_runtime pol)" if "(name, pol) \<in> set (nil_entries (po_challenges p))" "name \<in> set names" for name pol
    using assms(2) that unfolding policy_gate_def by blast
  obtain node0 params0 where s: "pr_settings rule = Some node0" "sn_challenge node0 = Inr params0" "chs_challenges params0 = names"
      "refusing_action (chs_fail params0)"
    using assms(2) unfolding policy_gate_def by blast
  obtain node params regs pass fail where
      q: "pr_settings rule = Some node" "sn_challenge node = Inr params" "lookup_challenges env (chs_challenges params) = Inr regs"
      "regs \<noteq> []"
      "new_handler env (co_regexp co) (full_name None (pr_name rule)) (rule_hash env None (full_name None (pr_name rule)))
         (upper_string (chs_pass params)) (sn_pass node) = Some (Inr pass)"
      "new_handler env (co_regexp co) (full_name None (pr_name rule)) (rule_hash env None (full_name None (pr_name rule)))
         (upper_string (chs_fail params)) (sn_fail node) = Some (Inr fail)"
      "rs_handler r = HChallenge (rule_hash env None (full_name None (pr_name rule)))
         (if chs_code params = 0 then e_response_code env else chs_code params) (upper_string (pr_action rule) = ''CHECK'') regs
         (upper_string (chs_pass params)) pass (upper_string (chs_fail params)) fail"
    by (rule new_handler_challenge [OF h(1) g(2)])
  have p: "params = params0" "node = node0" using q(1,2) s(1,2) by simp_all
  have reg: "reg_name reg \<in> set names \<and> (\<exists>i. mget (e_challenges env) i = Some reg)" if "reg \<in> set regs" for reg
    using lookup_challenges_in [OF q(3) w that] s(3) p by simp
  have page: "shows_page reg" if "reg \<in> set regs" for reg
    using reg [OF that] assms(4) pages unfolding from_policy_def by blast
  have "refusing fail" using new_handler_refusing [OF q(6)] s(4) p by simp
  moreover have "rs_condition r = None" using h(2) g(1) by (simp add: compile_conditions_def)
  ultimately have "gate_rule regs r" unfolding gate_rule_def using page q(7) by blast
  with reg show ?thesis by blast
qed

lemma refusing_made:
  assumes "NewRuleState env co None rule = Inr r" "refusing_action (pr_action rule)"
  shows "only_refuses r"
  unfolding only_refuses_def by (rule new_handler_refusing [OF NewRuleState_handler(1) [OF assms(1)] assms(2)])

section \<open>A site made from a policy\<close>

definition gate_node :: settings_node where
  "gate_node = SettingsNode (Inr 0) (Inr \<lparr>cs_set = [], cs_response = [], cs_request = []\<rparr>)
     (Inr \<lparr>ps_match = [], ps_rewrite = [], ps_backend = []\<rparr>)
     (Inr \<lparr>chs_code = 0, chs_challenges = [''c''], chs_pass = ''pass'', chs_fail = ''deny''\<rparr>) None None"

definition gate_policy_rule :: policy_rule where
  "gate_policy_rule = PolicyRule ''gate'' [] ''challenge'' (Some gate_node) []"

definition site_policy :: "yaml_node option policy" where
  "site_policy = \<lparr>po_networks = Some [], po_conditions = Some [],
     po_challenges = Some [(''c'', \<lparr>pc_conditions = [], pc_runtime = ''cookie'', pc_duration = hour, pc_parameters = None\<rparr>)],
     po_rules = [gate_policy_rule]\<rparr>"

definition site_io :: "(yaml_node option, ip_net list, unit, bytes, unit) new_io" where
  "site_io = test_io\<lparr>ni_keys := \<lparr>kl_from_seed = \<lambda>s. ([1], [2]), kl_generate = Inl (Err ''no entropy'')\<rparr>, ni_join := \<lambda>_. ''/c''\<rparr>"

lemma site_upper: "upper_string ''challenge'' = ''CHALLENGE''" "upper_string ''pass'' = ''PASS''" "upper_string ''deny'' = ''DENY''"
  by code_simp+

lemma site_key_env: "(key_env site_env ([1], [2]) ''anubis'')\<lparr>e_challenges := [(1, sample_reg)]\<rparr> = site_env"
  by (simp add: key_env_def site_env_def sample_env_def)

lemma site_create:
  "create_challenges (ni_runtimes site_io) compile rep (ni_join site_io) path (nil_entries (po_challenges site_policy)) 0 [] =
     (Inr [(1, sample_reg)], 1)"
  by (simp add: site_policy_def site_io_def test_io_def nil_entries_def Create_def Runtimes_def fill_cookie_def assign_id_def
      Let_def new_registration_def sample_reg_def hour_def second_def mset_key_def)

lemma site_handler:
  "new_handler site_env re ''gate'' sample_hash ''CHALLENGE'' (Some gate_node) = Some (Inr sample_gate)"
proof -
  have pa: "new_handler site_env re ''gate'' sample_hash ''PASS'' None = Some (Inr HPass)" by (subst new_handler.simps) simp
  have fa: "new_handler site_env re ''gate'' sample_hash ''DENY'' None = Some (Inr (HDeny 403 sample_hash))" by (subst new_handler.simps) simp
  have l: "lookup_challenges site_env [''c''] = Inr [sample_reg]" by simp
  show ?thesis by (subst new_handler.simps) (simp add: gate_node_def l site_upper pa fa sample_gate_def del: lookup_challenges.simps)
qed

lemma site_rules: "new_rules site_env \<lparr>co_regexp = re, co_condition = cmp, co_replace = rep\<rparr> [gate_policy_rule] = Inr [site_gate]"
proof -
  have "rule_hash site_env None ''gate'' = sample_hash" by (simp add: rule_hash_def sample_hash_def numeral_eq_Suc)
  then show ?thesis
    by (simp add: gate_policy_rule_def Let_def full_name_def site_upper site_handler compile_conditions_def site_gate_def)
qed

lemma site_state:
  "\<exists>st ps'. NewState site_io site_policy site_env () (process_with (replicate 32 0) 0) = (Inr st, ps') \<and>
     st_env st = site_env \<and> st_rules st = [site_gate]"
proof -
  let ?env = "key_env site_env ([1], [2]) ''anubis''"
  have k: "load_key (ni_keys site_io) (replicate 32 0) = (Inr ([1], [2]), replicate 32 0)"
    by (simp add: load_key_def site_io_def SeedSize_def)
  have t: "load_template (ni_readfile site_io) (ni_parse site_io) (e_template site_env) [(page_template ''anubis'', [])] =
      (Inr ''anubis'', [(page_template ''anubis'', [])])"
    by (simp add: load_template_def site_env_def sample_env_def mget_Cons)
  have f: "nil_entries (po_conditions site_policy) = []" "po_rules site_policy = [gate_policy_rule]"
      "ni_geo site_io db = Inr ()" for db
    by (simp_all add: site_policy_def nil_entries_def site_io_def test_io_def)
  have "\<exists>st. build_state site_io site_policy ?env nets 0 = (Inr st, 1) \<and> st_env st = site_env \<and> st_rules st = [site_gate]" for nets
    by (simp add: build_state_def f site_create Let_def site_key_env site_rules del: new_rules.simps)
  then obtain st where "build_state site_io site_policy ?env
      \<lparr>ns_cells = map (\<lambda>(k, n). (k, Unloaded)) (nil_entries (po_networks site_policy)), ns_disk = ()\<rparr> 0 = (Inr st, 1)"
      "st_env st = site_env" "st_rules st = [site_gate]" by blast
  then show ?thesis by (simp add: NewState_def process_with_def k t)
qed

section \<open>The properties\<close>

text \<open>
  C1: a policy with a gate protects its backends. When a state is made from a policy whose rules are some
  that refuse, then a gate, then any others, every request that the server of this state hands to a backend
  has a token for one of the challenges that the gate names: the server sealed it into a cookie for this
  host and network, it has not expired, it was issued under the key of this request, and it is marked as
  passed or was verified again.
\<close>

theorem policy_gate_protects:
  assumes "NewState io p env0 disk ps = (Inr st, ps')" "ni_runtimes io = Runtimes assets" "0 \<le> ps_counter ps"
    and "200 \<le> e_response_code env0" "po_rules p = pre @ gate # post" "policy_gate p names gate"
    and "\<forall>rule \<in> set pre. refusing_action (pr_action rule)"
    and "ServeHTTP (st_env st) (st_rules st) fp w = Ret () w'" "served w' \<noteq> served w"
  defines "w0 \<equiv> with_data (st_env st) fp w"
  shows "\<exists>reg m token s. reg_name reg \<in> set names \<and> mget (e_challenges (st_env st)) (reg_id reg) = Some reg \<and>
    sealed_state (st_env st) w0 m \<and> mget m (reg_name reg) = Some token \<and>
    token_backed (st_env st) reg token
      (GetChallengeKeyForRequest (st_env st) reg (Expiration (d_time (w_data w0)) (reg_duration reg)) w0) (w_ticks w0) s"
proof -
  obtain co where r: "new_rules (st_env st) co (po_rules p) = Inr (st_rules st)"
    and inv: "register_inv (ps_counter ps') (e_challenges (st_env st))"
    and pol: "\<forall>i reg. mget (e_challenges (st_env st)) i = Some reg \<longrightarrow> from_policy p reg"
    and code: "e_response_code (st_env st) = e_response_code env0"
    by (rule state_made [OF assms(1-3)])
  obtain as g bs where rules: "st_rules st = as @ g # bs" "NewRuleState (st_env st) co None gate = Inr g"
      "\<forall>a \<in> set as. \<exists>q \<in> set pre. NewRuleState (st_env st) co None q = Inr a"
    using new_rules_split [OF r [unfolded assms(5)]] by blast
  have "\<forall>a \<in> set as. only_refuses a" using rules(3) assms(7) refusing_made by blast
  moreover obtain regs where regs: "gate_rule regs g"
      "\<forall>reg \<in> set regs. reg_name reg \<in> set names \<and> (\<exists>i. mget (e_challenges (st_env st)) i = Some reg)"
    using gate_made [OF rules(2) assms(6) inv pol] by blast
  moreover have "200 \<le> e_response_code (st_env st)" using assms(4) code by simp
  ultimately obtain reg reg' m token s where t: "reg \<in> snd ` set (e_challenges (st_env st))" "reg' \<in> set regs" "reg_id reg = reg_id reg'"
    "sealed_state (st_env st) w0 m" "mget m (reg_name reg) = Some token"
    "token_backed (st_env st) reg token
      (GetChallengeKeyForRequest (st_env st) reg (Expiration (d_time (w_data w0)) (reg_duration reg)) w0) (w_ticks w0) s"
    using gate_token [OF assms(8) [unfolded rules(1)] assms(9) regs(1) _ _ w0_def [THEN meta_eq_to_obj_eq]] by metis
  have all: "reg_id x = i" if "mget (e_challenges (st_env st)) i = Some x" for i x using inv that by (simp add: register_inv_def)
  obtain i where i: "(i, reg) \<in> set (e_challenges (st_env st))" using t(1) by auto
  have "mget (e_challenges (st_env st)) i = Some reg"
    using i inv by (simp add: register_inv_def wf_map_def mget_def mkeys_def)
  then have m: "mget (e_challenges (st_env st)) (reg_id reg) = Some reg" using all by simp
  obtain j where "mget (e_challenges (st_env st)) j = Some reg'" using regs(2) t(2) by blast
  then have "reg' = reg" using m all t(3) by simp
  with regs(2) t(2) have "reg_name reg \<in> set names" by blast
  with m t(4-6) show ?thesis by blast
qed

theorem policy_gate_protects_witness:
  "\<exists>st ps' w' m (token :: token_challenge). NewState site_io site_policy site_env () (process_with (replicate 32 0) 0) = (Inr st, ps') \<and>
     ServeHTTP (st_env st) (st_rules st) None site_world = Ret () w' \<and>
     served w' = 1 \<and> sealed_state (st_env st) (with_data (st_env st) None site_world) m \<and> mget m ''c'' = Some token"
proof -
  obtain st ps' where st: "NewState site_io site_policy site_env () (process_with (replicate 32 0) 0) = (Inr st, ps')"
      and e: "st_env st = site_env" "st_rules st = [site_gate]"
    using site_state by blast
  obtain w' b q where w': "ServeHTTP (st_env st) (st_rules st) None site_world = Ret () w'" "w_events w' = [Served b q]"
    using site_served by (auto simp: e)
  have s: "served w' = 1" "served w' \<noteq> served site_world"
    by (simp_all add: served_def served_events_def w'(2) is_served_def site_world_def sample_world_def)
  have gate: "policy_gate site_policy [''c''] gate_policy_rule"
    by (simp add: policy_gate_def gate_policy_rule_def gate_node_def site_policy_def nil_entries_def page_runtime_def
        refusing_action_def site_upper)
  have f: "ni_runtimes site_io = Runtimes (\<lambda>_ _ _. None)" "0 \<le> ps_counter (process_with (replicate 32 0) 0)"
      "200 \<le> e_response_code site_env" "po_rules site_policy = [] @ gate_policy_rule # []"
      "\<forall>rule \<in> set ([] :: policy_rule list). refusing_action (pr_action rule)"
    by (simp_all add: site_io_def test_io_def process_with_def site_policy_def)
  from policy_gate_protects [OF st f(1-4) gate f(5) w'(1) s(2)] obtain m token where
      "sealed_state (st_env st) (with_data (st_env st) None site_world) m" "mget m ''c'' = Some token"
    by auto
  with st w'(1) s(1) show ?thesis by blast
qed



end
