(* ===== verification/Backends.thy ===== *)
theory Backends
  imports Sample Request_Data
begin

text \<open>
  The backends and the server around the state: the settings of a backend and the request it is sent
  (\<open>lib/settings/backend.go\<close>, \<open>utils/http.go\<close>), the definitions on the command line, the listener and the
  server whose handler is exchanged (\<open>lib/settings/bind.go\<close>), and the loop that loads the policy and
  reloads it on a signal (\<open>cmd/go-away/main.go\<close>).
\<close>

section \<open>Backends\<close>

record backend_settings =
  bs_URL :: string
  bs_Host :: string
  bs_HTTP2Enabled :: bool
  bs_TLSSkipVerify :: bool
  bs_IpHeader :: string
  bs_GoDNS :: bool
  bs_Transparent :: bool
  bs_DialTimeout :: duration
  bs_TLSHandshakeTimeout :: duration
  bs_IdleConnTimeout :: duration
  bs_ResponseHeaderTimeout :: duration
  bs_ExpectContinueTimeout :: duration

datatype dialer = DialUnix string duration | DialGoResolver duration | DialDefault duration

record transport =
  tr_dial :: dialer
  tr_TLSHandshakeTimeout :: duration
  tr_IdleConnTimeout :: duration
  tr_ResponseHeaderTimeout :: duration
  tr_ExpectContinueTimeout :: duration
  tr_ForceAttemptHTTP2 :: bool
  tr_InsecureSkipVerify :: bool
  tr_ServerName :: string

text \<open>\<open>MakeReverseProxy\<close>: the target URL and the transport; the rest is a copy of the default transport.\<close>

definition MakeReverseProxy :: "authority_parser \<Rightarrow> transport \<Rightarrow> string \<Rightarrow> bool \<Rightarrow> duration \<Rightarrow> go_error + url \<times> transport" where
  "MakeReverseProxy pa base target goDns dialTimeout =
     (case url_parse pa target of
        Inl e \<Rightarrow> Inl (Wrap ''failed to parse target URL'' e)
      | Inr u \<Rightarrow>
          (let t = base\<lparr>tr_InsecureSkipVerify := False, tr_ServerName := []\<rparr> in
           if u_scheme u = ''unix'' then Inr (u\<lparr>u_path := []\<rparr>, t\<lparr>tr_dial := DialUnix (u_path u) dialTimeout\<rparr>)
           else if goDns then Inr (u, t\<lparr>tr_dial := DialGoResolver dialTimeout\<rparr>)
           else Inr (u, t\<lparr>tr_dial := DialDefault dialTimeout\<rparr>)))"

text \<open>A proxy has its target, its transport, and the settings its director adds, if it adds any.\<close>

record reverse_proxy =
  rp_target :: url
  rp_transport :: transport
  rp_settings :: "backend_settings option"

definition Backend_Create :: "authority_parser \<Rightarrow> transport \<Rightarrow> backend_settings \<Rightarrow> go_error + reverse_proxy" where
  "Backend_Create pa base b0 =
     (let b = (if bs_IpHeader b0 = ''-'' then b0\<lparr>bs_IpHeader := []\<rparr> else b0) in
      case MakeReverseProxy pa base (bs_URL b) (bs_GoDNS b) (bs_DialTimeout b) of
        Inl e \<Rightarrow> Inl e
      | Inr (u, t) \<Rightarrow>
          (let t1 = t\<lparr>tr_TLSHandshakeTimeout := bs_TLSHandshakeTimeout b, tr_IdleConnTimeout := bs_IdleConnTimeout b,
                      tr_ResponseHeaderTimeout := bs_ResponseHeaderTimeout b,
                      tr_ExpectContinueTimeout := bs_ExpectContinueTimeout b\<rparr>;
               t2 = (if bs_HTTP2Enabled b then t1\<lparr>tr_ForceAttemptHTTP2 := True\<rparr> else t1);
               t3 = (if bs_TLSSkipVerify b then t2\<lparr>tr_InsecureSkipVerify := True\<rparr> else t2);
               t4 = (if bs_Host b \<noteq> [] then t3\<lparr>tr_ServerName := bs_Host b\<rparr> else t3)
           in Inr \<lparr>rp_target = u, rp_transport = t4,
                   rp_settings = (if bs_IpHeader b \<noteq> [] \<or> bs_Host b \<noteq> [] \<or> \<not> bs_Transparent b then Some b else None)\<rparr>))"

text \<open>
  The director: the data and the address of the client that the context of the request has, if it has
  them. \<open>inner\<close> is the director of \<open>net/http/httputil\<close> for the target. The left result is a panic.
\<close>

definition settings_director ::
    "env \<Rightarrow> (http_request \<Rightarrow> http_request) \<Rightarrow> backend_settings \<Rightarrow> request_data option \<Rightarrow> addr_port option \<Rightarrow>
       http_request \<Rightarrow> go_error + http_request" where
  "settings_director env inner b data remote req =
     (case (if bs_Transparent b then Inr (r_header req)
            else (case data of None \<Rightarrow> Inr (r_header req) | Some d \<Rightarrow> RequestHeaders env d (r_header req))) of
        Inl e \<Rightarrow> Inl e
      | Inr h \<Rightarrow>
          (let h1 = (if bs_IpHeader b \<noteq> [] \<and> \<not> bs_Transparent b
                     then (case remote of
                         None \<Rightarrow> h
                       | Some ip \<Rightarrow> header_set h (bs_IpHeader b) (addr_string (e_print_ip6 env) (Unmap (fst ip))))
                     else h)
           in Inr (inner (req\<lparr>r_header := h1, r_host := (if bs_Host b \<noteq> [] then bs_Host b else r_host req)\<rparr>))))"

definition Director ::
    "env \<Rightarrow> (url \<Rightarrow> http_request \<Rightarrow> http_request) \<Rightarrow> reverse_proxy \<Rightarrow> request_data option \<Rightarrow> addr_port option \<Rightarrow>
       http_request \<Rightarrow> go_error + http_request" where
  "Director env inner p data remote req =
     (case rp_settings p of
        None \<Rightarrow> Inr (inner (rp_target p) req)
      | Some b \<Rightarrow> settings_director env (inner (rp_target p)) b data remote req)"

text \<open>\<open>UnixRoundTripper\<close> gives a request for a socket a host and a scheme.\<close>

definition unix_request :: "http_request \<Rightarrow> http_request" where
  "unix_request req =
     (let host = (if r_host req = [] then ''localhost'' else r_host req) in
      req\<lparr>r_host := host, r_url := (r_url req)\<lparr>u_host := host, u_scheme := ''http''\<rparr>\<rparr>)"

section \<open>Backends of the command line and of the settings\<close>

definition plain_backend :: "string \<Rightarrow> string \<Rightarrow> backend_settings" where
  "plain_backend url ipHeader =
     \<lparr>bs_URL = url, bs_Host = [], bs_HTTP2Enabled = False, bs_TLSSkipVerify = False, bs_IpHeader = ipHeader,
      bs_GoDNS = False, bs_Transparent = False, bs_DialTimeout = 0, bs_TLSHandshakeTimeout = 0,
      bs_IdleConnTimeout = 0, bs_ResponseHeaderTimeout = 0, bs_ExpectContinueTimeout = 0\<rparr>"

fun parse_backends ::
    "string \<Rightarrow> string list \<Rightarrow> (string, backend_settings) gomap \<Rightarrow> go_error + (string, backend_settings) gomap" where
  "parse_backends ipHeader [] m = Inr m"
| "parse_backends ipHeader (d # ds) m =
     (if d = [] then parse_backends ipHeader ds m
      else (case Split (CHR ''='') d of
          [host, url] \<Rightarrow> parse_backends ipHeader ds (mset_key host (plain_backend url ipHeader) m)
        | parts \<Rightarrow> Inl (Err (''invalid backend definition: '' @ d))))"

fun create_backends ::
    "(backend_settings \<Rightarrow> go_error + reverse_proxy) \<Rightarrow> string \<Rightarrow> (string \<times> backend_settings) list \<Rightarrow>
       (string, reverse_proxy) gomap \<Rightarrow> go_error + (string, reverse_proxy) gomap" where
  "create_backends create ipHeader [] m = Inr m"
| "create_backends create ipHeader ((k, v) # bs) m =
     (case create (if bs_IpHeader v = [] then v\<lparr>bs_IpHeader := ipHeader\<rparr> else v) of
        Inl e \<Rightarrow> Inl (Wrap (''backend '' @ k @ '': failed to make reverse proxy'') e)
      | Inr p \<Rightarrow> create_backends create ipHeader bs (mset_key k p m))"

definition all_backends ::
    "(backend_settings \<Rightarrow> go_error + reverse_proxy) \<Rightarrow> string \<Rightarrow> string \<Rightarrow> string list \<Rightarrow>
       (string, backend_settings) gomap \<Rightarrow> go_error + (string, reverse_proxy) gomap" where
  "all_backends create clientIpHeader backendIpHeader defs settings =
     (let ipHeader = (if backendIpHeader = [] then clientIpHeader else backendIpHeader) in
      case parse_backends ipHeader defs settings of
        Inl e \<Rightarrow> Inl e
      | Inr bs \<Rightarrow>
          (case create_backends create ipHeader bs [] of
             Inl e \<Rightarrow> Inl e
           | Inr m \<Rightarrow> if m = [] then Inl (Err ''no backends defined in cmdline or settings file'') else Inr m))"

section \<open>The server and the loop of main\<close>

text \<open>What the server runs: nothing yet, the backends directly, or the state with a number.\<close>

datatype server_handler = NoHandler | Passthrough | PolicyState nat

datatype 'h answer = BadGateway | ToBackend 'h | ToState nat

definition bind_server :: "bool \<Rightarrow> server_handler" where
  "bind_server passthrough = (if passthrough then Passthrough else NoHandler)"

definition server_answer :: "(string, 'h) gomap \<Rightarrow> server_handler \<Rightarrow> string \<Rightarrow> 'h answer" where
  "server_answer backends h host =
     (case h of
        NoHandler \<Rightarrow> BadGateway
      | Passthrough \<Rightarrow> (case SelectHTTPHandler backends host of None \<Rightarrow> BadGateway | Some b \<Rightarrow> ToBackend b)
      | PolicyState n \<Rightarrow> ToState n)"

text \<open>The policy for certificates: a host is allowed when it has a backend.\<close>

definition HostPolicy :: "(string, 'h) gomap \<Rightarrow> string \<Rightarrow> go_error option" where
  "HostPolicy backends host =
     (if SelectHTTPHandler backends host \<noteq> None then None
      else Some (Err (''acme/autocert: host '' @ host @ '' not configured in backends'')))"

text \<open>
  The process: the handler of the server, the variable that the loop keeps the last state in, the
  states that have been made and not closed, the number of the next state, and whether it has ended.
\<close>

record daemon =
  dm_handler :: server_handler
  dm_variable :: "nat option"
  dm_open :: "nat list"
  dm_next :: nat
  dm_exited :: bool

definition daemon_start :: "bool \<Rightarrow> daemon" where
  "daemon_start passthrough =
     \<lparr>dm_handler = bind_server passthrough, dm_variable = None, dm_open = [], dm_next = 0, dm_exited = False\<rparr>"

text \<open>The first load, and a reload after the signal; the argument says whether loading succeeded.\<close>

definition first_load :: "bool \<Rightarrow> daemon \<Rightarrow> daemon" where
  "first_load ok d =
     (if ok then d\<lparr>dm_handler := PolicyState (dm_next d), dm_variable := Some (dm_next d),
                   dm_open := dm_next d # dm_open d, dm_next := Suc (dm_next d)\<rparr>
      else d\<lparr>dm_exited := True\<rparr>)"

definition reload :: "bool \<Rightarrow> daemon \<Rightarrow> daemon" where
  "reload ok d =
     (if ok then
        (let oldHandler = dm_variable d; n = dm_next d;
             d1 = d\<lparr>dm_variable := Some n, dm_handler := PolicyState n, dm_open := n # dm_open d, dm_next := Suc n\<rparr>
         in case oldHandler of
              None \<Rightarrow> d1
            | Some i \<Rightarrow> d1\<lparr>dm_open := filter (\<lambda>j. j \<noteq> i) (dm_open d1)\<rparr>)
      else d\<lparr>dm_variable := None\<rparr>)"

inductive daemon_reach :: "bool \<Rightarrow> daemon \<Rightarrow> bool" for passthrough :: bool where
  start: "daemon_reach passthrough (daemon_start passthrough)"
| load: "dm_next d = 0 \<Longrightarrow> \<not> dm_exited d \<Longrightarrow> daemon_reach passthrough d \<Longrightarrow> daemon_reach passthrough (first_load ok d)"
| signal: "0 < dm_next d \<Longrightarrow> \<not> dm_exited d \<Longrightarrow> daemon_reach passthrough d \<Longrightarrow> daemon_reach passthrough (reload ok d)"

section \<open>Lemmas\<close>

lemma Backend_Create_settings:
  "Backend_Create pa base b0 = Inr p \<Longrightarrow>
     rp_settings p =
       (let b = (if bs_IpHeader b0 = ''-'' then b0\<lparr>bs_IpHeader := []\<rparr> else b0)
        in if bs_IpHeader b \<noteq> [] \<or> bs_Host b \<noteq> [] \<or> \<not> bs_Transparent b then Some b else None)"
  by (auto simp: Backend_Create_def Let_def split: sum.splits prod.splits)

lemma Backend_Create_ok: "url_parse pa (bs_URL b) = Inr u \<Longrightarrow> \<exists>p. Backend_Create pa base b = Inr p"
  by (cases "bs_IpHeader b = ''-''")
    (auto simp: Backend_Create_def MakeReverseProxy_def Let_def split: sum.splits prod.splits)

lemma transparent_director:
  "bs_Transparent b \<Longrightarrow> settings_director env inner b data remote req =
     Inr (inner (req\<lparr>r_host := (if bs_Host b \<noteq> [] then bs_Host b else r_host req)\<rparr>))"
  by (cases req) (simp add: settings_director_def Let_def)

lemma director_no_data: "\<exists>req'. settings_director env inner b None remote req = Inr req'"
  by (cases "bs_Transparent b") (simp_all add: settings_director_def Let_def)

lemma director_address:
  assumes "settings_director env inner b data (Some ip) req = Inr req'" "\<not> bs_Transparent b" "bs_IpHeader b \<noteq> []"
  shows "\<exists>h. req' = inner (req\<lparr>r_header := h, r_host := (if bs_Host b \<noteq> [] then bs_Host b else r_host req)\<rparr>) \<and>
    header_values h (bs_IpHeader b) = [addr_string (e_print_ip6 env) (Unmap (fst ip))]"
proof -
  obtain h where r: "(case data of None \<Rightarrow> Inr (r_header req) | Some d \<Rightarrow> RequestHeaders env d (r_header req)) = Inr h"
    using assms(1,2) by (auto simp: settings_director_def split: sum.splits)
  let ?h = "header_set h (bs_IpHeader b) (addr_string (e_print_ip6 env) (Unmap (fst ip)))"
  have "req' = inner (req\<lparr>r_header := ?h, r_host := (if bs_Host b \<noteq> [] then bs_Host b else r_host req)\<rparr>)"
    using assms by (simp add: settings_director_def Let_def r)
  then show ?thesis by (intro exI [of _ ?h]) simp
qed

text \<open>The state that serves has not been closed, and the variable never names another one.\<close>

definition daemon_inv :: "bool \<Rightarrow> daemon \<Rightarrow> bool" where
  "daemon_inv passthrough d \<longleftrightarrow>
     (case dm_handler d of
        PolicyState n \<Rightarrow> n \<in> set (dm_open d) \<and> 0 < dm_next d
      | h \<Rightarrow> h = bind_server passthrough \<and> dm_open d = [] \<and> dm_next d = 0) \<and>
     (\<forall>n. dm_variable d = Some n \<longrightarrow> dm_handler d = PolicyState n) \<and>
     (\<forall>n \<in> set (dm_open d). n < dm_next d) \<and> distinct (dm_open d)"

lemma daemon_inv_start: "daemon_inv passthrough (daemon_start passthrough)"
  by (simp add: daemon_inv_def daemon_start_def bind_server_def)

lemma daemon_inv_load:
  "daemon_inv passthrough d \<Longrightarrow> dm_next d = 0 \<Longrightarrow> daemon_inv passthrough (first_load ok d)"
  by (cases "dm_handler d") (auto simp: daemon_inv_def first_load_def)

lemma daemon_inv_reload:
  assumes "daemon_inv passthrough d" "0 < dm_next d"
  shows "daemon_inv passthrough (reload ok d)"
proof (cases ok)
  case False
  with assms show ?thesis by (cases "dm_handler d") (simp_all add: daemon_inv_def reload_def)
next
  case True
  have less: "\<forall>n \<in> set (dm_open d). n < dm_next d" "distinct (dm_open d)"
    using assms(1) by (simp_all add: daemon_inv_def)
  show ?thesis
  proof (cases "dm_variable d")
    case None
    with True less show ?thesis by (auto simp: daemon_inv_def reload_def Let_def)
  next
    case (Some i)
    with assms have "dm_handler d = PolicyState i" by (simp add: daemon_inv_def)
    with assms(1) have "i \<in> set (dm_open d)" by (simp add: daemon_inv_def)
    with less have "i < dm_next d" by blast
    with True Some less show ?thesis by (auto simp: daemon_inv_def reload_def Let_def)
  qed
qed

lemma daemon_reach_inv: "daemon_reach passthrough d \<Longrightarrow> daemon_inv passthrough d"
proof (induction rule: daemon_reach.induct)
  case start
  then show ?case by (rule daemon_inv_start)
next
  case (load d ok)
  then show ?case by (intro daemon_inv_load)
next
  case (signal d ok)
  then show ?case by (intro daemon_inv_reload)
qed

section \<open>The claims\<close>


definition test_transport :: transport where
  "test_transport = \<lparr>tr_dial = DialDefault 0, tr_TLSHandshakeTimeout = 0, tr_IdleConnTimeout = 0,
     tr_ResponseHeaderTimeout = 0, tr_ExpectContinueTimeout = 0, tr_ForceAttemptHTTP2 = True,
     tr_InsecureSkipVerify = False, tr_ServerName = []\<rparr>"




text \<open>
  A reload that fails makes the loop forget the state that serves, so the next reload that succeeds
  leaves that state open for good; without a failure in between a reload closes it.
\<close>

theorem failed_reload_leaks:
  assumes "daemon_reach passthrough d" "dm_variable d = Some i"
  shows "i \<in> set (dm_open (reload True (reload False d))) \<and> dm_handler (reload True (reload False d)) \<noteq> PolicyState i \<and>
    i \<notin> set (dm_open (reload True d))"
proof -
  have h: "dm_handler d = PolicyState i" and i: "i \<in> set (dm_open d)" "i < dm_next d"
    using daemon_reach_inv [OF assms(1)] assms(2) by (auto simp: daemon_inv_def)
  then show ?thesis by (simp add: reload_def Let_def assms(2))
qed

theorem failed_reload_leaks_witness:
  "dm_open (reload True (reload False (first_load True (daemon_start False)))) = [1, 0] \<and>
   0 \<in> set (dm_open (reload True (reload False (first_load True (daemon_start False)))))"
proof -
  have "daemon_reach False (first_load True (daemon_start False))"
    by (intro daemon_reach.intros) (simp_all add: daemon_start_def)
  from failed_reload_leaks [OF this, of 0] show ?thesis
    by (simp add: daemon_start_def first_load_def reload_def Let_def)
qed

end
