(* ===== verification/Process.thy ===== *)
theory Process
  imports Site Backends
begin

text \<open>
  The process (\<open>cmd/go-away/main.go\<close>) around the state: the settings and the flags, the listener and the
  server (\<open>lib/settings/bind.go\<close>, \<open>utils/http.go\<close>), the cache directories, loading the policy into a state,
  and the order in which the program does all this before it serves. What it asks of the system is in
  the record \<open>sys\<close>; what it does to listeners and files of the system is logged.
\<close>

section \<open>The system\<close>

datatype sys_event = Listening string string | ListenerClosed | Chmod string "32 word" | Printed string

record sys =
  sy_listen :: "string \<Rightarrow> string \<Rightarrow> go_error option"
  sy_chmod :: "string \<Rightarrow> 32 word \<Rightarrow> go_error option"
  sy_mkdir :: "string \<Rightarrow> disk \<Rightarrow> go_error option \<times> disk"
  sy_getenv :: "string \<Rightarrow> string"
  sy_readfile :: "string \<Rightarrow> go_error + bytes"
  sy_keypair :: "string \<Rightarrow> string \<Rightarrow> go_error + bytes"
  sy_num_error :: "string \<Rightarrow> go_error"
  sy_letsencrypt :: string

record sys_world =
  sw_log :: "sys_event list"
  sw_disk :: disk

definition log_event :: "sys_event \<Rightarrow> sys_world \<Rightarrow> sys_world" where
  "log_event e w = w\<lparr>sw_log := sw_log w @ [e]\<rparr>"

section \<open>Settings\<close>

record bind_settings =
  bi_Address :: string
  bi_Network :: string
  bi_SocketMode :: string
  bi_Proxy :: bool
  bi_Passthrough :: bool
  bi_TLSAcmeAutoCert :: string
  bi_TLSCertificate :: string
  bi_TLSPrivateKey :: string
  bi_ReadTimeout :: duration
  bi_ReadHeaderTimeout :: duration
  bi_WriteTimeout :: duration
  bi_IdleTimeout :: duration

record settings =
  se_Bind :: bind_settings
  se_Backends :: "(string, backend_settings) gomap"
  se_BindDebug :: string
  se_BindMetrics :: string
  se_Strings :: "(string, string) gomap"
  se_Links :: "(string \<times> string) list"
  se_ChallengeTemplate :: string
  se_ChallengeTemplateOverrides :: "(string, string) gomap"

definition DefaultSettings :: "(string, string) gomap \<Rightarrow> settings" where
  "DefaultSettings strings =
     \<lparr>se_Bind = \<lparr>bi_Address = '':8080'', bi_Network = ''tcp'', bi_SocketMode = ''0770'', bi_Proxy = False,
        bi_Passthrough = False, bi_TLSAcmeAutoCert = [], bi_TLSCertificate = [], bi_TLSPrivateKey = [],
        bi_ReadTimeout = 0, bi_ReadHeaderTimeout = 0, bi_WriteTimeout = 0, bi_IdleTimeout = 0\<rparr>,
      se_Backends = [], se_BindDebug = [], se_BindMetrics = [], se_Strings = strings, se_Links = [],
      se_ChallengeTemplate = ''anubis'', se_ChallengeTemplateOverrides = [(''Theme'', []), (''Logo'', [])]\<rparr>"

section \<open>The listener\<close>

record listener =
  ls_network :: string
  ls_address :: string
  ls_proxy :: bool

fun parse_octal :: "nat \<Rightarrow> nat \<Rightarrow> string \<Rightarrow> nat option" where
  "parse_octal bound n [] = Some n"
| "parse_octal bound n (c # s) =
     (if is_digit c \<and> digit_value c < 8
      then (let m = 8 * n + digit_value c in if m < bound then parse_octal bound m s else None)
      else None)"

text \<open>\<open>strconv.ParseUint(s, 8, 0)\<close> on a machine with integers of 64 bits.\<close>

definition ParseOctal :: "string \<Rightarrow> nat option" where
  "ParseOctal s = (if s = [] then None else parse_octal (2 ^ 64) 0 s)"

definition setupListener :: "sys \<Rightarrow> string \<Rightarrow> string \<Rightarrow> string \<Rightarrow> bool \<Rightarrow> sys_world \<Rightarrow> (listener \<times> string, sys_world) outcome" where
  "setupListener sy network0 address socketMode proxy0 w =
     (let network = (if network0 = ''proxy'' then ''tcp'' else network0);
          proxy = (network0 = ''proxy'' \<or> proxy0);
          formatted = (if network = ''unix'' then ''unix:'' @ address
                       else if network = ''tcp'' then ''http://localhost'' @ address
                       else ''('' @ network @ '') '' @ address)
      in case sy_listen sy network address of
           Some e \<Rightarrow> Panic (Wrap (''failed to bind to '' @ formatted) e) w
         | None \<Rightarrow>
             obind
               (if network = ''unix'' then
                  (case ParseOctal socketMode of
                     None \<Rightarrow> Panic (Wrap (''could not parse socket mode '' @ socketMode) (sy_num_error sy socketMode))
                              (log_event ListenerClosed (log_event (Listening network address) w))
                   | Some mode \<Rightarrow>
                       (case sy_chmod sy address (word_of_nat mode) of
                          Some e \<Rightarrow> Panic (Wrap ''could not change socket mode'' e)
                                     (log_event ListenerClosed (log_event (Listening network address) w))
                        | None \<Rightarrow> Ret () (log_event (Chmod address (word_of_nat mode)) (log_event (Listening network address) w))))
                else Ret () (log_event (Listening network address) w))
               (\<lambda>_ w1. Ret (\<lparr>ls_network = network, ls_address = address, ls_proxy = proxy\<rparr>,
                  formatted @ (if proxy then '' +PROXY'' else [])) w1))"

definition Bind_Listener :: "sys \<Rightarrow> bind_settings \<Rightarrow> sys_world \<Rightarrow> (listener \<times> string, sys_world) outcome" where
  "Bind_Listener sy b w = setupListener sy (bi_Network b) (bi_Address b) (bi_SocketMode b) (bi_Proxy b) w"

section \<open>The server\<close>

text \<open>The certificates of a server: a manager for a directory, with its cache if it has one, or a pair of files.\<close>

datatype tls_config = TlsAcme string "string option" | TlsCertificate bytes

record server =
  sv_TLSConfig :: "tls_config option"
  sv_UnencryptedHTTP2 :: bool
  sv_fingerprints :: bool
  sv_Handler :: server_handler
  sv_ReadTimeout :: duration
  sv_ReadHeaderTimeout :: duration
  sv_WriteTimeout :: duration
  sv_IdleTimeout :: duration

definition NewServer :: "server_handler \<Rightarrow> tls_config option \<Rightarrow> server" where
  "NewServer h tlsConfig =
     \<lparr>sv_TLSConfig = tlsConfig, sv_UnencryptedHTTP2 = (tlsConfig = None), sv_fingerprints = (tlsConfig \<noteq> None),
      sv_Handler = h, sv_ReadTimeout = 0, sv_ReadHeaderTimeout = 0, sv_WriteTimeout = 0, sv_IdleTimeout = 0\<rparr>"

definition server_tls :: "sys \<Rightarrow> bind_settings \<Rightarrow> string \<Rightarrow> disk \<Rightarrow> (go_error + tls_config option) \<times> disk" where
  "server_tls sy b acmeCachePath disk =
     (if bi_TLSAcmeAutoCert b \<noteq> [] then
        (let url = (if bi_TLSAcmeAutoCert b = ''letsencrypt'' then sy_letsencrypt sy else bi_TLSAcmeAutoCert b)
         in if acmeCachePath \<noteq> [] then
              (case sy_mkdir sy acmeCachePath disk of
                 (Some e, d) \<Rightarrow> (Inl (Wrap ''failed to create acme cache directory'' e), d)
               | (None, d) \<Rightarrow> (Inr (Some (TlsAcme url (Some acmeCachePath))), d))
            else (Inr (Some (TlsAcme url None)), disk))
      else if bi_TLSCertificate b \<noteq> [] \<and> bi_TLSPrivateKey b \<noteq> [] then
        (case sy_keypair sy (bi_TLSCertificate b) (bi_TLSPrivateKey b) of
           Inl e \<Rightarrow> (Inl e, disk)
         | Inr c \<Rightarrow> (Inr (Some (TlsCertificate c)), disk))
      else (Inr None, disk))"

definition Bind_Server :: "sys \<Rightarrow> bind_settings \<Rightarrow> string \<Rightarrow> disk \<Rightarrow> (go_error + server) \<times> disk" where
  "Bind_Server sy b acmeCachePath disk =
     (case server_tls sy b acmeCachePath disk of
        (Inl e, d) \<Rightarrow> (Inl e, d)
      | (Inr tlsConfig, d) \<Rightarrow>
          (Inr ((NewServer (bind_server (bi_Passthrough b)) tlsConfig)
             \<lparr>sv_ReadTimeout := bi_ReadTimeout b, sv_ReadHeaderTimeout := bi_ReadHeaderTimeout b,
              sv_WriteTimeout := bi_WriteTimeout b, sv_IdleTimeout := bi_IdleTimeout b\<rparr>), d))"

section \<open>The start of the program\<close>

text \<open>What the flags are parsed to; the flags of the settings are parsed into the settings themselves.\<close>

record flags =
  fl_check :: bool
  fl_clientIpHeader :: string
  fl_backendIpHeader :: string
  fl_cachePath :: string
  fl_policyFile :: string
  fl_policySnippets :: "string list"
  fl_templateTheme :: string
  fl_templateLogo :: string
  fl_basePath :: string
  fl_seed :: string
  fl_backends :: "string list"
  fl_settingsFile :: string

text \<open>
  The parameters of the program: the system, the decoders, what a state is made with, the library
  functions of the environment, the default transport, and the name and version of the build.
\<close>

record ('p, 'r, 'd, 't, 'g) program =
  pg_sys :: sys
  pg_unmarshal :: "bytes \<Rightarrow> settings \<Rightarrow> go_error + settings"
  pg_policy :: "'p policy_io"
  pg_state :: "('p, 'r, 'd, 't, 'g) new_io"
  pg_env :: env
  pg_transport :: transport
  pg_main_name :: string
  pg_main_version :: string

definition backend_ip_header :: "flags \<Rightarrow> string" where
  "backend_ip_header fl = (if fl_backendIpHeader fl = [] then fl_clientIpHeader fl else fl_backendIpHeader fl)"

definition load_settings :: "('p, 'r, 'd, 't, 'g) program \<Rightarrow> flags \<Rightarrow> settings \<Rightarrow> go_error + settings" where
  "load_settings pg fl opt0 =
     (let opt = opt0\<lparr>se_ChallengeTemplateOverrides :=
            mset_key ''Logo'' (fl_templateLogo fl) (mset_key ''Theme'' (fl_templateTheme fl) (se_ChallengeTemplateOverrides opt0))\<rparr>
      in if fl_settingsFile fl = [] then Inr opt
         else (case sy_readfile (pg_sys pg) (fl_settingsFile fl) of
             Inl e \<Rightarrow> Inl (Wrap ''could not read settings file'' e)
           | Inr settingsData \<Rightarrow>
               (case pg_unmarshal pg settingsData opt of
                  Inl e \<Rightarrow> Inl (Wrap ''could not parse settings file'' e)
                | Inr opt1 \<Rightarrow> Inr opt1)))"

fun make_dirs :: "sys \<Rightarrow> string \<Rightarrow> string list \<Rightarrow> disk \<Rightarrow> go_error option \<times> disk" where
  "make_dirs sy cachePath [] d = (None, d)"
| "make_dirs sy cachePath (n # ns) d =
     (case sy_mkdir sy (path_Join cachePath n) d of
        (Some e, d1) \<Rightarrow> (Some (Wrap (''failed to create cache sub directory '' @ n) e), d1)
      | (None, d1) \<Rightarrow> make_dirs sy cachePath ns d1)"

text \<open>The directory of the cache, if there is one, and the directory for certificates.\<close>

definition open_cache :: "sys \<Rightarrow> string \<Rightarrow> disk \<Rightarrow> (go_error + string option \<times> string) \<times> disk" where
  "open_cache sy cachePath d =
     (if cachePath = [] then (Inr (None, []), d)
      else (case sy_mkdir sy cachePath d of
          (Some e, d1) \<Rightarrow> (Inl (Wrap ''failed to create cache directory'' e), d1)
        | (None, d1) \<Rightarrow>
            (case make_dirs sy cachePath [''networks'', ''acme''] d1 of
               (Some e, d2) \<Rightarrow> (Inl e, d2)
             | (None, d2) \<Rightarrow>
                 (case CacheDirectory d2 cachePath of
                    Inl e \<Rightarrow> (Inl (Wrap ''failed to open cache directory'' e), d2)
                  | Inr c \<Rightarrow> (Inr (Some c, path_Join cachePath ''acme''), d2)))))"

text \<open>A backend in the environment is known by the host it is configured for.\<close>

definition state_env :: "('p, 'r, 'd, 't, 'g) program \<Rightarrow> flags \<Rightarrow> settings \<Rightarrow> (string, reverse_proxy) gomap \<Rightarrow> env" where
  "state_env pg fl opt created =
     (pg_env pg)\<lparr>e_backends := map (\<lambda>(k, p). (k, k)) created, e_main_name := pg_main_name pg,
        e_main_version := pg_main_version pg, e_url_path := fl_basePath fl, e_client_ip_header := fl_clientIpHeader fl,
        e_backend_ip_header := backend_ip_header fl, e_response_code := 418, e_template := se_ChallengeTemplate opt,
        e_overrides := se_ChallengeTemplateOverrides opt, e_links := se_Links opt, e_strings := se_Strings opt\<rparr>"

definition loadPolicyState ::
    "('p, 'r, 'd, 't, 'g) program \<Rightarrow> flags \<Rightarrow> settings \<Rightarrow> (string, reverse_proxy) gomap \<Rightarrow> 'd \<Rightarrow> 't process \<Rightarrow>
       (go_error + ('r, 'd, 'g) state, 't process) outcome" where
  "loadPolicyState pg fl opt created nets ps =
     (case sy_readfile (pg_sys pg) (fl_policyFile fl) of
        Inl e \<Rightarrow> Ret (Inl (Wrap ''failed to read policy file'' e)) ps
      | Inr policyData \<Rightarrow>
          (case NewPolicy (pg_policy pg) policyData (fl_policySnippets fl) of
             None \<Rightarrow> Panic (Err ''assignment to entry in nil map'') ps
           | Some (Inl e) \<Rightarrow> Ret (Inl (Wrap ''failed to parse policy file'' e)) ps
           | Some (Inr p) \<Rightarrow>
               (case NewState (pg_state pg) p (state_env pg fl opt created) nets ps of
                  (Inl e, ps1) \<Rightarrow> Ret (Inl (Wrap ''failed to create state'' e)) ps1
                | (Inr st, ps1) \<Rightarrow> Ret (Inr st) ps1)))"

text \<open>How the start ends: with an error, with the exit status 0, or with a server that serves.\<close>

record running =
  ru_server :: server
  ru_listener :: listener
  ru_url :: string
  ru_backends :: "(string, reverse_proxy) gomap"
  ru_settings :: settings
  ru_seed :: bytes
  ru_cache :: "string option"

datatype run_result = Fatal go_error | Exited | Serving running

definition seed_bytes :: "seed_choice \<Rightarrow> bytes" where
  "seed_bytes c = (case c of Seed s \<Rightarrow> s | _ \<Rightarrow> [])"

definition serve_start ::
    "('p, 'r, 'd, 't, 'g) program \<Rightarrow> settings \<Rightarrow> (string, reverse_proxy) gomap \<Rightarrow> bytes \<Rightarrow> string option \<Rightarrow> string \<Rightarrow>
       sys_world \<Rightarrow> (run_result, sys_world) outcome" where
  "serve_start pg opt created seed cch acmeCache w =
     obind (Bind_Listener (pg_sys pg) (se_Bind opt) w) (\<lambda>(l, url) w1.
       case Bind_Server (pg_sys pg) (se_Bind opt) acmeCache (sw_disk w1) of
         (Inl e, d) \<Rightarrow> Ret (Fatal (Wrap ''failed to create server'' e)) (w1\<lparr>sw_disk := d\<rparr>)
       | (Inr server, d) \<Rightarrow>
           Ret (Serving \<lparr>ru_server = server, ru_listener = l, ru_url = url, ru_backends = created, ru_settings = opt,
                  ru_seed = seed, ru_cache = cch\<rparr>) (w1\<lparr>sw_disk := d\<rparr>))"

definition main_backends ::
    "('p, 'r, 'd, 't, 'g) program \<Rightarrow> flags \<Rightarrow> settings \<Rightarrow> go_error + (string, reverse_proxy) gomap" where
  "main_backends pg fl opt =
     all_backends (Backend_Create (e_authority (pg_env pg)) (pg_transport pg)) (fl_clientIpHeader fl) (fl_backendIpHeader fl)
       (fl_backends fl) (se_Backends opt)"

definition main_run ::
    "('p, 'r, 'd, 't, 'g) program \<Rightarrow> flags \<Rightarrow> settings \<Rightarrow> 'd \<Rightarrow> (string, 't) gomap \<Rightarrow> sys_world \<Rightarrow>
       (run_result, sys_world) outcome" where
  "main_run pg fl opt0 nets templates w =
     (case load_settings pg fl opt0 of
        Inl e \<Rightarrow> Ret (Fatal e) w
      | Inr opt \<Rightarrow>
          (case parse_seed (seed_value (sy_getenv (pg_sys pg) ''GOAWAY_JWT_PRIVATE_KEY_SEED'')
                  (sy_getenv (pg_sys pg) ''JWT_PRIVATE_KEY_SEED'') (fl_seed fl)) of
             Inl e \<Rightarrow> Ret (Fatal e) w
           | Inr choice \<Rightarrow>
               (if choice = GenerateSeed then
                  (case kl_generate (ni_keys (pg_state pg)) of
                     Inl e \<Rightarrow> Ret (Fatal (Wrap ''failed to generate private key'' e)) w
                   | Inr keys \<Rightarrow> Ret Exited (log_event (Printed (hex_encode (take SeedSize (fst keys)) @ [CHR 0x0A])) w))
                else
                  (case main_backends pg fl opt of
                     Inl e \<Rightarrow> Ret (Fatal e) w
                   | Inr created \<Rightarrow>
                       (case open_cache (pg_sys pg) (fl_cachePath fl) (sw_disk w) of
                          (Inl e, d) \<Rightarrow> Ret (Fatal e) (w\<lparr>sw_disk := d\<rparr>)
                        | (Inr (cch, acmeCache), d) \<Rightarrow>
                            (let w1 = w\<lparr>sw_disk := d\<rparr> in
                             if fl_check fl then
                               (case loadPolicyState pg fl opt created nets
                                       \<lparr>ps_seed = seed_bytes choice, ps_templates = templates, ps_counter = 0\<rparr> of
                                  Panic e ps \<Rightarrow> Panic e w1
                                | Ret (Inl e) ps \<Rightarrow> Ret (Fatal e) w1
                                | Ret (Inr st) ps \<Rightarrow> Ret Exited w1)
                             else serve_start pg opt created (seed_bytes choice) cch acmeCache w1))))))"

section \<open>The loop of loads\<close>

text \<open>
  The loop with its states: they are numbered in the order they are made, the handler and the variable
  are numbers, and a state that is closed says so itself. The objects of the challenges of a state and
  their \<open>Close\<close> are parameters.
\<close>

record ('r, 'd, 't, 'g) server_loop =
  lo_handler :: server_handler
  lo_variable :: "nat option"
  lo_states :: "('r, 'd, 'g) state list"
  lo_process :: "'t process"
  lo_exited :: bool

definition loop_start :: "server \<Rightarrow> 't process \<Rightarrow> ('r, 'd, 't, 'g) server_loop" where
  "loop_start server ps =
     \<lparr>lo_handler = sv_Handler server, lo_variable = None, lo_states = [], lo_process = ps, lo_exited = False\<rparr>"

text \<open>The results of loading: a panic ends the process.\<close>

definition loop_first ::
    "(go_error + ('r, 'd, 'g) state, 't process) outcome \<Rightarrow> ('r, 'd, 't, 'g) server_loop \<Rightarrow> ('r, 'd, 't, 'g) server_loop" where
  "loop_first loaded lo =
     (case loaded of
        Panic e ps \<Rightarrow> lo\<lparr>lo_process := ps, lo_exited := True\<rparr>
      | Ret (Inl e) ps \<Rightarrow> lo\<lparr>lo_process := ps, lo_exited := True\<rparr>
      | Ret (Inr st) ps \<Rightarrow>
          lo\<lparr>lo_handler := PolicyState (length (lo_states lo)), lo_variable := Some (length (lo_states lo)),
             lo_states := lo_states lo @ [st], lo_process := ps\<rparr>)"

definition loop_reload ::
    "('o \<Rightarrow> go_error option) \<Rightarrow> (nat \<Rightarrow> 'o list) \<Rightarrow> (go_error + ('r, 'd, 'g) state, 't process) outcome \<Rightarrow>
       ('r, 'd, 't, 'g) server_loop \<Rightarrow> ('r, 'd, 't, 'g) server_loop" where
  "loop_reload close objects loaded lo =
     (case loaded of
        Panic e ps \<Rightarrow> lo\<lparr>lo_process := ps, lo_exited := True\<rparr>
      | Ret (Inl e) ps \<Rightarrow> lo\<lparr>lo_variable := None, lo_process := ps\<rparr>
      | Ret (Inr st) ps \<Rightarrow>
          (let oldHandler = lo_variable lo; n = length (lo_states lo);
               lo1 = lo\<lparr>lo_variable := Some n, lo_handler := PolicyState n, lo_states := lo_states lo @ [st], lo_process := ps\<rparr>
           in case oldHandler of
                None \<Rightarrow> lo1
              | Some i \<Rightarrow> lo1\<lparr>lo_states := (lo_states lo1)[i := snd (Close close (objects i) (lo_states lo1 ! i))]\<rparr>))"

text \<open>The loop of a program that serves: every load goes through the policy file of that moment.\<close>

inductive loop_reach ::
    "('p, 'r, 'd, 't, 'g) program \<Rightarrow> flags \<Rightarrow> running \<Rightarrow> ('o \<Rightarrow> go_error option) \<Rightarrow> (nat \<Rightarrow> 'o list) \<Rightarrow> 't process \<Rightarrow>
       ('r, 'd, 't, 'g) server_loop \<Rightarrow> bool"
  for pg :: "('p, 'r, 'd, 't, 'g) program" and fl and ru and close :: "'o \<Rightarrow> go_error option" and objects and ps0 where
  loop_begin: "loop_reach pg fl ru close objects ps0 (loop_start (ru_server ru) ps0)"
| loop_load: "lo_states lo = [] \<Longrightarrow> \<not> lo_exited lo \<Longrightarrow> loop_reach pg fl ru close objects ps0 lo \<Longrightarrow>
    loop_reach pg fl ru close objects ps0
      (loop_first (loadPolicyState (pg\<lparr>pg_sys := sy\<rparr>) fl (ru_settings ru) (ru_backends ru) nets (lo_process lo)) lo)"
| loop_signal: "lo_states lo \<noteq> [] \<Longrightarrow> \<not> lo_exited lo \<Longrightarrow> loop_reach pg fl ru close objects ps0 lo \<Longrightarrow>
    loop_reach pg fl ru close objects ps0
      (loop_reload close objects (loadPolicyState (pg\<lparr>pg_sys := sy\<rparr>) fl (ru_settings ru) (ru_backends ru) nets (lo_process lo)) lo)"

section \<open>Lemmas\<close>

subsection \<open>The listener\<close>

definition opened :: "sys_world \<Rightarrow> int" where
  "opened w = int (length (filter (\<lambda>e. case e of Listening n a \<Rightarrow> True | _ \<Rightarrow> False) (sw_log w))) -
     int (length (filter (\<lambda>e. e = ListenerClosed) (sw_log w)))"

lemma opened_log [simp]:
  "opened (log_event (Listening n a) w) = opened w + 1" "opened (log_event ListenerClosed w) = opened w - 1"
  "opened (log_event (Chmod p m) w) = opened w" "opened (log_event (Printed s) w) = opened w"
  "opened (w\<lparr>sw_disk := d\<rparr>) = opened w"
  by (simp_all add: opened_def log_event_def)

lemma log_event_log [simp]: "sw_log (log_event e w) = sw_log w @ [e]" "sw_disk (log_event e w) = sw_disk w"
  by (simp_all add: log_event_def)

lemma setupListener_panics: "setupListener sy n a m p w = Panic e w' \<Longrightarrow> opened w' = opened w"
  by (auto simp: setupListener_def Let_def split: option.splits if_splits)

lemma setupListener_returns:
  assumes "setupListener sy n a m p w = Ret (l, url) w'"
  shows "opened w' = opened w + 1 \<and> l = \<lparr>ls_network = (if n = ''proxy'' then ''tcp'' else n), ls_address = a, ls_proxy = (n = ''proxy'' \<or> p)\<rparr> \<and>
    (if n = ''unix'' then \<exists>mode. ParseOctal m = Some mode \<and> sw_log w' = sw_log w @ [Listening n a, Chmod a (word_of_nat mode)]
     else sw_log w' = sw_log w @ [Listening (if n = ''proxy'' then ''tcp'' else n) a])"
  using assms by (auto simp: setupListener_def Let_def split: option.splits if_splits)

subsection \<open>Octal numbers\<close>

function octal :: "nat \<Rightarrow> string" where
  "octal n = (if n < 8 then [digit_char n] else octal (n div 8) @ [digit_char (n mod 8)])"
  by pat_completeness auto
termination by (relation "measure (\<lambda>n. n)") auto

declare octal.simps [simp del]

lemma parse_octal_append:
  "parse_octal bound n (s @ t) = (case parse_octal bound n s of None \<Rightarrow> None | Some m \<Rightarrow> parse_octal bound m t)"
  by (induction s arbitrary: n) (auto simp: Let_def)

lemma parse_octal_octal: "n < bound \<Longrightarrow> parse_octal bound 0 (octal n) = Some n"
proof (induction n rule: octal.induct)
  case (1 n)
  show ?case
  proof (cases "n < 8")
    case True
    with "1.prems" show ?thesis by (subst octal.simps) simp
  next
    case False
    then have "parse_octal bound 0 (octal (n div 8)) = Some (n div 8)" using "1" by simp
    with False "1.prems" show ?thesis by (subst octal.simps) (simp add: parse_octal_append Let_def)
  qed
qed

lemma ParseOctal_octal: "n < 2 ^ 64 \<Longrightarrow> ParseOctal (CHR ''0'' # octal n) = Some n"
  by (simp add: ParseOctal_def parse_octal_octal is_digit_def digit_value_def)

subsection \<open>The start\<close>

lemma parse_seed_length: "parse_seed k = Inr c \<Longrightarrow> seed_bytes c = [] \<or> length (seed_bytes c) = SeedSize"
  by (auto simp: parse_seed_def seed_bytes_def split: if_splits sum.splits)

lemma all_backends_some: "all_backends create c b ds s = Inr m \<Longrightarrow> m \<noteq> []"
  by (auto simp: all_backends_def Let_def split: sum.splits if_splits)

subsection \<open>The loop\<close>

lemma NewState_open: "NewState io p env0 disk ps = (Inr st, ps') \<Longrightarrow> \<not> st_closed st"
  by (auto simp: NewState_def build_state_def Let_def split: prod.splits sum.splits)

lemma loadPolicyState_open: "loadPolicyState pg fl opt created nets ps = Ret (Inr st) ps' \<Longrightarrow> \<not> st_closed st"
  by (auto simp: loadPolicyState_def dest: NewState_open split: sum.splits option.splits prod.splits)

lemma Close_closed [simp]: "st_closed (snd (Close close obs st))"
  by (simp add: Close_def)

text \<open>The numbers of the states that are not closed, the last first.\<close>

definition open_states :: "('r, 'd, 'g) state list \<Rightarrow> nat list" where
  "open_states sts = rev (filter (\<lambda>i. \<not> st_closed (sts ! i)) [0..<length sts])"

definition abs_loop :: "('r, 'd, 't, 'g) server_loop \<Rightarrow> daemon" where
  "abs_loop lo = \<lparr>dm_handler = lo_handler lo, dm_variable = lo_variable lo, dm_open = open_states (lo_states lo),
     dm_next = length (lo_states lo), dm_exited = lo_exited lo\<rparr>"

lemma open_states_snoc:
  "open_states (sts @ [st]) = (if st_closed st then open_states sts else length sts # open_states sts)"
proof -
  have "filter (\<lambda>i. \<not> st_closed ((sts @ [st]) ! i)) [0..<length sts] = filter (\<lambda>i. \<not> st_closed (sts ! i)) [0..<length sts]"
    by (rule filter_cong) (simp_all add: nth_append)
  then show ?thesis by (simp add: open_states_def)
qed

lemma open_states_close:
  "i < length sts \<Longrightarrow> st_closed st \<Longrightarrow> open_states (sts[i := st]) = filter (\<lambda>j. j \<noteq> i) (open_states sts)"
  by (auto simp: open_states_def rev_filter nth_list_update intro!: filter_cong arg_cong [of _ _ rev])

lemma abs_loop_start:
  "sv_Handler (ru_server ru) = bind_server passthrough \<Longrightarrow> abs_loop (loop_start (ru_server ru) ps) = daemon_start passthrough"
  by (simp add: abs_loop_def loop_start_def daemon_start_def open_states_def)

lemma abs_loop_first:
  assumes "loaded = loadPolicyState pg fl opt created nets ps"
  shows "abs_loop (loop_first loaded lo) =
    (case loaded of Panic e ps \<Rightarrow> (abs_loop lo)\<lparr>dm_exited := True\<rparr> | Ret r ps \<Rightarrow> first_load (\<not> isl r) (abs_loop lo))"
proof (cases loaded)
  case (Panic e ps1)
  then show ?thesis by (simp add: loop_first_def abs_loop_def)
next
  case (Ret r ps1)
  show ?thesis
  proof (cases r)
    case (Inl e)
    with Ret show ?thesis by (simp add: loop_first_def abs_loop_def first_load_def)
  next
    case (Inr st)
    then have "\<not> st_closed st" using loadPolicyState_open Ret assms by metis
    with Ret Inr show ?thesis by (simp add: loop_first_def abs_loop_def first_load_def open_states_snoc)
  qed
qed

lemma abs_loop_reload:
  assumes "loaded = loadPolicyState pg fl opt created nets ps" "\<forall>i. lo_variable lo = Some i \<longrightarrow> i < length (lo_states lo)"
  shows "abs_loop (loop_reload close objects loaded lo) =
    (case loaded of Panic e ps \<Rightarrow> (abs_loop lo)\<lparr>dm_exited := True\<rparr> | Ret r ps \<Rightarrow> reload (\<not> isl r) (abs_loop lo))"
proof (cases loaded)
  case (Panic e ps1)
  then show ?thesis by (simp add: loop_reload_def abs_loop_def)
next
  case (Ret r ps1)
  show ?thesis
  proof (cases r)
    case (Inl e)
    with Ret show ?thesis by (simp add: loop_reload_def abs_loop_def reload_def)
  next
    case (Inr st)
    then have st: "\<not> st_closed st" using loadPolicyState_open Ret assms(1) by metis
    show ?thesis
    proof (cases "lo_variable lo")
      case None
      with Ret Inr st show ?thesis by (simp add: loop_reload_def abs_loop_def reload_def open_states_snoc Let_def)
    next
      case (Some i)
      with assms(2) have "i < Suc (length (lo_states lo))" "i < length (lo_states lo)" by auto
      with Ret Inr st Some show ?thesis
        by (simp add: loop_reload_def abs_loop_def reload_def open_states_snoc Let_def open_states_close)
    qed
  qed
qed

lemma abs_loop_fields [simp]:
  "dm_handler (abs_loop lo) = lo_handler lo" "dm_variable (abs_loop lo) = lo_variable lo"
  "dm_open (abs_loop lo) = open_states (lo_states lo)" "dm_next (abs_loop lo) = length (lo_states lo)"
  "dm_exited (abs_loop lo) = lo_exited lo"
  by (simp_all add: abs_loop_def)

lemma open_states_iff: "n \<in> set (open_states sts) \<longleftrightarrow> n < length sts \<and> \<not> st_closed (sts ! n)"
  by (auto simp: open_states_def)

lemma loop_reach_daemon:
  assumes "loop_reach pg fl ru close objects ps0 lo" "sv_Handler (ru_server ru) = bind_server passthrough"
  shows "\<exists>d. daemon_reach passthrough d \<and> \<not> dm_exited d \<and> abs_loop lo = d\<lparr>dm_exited := lo_exited lo\<rparr> \<or>
    daemon_reach passthrough d \<and> abs_loop lo = d"
  using assms(1)
proof (induction rule: loop_reach.induct)
  case loop_begin
  have "daemon_reach passthrough (daemon_start passthrough)" by (rule daemon_reach.start)
  then show ?case using abs_loop_start [OF assms(2)] by metis
next
  case (loop_load lo sy nets)
  let ?l = "loadPolicyState (pg\<lparr>pg_sys := sy\<rparr>) fl (ru_settings ru) (ru_backends ru) nets (lo_process lo)"
  have a: "abs_loop lo = d \<and> \<not> dm_exited d" if "abs_loop lo = d\<lparr>dm_exited := lo_exited lo\<rparr> \<and> \<not> dm_exited d \<or> abs_loop lo = d" for d
    using that loop_load.hyps(2) by (cases d) (auto simp flip: abs_loop_fields(5))
  then obtain d where d: "daemon_reach passthrough d" "abs_loop lo = d" "\<not> dm_exited d" using loop_load.IH by metis
  have "dm_next d = 0" using d(2) loop_load.hyps(1) by auto
  then have s: "daemon_reach passthrough (first_load ok d)" for ok using daemon_reach.load d by blast
  show ?case
  proof (cases ?l)
    case (Panic e ps)
    then have "abs_loop (loop_first ?l lo) = d\<lparr>dm_exited := True\<rparr>" "lo_exited (loop_first ?l lo)"
      using abs_loop_first [OF refl, of "pg\<lparr>pg_sys := sy\<rparr>" fl "ru_settings ru" "ru_backends ru" nets "lo_process lo" lo] d(2)
      by (simp_all add: loop_first_def)
    then show ?thesis using d(1,3) by metis
  next
    case (Ret r ps)
    then have "abs_loop (loop_first ?l lo) = first_load (\<not> isl r) d"
      using abs_loop_first [OF refl, of "pg\<lparr>pg_sys := sy\<rparr>" fl "ru_settings ru" "ru_backends ru" nets "lo_process lo" lo] d(2)
      by simp
    then show ?thesis using s by metis
  qed
next
  case (loop_signal lo sy nets)
  let ?l = "loadPolicyState (pg\<lparr>pg_sys := sy\<rparr>) fl (ru_settings ru) (ru_backends ru) nets (lo_process lo)"
  have a: "abs_loop lo = d \<and> \<not> dm_exited d" if "abs_loop lo = d\<lparr>dm_exited := lo_exited lo\<rparr> \<and> \<not> dm_exited d \<or> abs_loop lo = d" for d
    using that loop_signal.hyps(2) by (cases d) (auto simp flip: abs_loop_fields(5))
  then obtain d where d: "daemon_reach passthrough d" "abs_loop lo = d" "\<not> dm_exited d" using loop_signal.IH by metis
  have n: "0 < dm_next d" using d(2) loop_signal.hyps(1) by auto
  then have s: "daemon_reach passthrough (reload ok d)" for ok using daemon_reach.signal d by blast
  have v: "\<forall>i. lo_variable lo = Some i \<longrightarrow> i < length (lo_states lo)"
    using daemon_reach_inv [OF d(1)] d(2) by (auto simp: daemon_inv_def)
  note r = abs_loop_reload [OF refl v, of close objects "pg\<lparr>pg_sys := sy\<rparr>" fl "ru_settings ru" "ru_backends ru" nets "lo_process lo"]
  show ?case
  proof (cases ?l)
    case (Panic e ps)
    then have "abs_loop (loop_reload close objects ?l lo) = d\<lparr>dm_exited := True\<rparr>" "lo_exited (loop_reload close objects ?l lo)"
      using r d(2) by (simp_all add: loop_reload_def)
    then show ?thesis using d(1,3) by metis
  next
    case (Ret x ps)
    then have "abs_loop (loop_reload close objects ?l lo) = reload (\<not> isl x) d" using r d(2) by simp
    then show ?thesis using s by metis
  qed
qed

lemma server_tls_fingerprints: "sv_fingerprints (NewServer h t) \<longleftrightarrow> sv_TLSConfig (NewServer h t) \<noteq> None"
  by (simp add: NewServer_def)

lemma Bind_Server_handler:
  "Bind_Server sy b c d = (Inr sv, d') \<Longrightarrow>
     sv_Handler sv = bind_server (bi_Passthrough b) \<and> (sv_fingerprints sv \<longleftrightarrow> sv_TLSConfig sv \<noteq> None)"
  by (auto simp: Bind_Server_def NewServer_def split: prod.splits sum.splits)

lemma serve_start_serving:
  assumes "serve_start pg opt created seed cch acmeCache w = Ret (Serving ru) w'"
  shows "opened w' = opened w + 1 \<and> ru_backends ru = created \<and> ru_seed ru = seed \<and> ru_settings ru = opt \<and>
    sv_Handler (ru_server ru) = bind_server (bi_Passthrough (se_Bind opt)) \<and>
    (sv_fingerprints (ru_server ru) \<longleftrightarrow> sv_TLSConfig (ru_server ru) \<noteq> None)"
proof -
  from assms obtain l url w1 where l: "Bind_Listener (pg_sys pg) (se_Bind opt) w = Ret (l, url) w1"
    by (auto simp: serve_start_def obind_Ret_iff)
  with assms obtain sv d where s: "Bind_Server (pg_sys pg) (se_Bind opt) acmeCache (sw_disk w1) = (Inr sv, d)"
      "ru = \<lparr>ru_server = sv, ru_listener = l, ru_url = url, ru_backends = created, ru_settings = opt, ru_seed = seed, ru_cache = cch\<rparr>"
      "w' = w1\<lparr>sw_disk := d\<rparr>"
    by (auto simp: serve_start_def split: prod.splits sum.splits)
  from setupListener_returns [OF l [unfolded Bind_Listener_def]] Bind_Server_handler [OF s(1)] show ?thesis
    by (simp add: s(2,3))
qed

lemma serve_start_ends:
  "serve_start pg opt created seed cch acmeCache w = Ret Exited w' \<longleftrightarrow> False"
  "serve_start pg opt created seed cch acmeCache w = Panic e w' \<Longrightarrow> opened w' = opened w"
  by (cases "Bind_Listener (pg_sys pg) (se_Bind opt) w";
      auto simp: serve_start_def Bind_Listener_def dest: setupListener_panics split: prod.splits sum.splits)+

lemma main_run_serving:
  assumes "main_run pg fl opt0 nets templates w = Ret (Serving ru) w'"
  shows "\<not> fl_check fl \<and> (\<exists>opt created choice cch acmeCache d k. load_settings pg fl opt0 = Inr opt \<and>
    main_backends pg fl opt = Inr created \<and> parse_seed k = Inr choice \<and>
    serve_start pg opt created (seed_bytes choice) cch acmeCache (w\<lparr>sw_disk := d\<rparr>) = Ret (Serving ru) w')"
  using assms unfolding main_run_def Let_def
  by (auto split: sum.splits if_splits prod.splits outcome.splits)

lemma main_run_exits:
  assumes "main_run pg fl opt0 nets templates w = Ret Exited w'"
  shows "opened w' = opened w"
  using assms unfolding main_run_def Let_def
  by (auto simp: serve_start_ends(1) split: sum.splits if_splits prod.splits outcome.splits)

lemma main_run_panics:
  assumes "main_run pg fl opt0 nets templates w = Panic e w'"
  shows "opened w' = opened w"
  using assms unfolding main_run_def Let_def
  by (auto dest: serve_start_ends(2) split: sum.splits if_splits prod.splits outcome.splits)

section \<open>The claims\<close>


text \<open>
  C18: when the program gets to serve, everything it needs is there: it was not asked to check only, it has a
  backend, its seed is absent or has the length of a seed, one listener has been opened, and its server
  starts with the handler that the pass-through mode asks for and takes fingerprints exactly when it
  speaks TLS. A program that exits or panics leaves no listener open.
\<close>

theorem main_serves_ready:
  "case main_run pg fl opt0 nets templates w of
     Ret (Serving ru) w' \<Rightarrow>
       \<not> fl_check fl \<and> ru_backends ru \<noteq> [] \<and> length (ru_seed ru) \<in> {0, SeedSize} \<and> opened w' = opened w + 1 \<and>
       sv_Handler (ru_server ru) = bind_server (bi_Passthrough (se_Bind (ru_settings ru))) \<and>
       (sv_fingerprints (ru_server ru) \<longleftrightarrow> sv_TLSConfig (ru_server ru) \<noteq> None)
   | Ret Exited w' \<Rightarrow> opened w' = opened w
   | Ret (Fatal e) w' \<Rightarrow> True
   | Panic e w' \<Rightarrow> opened w' = opened w"
proof (cases "main_run pg fl opt0 nets templates w")
  case (Panic e w')
  with main_run_panics [OF Panic] show ?thesis by simp
next
  case (Ret r w')
  show ?thesis
  proof (cases r)
    case (Serving ru)
    with Ret have m: "main_run pg fl opt0 nets templates w = Ret (Serving ru) w'" by simp
    from main_run_serving [OF m] obtain opt created choice cch acmeCache d k where p: "\<not> fl_check fl"
        "main_backends pg fl opt = Inr created" "parse_seed k = Inr choice"
        "serve_start pg opt created (seed_bytes choice) cch acmeCache (w\<lparr>sw_disk := d\<rparr>) = Ret (Serving ru) w'" by blast
    have "created \<noteq> []" using p(2) unfolding main_backends_def by (rule all_backends_some)
    with p(1) serve_start_serving [OF p(4)] parse_seed_length [OF p(3)] show ?thesis by (auto simp: m)
  next
    case Exited
    with Ret main_run_exits [of pg fl opt0 nets templates w w'] show ?thesis by simp
  qed (simp add: Ret)
qed

text \<open>
  C17: the loop of the program implements the abstract loop of loads. However the policy file, the system
  and the lists of networks change between the loads, the handler of the server is a state that was made
  and has not been closed, or, before the first load has succeeded, what the server was bound with; and
  every run of the loop is a run of the abstract one, up to a panic that ends the process.
\<close>

theorem loop_refines_daemon:
  assumes "main_run pg fl opt0 nets templates w = Ret (Serving ru) w'"
    and "loop_reach pg fl ru close objects ps0 lo"
  shows "(\<exists>d x. daemon_reach (bi_Passthrough (se_Bind (ru_settings ru))) d \<and> abs_loop lo = d\<lparr>dm_exited := x\<rparr>) \<and>
    (case lo_handler lo of
       PolicyState n \<Rightarrow> n < length (lo_states lo) \<and> \<not> st_closed (lo_states lo ! n)
     | h \<Rightarrow> h = bind_server (bi_Passthrough (se_Bind (ru_settings ru))) \<and> lo_states lo = [])"
proof -
  let ?pt = "bi_Passthrough (se_Bind (ru_settings ru))"
  have h: "sv_Handler (ru_server ru) = bind_server ?pt"
    using main_run_serving [OF assms(1)] serve_start_serving by metis
  obtain d x where d: "daemon_reach ?pt d" "abs_loop lo = d\<lparr>dm_exited := x\<rparr>"
    using loop_reach_daemon [OF assms(2) h] by (metis daemon.surjective daemon.update_convs(5))
  have "daemon_inv pt (d\<lparr>dm_exited := x\<rparr>) \<longleftrightarrow> daemon_inv pt d" for pt
    by (cases "dm_handler d") (simp_all add: daemon_inv_def)
  then have i: "daemon_inv ?pt (d\<lparr>dm_exited := x\<rparr>)" using daemon_reach_inv [OF d(1)] by simp
  have "daemon_inv ?pt (abs_loop lo)" using i d(2) by simp
  then have "case lo_handler lo of
       PolicyState n \<Rightarrow> n < length (lo_states lo) \<and> \<not> st_closed (lo_states lo ! n)
     | h \<Rightarrow> h = bind_server ?pt \<and> lo_states lo = []"
    by (cases "lo_handler lo") (simp_all add: daemon_inv_def open_states_iff)
  with d show ?thesis by blast
qed

definition test_program :: "(yaml_node option, ip_net list, unit, bytes, unit) program" where
  "test_program = \<lparr>pg_sys = \<lparr>sy_listen = \<lambda>n a. None, sy_chmod = \<lambda>p m. None, sy_mkdir = \<lambda>p d. (None, d), sy_getenv = \<lambda>k. [],
       sy_readfile = \<lambda>f. Inr [], sy_keypair = \<lambda>c k. Inl (Err ''no file''), sy_num_error = \<lambda>s. Err ''syntax'', sy_letsencrypt = []\<rparr>,
     pg_unmarshal = \<lambda>b s. Inr s,
     pg_policy = \<lparr>pi_readdir = \<lambda>d. Inr [], pi_readfile = \<lambda>f. Inr [], pi_decode = \<lambda>fs b p. Inr test_policy\<rparr>,
     pg_state = test_io, pg_env = sample_env, pg_transport = test_transport, pg_main_name = ''m'', pg_main_version = ''v''\<rparr>"

definition test_flags :: flags where
  "test_flags = \<lparr>fl_check = False, fl_clientIpHeader = [], fl_backendIpHeader = [], fl_cachePath = [], fl_policyFile = ''p.yml'',
     fl_policySnippets = [], fl_templateTheme = [], fl_templateLogo = [], fl_basePath = ''/away'', fl_seed = [],
     fl_backends = [''h=http://b''], fl_settingsFile = []\<rparr>"

definition test_world :: sys_world where
  "test_world = \<lparr>sw_log = [], sw_disk = []\<rparr>"

lemma test_main:
  "\<exists>ru w'. main_run test_program test_flags (DefaultSettings []) () templates test_world = Ret (Serving ru) w' \<and>
     se_ChallengeTemplate (ru_settings ru) = ''anubis''"
proof -
  let ?b = "plain_backend ''http://b'' []"
  let ?create = "Backend_Create (\<lambda>h. Inr (None, h)) test_transport"
  have "\<not> isl (url_parse (\<lambda>h. Inr (None, h)) ''http://b'')" by code_simp
  then obtain u where "url_parse (\<lambda>h. Inr (None, h)) ''http://b'' = Inr u" by (cases "url_parse (\<lambda>h. Inr (None, h)) ''http://b''") auto
  then obtain p where p: "?create ?b = Inr p"
    using Backend_Create_ok [of _ ?b u] by (auto simp: plain_backend_def)
  have sp: "Split (CHR ''='') ''h=http://b'' = [''h'', ''http://b'']" by code_simp
  have i: "?b\<lparr>bs_IpHeader := []\<rparr> = ?b" by (simp add: plain_backend_def)
  have all: "all_backends ?create [] [] [''h=http://b''] [] = Inr [(''h'', p)]"
    by (simp add: all_backends_def sp mset_key_def p i)
  define opt where "opt = (DefaultSettings [])\<lparr>se_ChallengeTemplateOverrides :=
      mset_key ''Logo'' [] (mset_key ''Theme'' [] (se_ChallengeTemplateOverrides (DefaultSettings [])))\<rparr>"
  have o: "load_settings test_program test_flags (DefaultSettings []) = Inr opt"
    by (simp add: load_settings_def test_flags_def opt_def)
  have b: "main_backends test_program test_flags opt = Inr [(''h'', p)]"
    using all by (simp add: main_backends_def test_program_def test_flags_def opt_def DefaultSettings_def sample_env_def)
  have k: "parse_seed (seed_value (sy_getenv (pg_sys test_program) ''GOAWAY_JWT_PRIVATE_KEY_SEED'')
      (sy_getenv (pg_sys test_program) ''JWT_PRIVATE_KEY_SEED'') (fl_seed test_flags)) = Inr NoSeed"
    by (simp add: test_program_def test_flags_def seed_value_def parse_seed_def)
  have c: "open_cache (pg_sys test_program) (fl_cachePath test_flags) d = (Inr (None, []), d)" "\<not> fl_check test_flags" for d
    by (simp_all add: test_flags_def open_cache_def)
  obtain ru w' where "serve_start test_program opt [(''h'', p)] [] None [] test_world = Ret (Serving ru) w'"
      "se_ChallengeTemplate (ru_settings ru) = ''anubis''"
    by (simp add: serve_start_def Bind_Listener_def setupListener_def opt_def DefaultSettings_def test_program_def
        Bind_Server_def server_tls_def test_world_def Let_def)
  then show ?thesis
    by (simp add: main_run_def o b k c seed_bytes_def Let_def test_world_def)
qed

theorem loop_refines_daemon_witness:
  "\<exists>ru w' lo. main_run test_program test_flags (DefaultSettings []) () [] test_world = Ret (Serving ru) w' \<and>
     loop_reach test_program test_flags ru (\<lambda>ob. None) (\<lambda>i. [()]) (process_with (replicate 32 7) 0) lo \<and>
     lo_handler lo = PolicyState 0 \<and> \<not> st_closed (lo_states lo ! 0)"
proof -
  obtain ru w' where m: "main_run test_program test_flags (DefaultSettings []) () [] test_world = Ret (Serving ru) w'"
      "se_ChallengeTemplate (ru_settings ru) = ''anubis''"
    using test_main by blast
  let ?ps = "process_with (replicate 32 7) 0"
  obtain st where st: "NewState test_io test_policy (state_env test_program test_flags (ru_settings ru) (ru_backends ru)) () ?ps =
      (Inr st, process_with (replicate 32 0) (0 + 1))"
    using any_test_state [of "replicate 32 7" "state_env test_program test_flags (ru_settings ru) (ru_backends ru)" 0] m(2)
    by (auto simp: state_env_def)
  have f: "sy_readfile (pg_sys test_program) x = Inr []" "pg_state test_program = test_io"
      "NewPolicy (pg_policy test_program) y (fl_policySnippets test_flags) = Some (Inr test_policy)" for x y
    by (simp_all add: test_program_def test_flags_def NewPolicy_def)
  have l: "loadPolicyState test_program test_flags (ru_settings ru) (ru_backends ru) () ?ps = Ret (Inr st) (process_with (replicate 32 0) 1)"
    using st by (simp add: loadPolicyState_def f)
  let ?l0 = "loop_start (ru_server ru) ?ps :: (ip_net list, unit, bytes, unit) server_loop"
  let ?l1 = "loop_first (loadPolicyState (test_program\<lparr>pg_sys := pg_sys test_program\<rparr>) test_flags (ru_settings ru) (ru_backends ru)
      () (lo_process ?l0)) ?l0"
  have r: "loop_reach test_program test_flags ru (\<lambda>ob. None) (\<lambda>i. [()]) ?ps ?l1"
    by (rule loop_load [OF _ _ loop_begin]) (simp_all add: loop_start_def)
  have h: "lo_handler ?l1 = PolicyState 0" using l by (simp add: loop_start_def loop_first_def)
  from loop_refines_daemon [OF m(1) r] h have "\<not> st_closed (lo_states ?l1 ! 0)" by simp
  with m(1) r h show ?thesis by blast
qed

end
