(* ===== verification/Command_Line.thy ===== *)
theory Command_Line
  imports Process "HOL-Library.Sublist"
begin

text \<open>
  The command line (\<open>cmd/go-away/main.go\<close>): the flags of the program with their defaults, and the parser of
  Go's \<open>flag\<close> package that reads them. The loop of the parser is a partial function that takes one
  argument list to the next; that it always ends is a theorem.
\<close>

section \<open>The name of the build\<close>

record build_names =
  bn_cmd :: string
  bn_main :: string
  bn_version :: string

text \<open>The path of the command, the path of the main module and its version, when the build has them.\<close>

definition build_init :: "(string \<times> string \<times> string) option \<Rightarrow> build_names" where
  "build_init info =
     (case info of
        None \<Rightarrow> \<lparr>bn_cmd = ''go-away'', bn_main = ''go-away'', bn_version = ''dev''\<rparr>
      | Some (path, mpath, version) \<Rightarrow> \<lparr>bn_cmd = path, bn_main = mpath, bn_version = version\<rparr>)"

section \<open>The flags\<close>

record cmdline =
  cl_flags :: flags
  cl_settings :: settings
  cl_slogLevel :: string

datatype flag_value = BoolFlag "bool \<Rightarrow> cmdline \<Rightarrow> cmdline" | ValueFlag "string \<Rightarrow> cmdline \<Rightarrow> cmdline"

definition set_bind :: "(bind_settings \<Rightarrow> bind_settings) \<Rightarrow> cmdline \<Rightarrow> cmdline" where
  "set_bind f c = c\<lparr>cl_settings := (cl_settings c)\<lparr>se_Bind := f (se_Bind (cl_settings c))\<rparr>\<rparr>"

definition set_flags :: "(flags \<Rightarrow> flags) \<Rightarrow> cmdline \<Rightarrow> cmdline" where
  "set_flags f c = c\<lparr>cl_flags := f (cl_flags c)\<rparr>"

definition flag_table :: "(string \<times> flag_value) list" where
  "flag_table =
     [(''bind'', ValueFlag (\<lambda>v. set_bind (\<lambda>b. b\<lparr>bi_Address := v\<rparr>))),
      (''bind-network'', ValueFlag (\<lambda>v. set_bind (\<lambda>b. b\<lparr>bi_Network := v\<rparr>))),
      (''bind-proxy'', BoolFlag (\<lambda>v. set_bind (\<lambda>b. b\<lparr>bi_Proxy := v\<rparr>))),
      (''socket-mode'', ValueFlag (\<lambda>v. set_bind (\<lambda>b. b\<lparr>bi_SocketMode := v\<rparr>))),
      (''metrics-bind'', ValueFlag (\<lambda>v c. c\<lparr>cl_settings := (cl_settings c)\<lparr>se_BindMetrics := v\<rparr>\<rparr>)),
      (''debug-bind'', ValueFlag (\<lambda>v c. c\<lparr>cl_settings := (cl_settings c)\<lparr>se_BindDebug := v\<rparr>\<rparr>)),
      (''slog-level'', ValueFlag (\<lambda>v c. c\<lparr>cl_slogLevel := v\<rparr>)),
      (''passthrough'', BoolFlag (\<lambda>v. set_bind (\<lambda>b. b\<lparr>bi_Passthrough := v\<rparr>))),
      (''check'', BoolFlag (\<lambda>v. set_flags (\<lambda>f. f\<lparr>fl_check := v\<rparr>))),
      (''acme-autocert'', ValueFlag (\<lambda>v. set_bind (\<lambda>b. b\<lparr>bi_TLSAcmeAutoCert := v\<rparr>))),
      (''client-ip-header'', ValueFlag (\<lambda>v. set_flags (\<lambda>f. f\<lparr>fl_clientIpHeader := v\<rparr>))),
      (''backend-ip-header'', ValueFlag (\<lambda>v. set_flags (\<lambda>f. f\<lparr>fl_backendIpHeader := v\<rparr>))),
      (''cache'', ValueFlag (\<lambda>v. set_flags (\<lambda>f. f\<lparr>fl_cachePath := v\<rparr>))),
      (''policy'', ValueFlag (\<lambda>v. set_flags (\<lambda>f. f\<lparr>fl_policyFile := v\<rparr>))),
      (''policy-snippets'', ValueFlag (\<lambda>v. set_flags (\<lambda>f. f\<lparr>fl_policySnippets := fl_policySnippets f @ [v]\<rparr>))),
      (''challenge-template'', ValueFlag (\<lambda>v c. c\<lparr>cl_settings := (cl_settings c)\<lparr>se_ChallengeTemplate := v\<rparr>\<rparr>)),
      (''challenge-template-theme'', ValueFlag (\<lambda>v. set_flags (\<lambda>f. f\<lparr>fl_templateTheme := v\<rparr>))),
      (''challenge-template-logo'', ValueFlag (\<lambda>v. set_flags (\<lambda>f. f\<lparr>fl_templateLogo := v\<rparr>))),
      (''path'', ValueFlag (\<lambda>v. set_flags (\<lambda>f. f\<lparr>fl_basePath := v\<rparr>))),
      (''jwt-private-key-seed'', ValueFlag (\<lambda>v. set_flags (\<lambda>f. f\<lparr>fl_seed := v\<rparr>))),
      (''backend'', ValueFlag (\<lambda>v. set_flags (\<lambda>f. f\<lparr>fl_backends := fl_backends f @ [v]\<rparr>))),
      (''config'', ValueFlag (\<lambda>v. set_flags (\<lambda>f. f\<lparr>fl_settingsFile := v\<rparr>)))]"

text \<open>The values of the flags before parsing; the theme and the logo start from the overrides of the settings.\<close>

definition default_cmdline :: "string \<Rightarrow> build_names \<Rightarrow> settings \<Rightarrow> cmdline" where
  "default_cmdline tempDir names opt =
     \<lparr>cl_flags = \<lparr>fl_check = False, fl_clientIpHeader = [], fl_backendIpHeader = [],
        fl_cachePath = path_Join tempDir ''go_away_cache'', fl_policyFile = [], fl_policySnippets = [],
        fl_templateTheme = mget_or [] (se_ChallengeTemplateOverrides opt) ''Theme'',
        fl_templateLogo = mget_or [] (se_ChallengeTemplateOverrides opt) ''Logo'',
        fl_basePath = ''/.well-known/.'' @ bn_cmd names, fl_seed = [], fl_backends = [], fl_settingsFile = []\<rparr>,
      cl_settings = opt, cl_slogLevel = ''WARN''\<rparr>"

section \<open>Parsing\<close>

text \<open>\<open>strconv.ParseBool\<close>.\<close>

definition ParseBool :: "string \<Rightarrow> bool option" where
  "ParseBool s =
     (if s \<in> {''1'', ''t'', ''T'', ''true'', ''TRUE'', ''True''} then Some True
      else if s \<in> {''0'', ''f'', ''F'', ''false'', ''FALSE'', ''False''} then Some False
      else None)"

text \<open>The name and the value of a flag; an equals sign that is the first character is part of the name.\<close>

definition split_flag :: "string \<Rightarrow> string \<times> string option" where
  "split_flag name =
     (if CHR ''='' \<in> set (tl name)
      then (hd name # takeWhile (\<lambda>c. c \<noteq> CHR ''='') (tl name), Some (tl (dropWhile (\<lambda>c. c \<noteq> CHR ''='') (tl name))))
      else (name, None))"

datatype parse_step = Seen "string list" cmdline | Stopped "string list" | Failed go_error | Help

definition parse_flag :: "string \<Rightarrow> string option \<Rightarrow> string list \<Rightarrow> cmdline \<Rightarrow> parse_step" where
  "parse_flag name hasValue args c =
     (case mget flag_table name of
        None \<Rightarrow>
          (if name = ''help'' \<or> name = ''h'' then Help
           else Failed (Err (''flag provided but not defined: -'' @ name)))
      | Some (BoolFlag put) \<Rightarrow>
          (case hasValue of
             None \<Rightarrow> Seen args (put True c)
           | Some v \<Rightarrow>
               (case ParseBool v of
                  None \<Rightarrow> Failed (Err (''invalid boolean value for -'' @ name @ '': parse error''))
                | Some b \<Rightarrow> Seen args (put b c)))
      | Some (ValueFlag put) \<Rightarrow>
          (case (hasValue, args) of
             (Some v, _) \<Rightarrow> Seen args (put v c)
           | (None, v # rest) \<Rightarrow> Seen rest (put v c)
           | (None, []) \<Rightarrow> Failed (Err (''flag needs an argument: -'' @ name))))"

definition parseOne :: "string list \<Rightarrow> cmdline \<Rightarrow> parse_step" where
  "parseOne args c =
     (case args of
        [] \<Rightarrow> Stopped []
      | s # rest \<Rightarrow>
          (if length s < 2 \<or> hd s \<noteq> CHR ''-'' then Stopped args
           else if s = ''--'' then Stopped rest
           else (let name = (if s ! 1 = CHR ''-'' then drop 2 s else drop 1 s)
                 in if name = [] \<or> hd name = CHR ''-'' \<or> hd name = CHR ''='' then Failed (Err (''bad flag syntax: '' @ s))
                    else (case split_flag name of (n, v) \<Rightarrow> parse_flag n v rest c))))"

text \<open>How parsing ends: with an error, with a request for help, or with the arguments that are left.\<close>

datatype parse_result = ParseError go_error | ParseHelp | Parsed "string list" cmdline

partial_function (option) Parse :: "string list \<Rightarrow> cmdline \<Rightarrow> parse_result option" where
  "Parse args c =
     (case parseOne args c of
        Seen args' c' \<Rightarrow> Parse args' c'
      | Stopped rest \<Rightarrow> Some (Parsed rest c)
      | Failed e \<Rightarrow> Some (ParseError e)
      | Help \<Rightarrow> Some ParseHelp)"

text \<open>The program from its arguments; \<open>flag.CommandLine\<close> exits on an error, and the arguments that are left are ignored.\<close>

definition main_args ::
    "('p, 'r, 'd, 't, 'g) program \<Rightarrow> string \<Rightarrow> build_names \<Rightarrow> settings \<Rightarrow> string list \<Rightarrow> 'd \<Rightarrow> (string, 't) gomap \<Rightarrow> sys_world \<Rightarrow>
       (run_result, sys_world) outcome option" where
  "main_args pg tempDir names opt args nets templates w =
     (case Parse args (default_cmdline tempDir names opt) of
        None \<Rightarrow> None
      | Some (ParseError e) \<Rightarrow> Some (Ret (Fatal e) w)
      | Some ParseHelp \<Rightarrow> Some (Ret Exited w)
      | Some (Parsed rest c) \<Rightarrow>
          Some (main_run (pg\<lparr>pg_main_name := bn_main names, pg_main_version := bn_version names\<rparr>)
            (cl_flags c) (cl_settings c) nets templates w))"

section \<open>The parser ends\<close>

declare Parse.simps [simp del]

lemma parse_flag_suffix: "parse_flag name v args c = Seen args' c' \<Longrightarrow> suffix args' args"
  by (auto simp: parse_flag_def suffix_def split: option.splits flag_value.splits if_splits prod.splits list.splits)

lemma parseOne_seen: "parseOne args c = Seen args' c' \<Longrightarrow> \<exists>s rest. args = s # rest \<and> suffix args' rest"
  by (auto simp: parseOne_def Let_def intro: parse_flag_suffix split: list.splits if_splits prod.splits)

lemma parseOne_shorter: "parseOne args c = Seen args' c' \<Longrightarrow> suffix args' args \<and> length args' < length args"
  using parseOne_seen [of args c args' c'] by (auto intro: suffix_ConsI dest: suffix_length_le)

lemma parse_flag_not_stopped: "parse_flag name v args c \<noteq> Stopped rest"
  by (auto simp: parse_flag_def split: option.splits flag_value.splits list.splits)

lemma parseOne_stopped: "parseOne args c = Stopped rest \<Longrightarrow> suffix rest args"
  by (auto simp: parseOne_def Let_def parse_flag_not_stopped split: list.splits if_splits prod.splits intro: suffix_ConsI)

lemma Parse_ends:
  "\<exists>result. Parse args c = Some result \<and>
     (case result of Parsed rest c' \<Rightarrow> suffix rest args | _ \<Rightarrow> True)"
proof (induction args arbitrary: c rule: length_induct)
  case (1 args)
  show ?case
  proof (cases "parseOne args c")
    case (Seen args' c')
    then have s: "suffix args' args" "length args' < length args" using parseOne_shorter by blast+
    with "1.IH" obtain r where r: "Parse args' c' = Some r" "case r of Parsed rest c' \<Rightarrow> suffix rest args' | _ \<Rightarrow> True" by blast
    have "case r of Parsed rest c' \<Rightarrow> suffix rest args | _ \<Rightarrow> True"
      using r(2) s(1) by (cases r) (auto dest: suffix_order.trans)
    with r(1) Seen show ?thesis by (subst Parse.simps) simp
  next
    case (Stopped rest)
    then show ?thesis using parseOne_stopped [OF Stopped] by (subst Parse.simps) simp
  qed (subst Parse.simps; simp)+
qed

section \<open>Spelling the flags\<close>

datatype spelling = OneDash | TwoDashes | Separate

fun spell :: "spelling \<times> string \<times> string \<Rightarrow> string list" where
  "spell (OneDash, n, v) = [''-'' @ n @ ''='' @ v]"
| "spell (TwoDashes, n, v) = [''--'' @ n @ ''='' @ v]"
| "spell (Separate, n, v) = [''-'' @ n, v]"

text \<open>What a flag with a value sets, when it takes the value.\<close>

definition assign :: "string \<Rightarrow> string \<Rightarrow> cmdline \<Rightarrow> cmdline option" where
  "assign n v c =
     (case mget flag_table n of
        None \<Rightarrow> None
      | Some (BoolFlag put) \<Rightarrow> (case ParseBool v of None \<Rightarrow> None | Some b \<Rightarrow> Some (put b c))
      | Some (ValueFlag put) \<Rightarrow> Some (put v c))"

fun assign_all :: "(spelling \<times> string \<times> string) list \<Rightarrow> cmdline \<Rightarrow> cmdline option" where
  "assign_all [] c = Some c"
| "assign_all ((sp, n, v) # as) c = (case assign n v c of None \<Rightarrow> None | Some c' \<Rightarrow> assign_all as c')"

text \<open>A flag that is a boolean cannot take its value from the next argument.\<close>

definition can_spell :: "spelling \<times> string \<times> string \<Rightarrow> bool" where
  "can_spell a \<longleftrightarrow> (case a of (sp, n, v) \<Rightarrow> sp = Separate \<longrightarrow> (\<exists>put. mget flag_table n = Some (ValueFlag put)))"

definition name_ok :: "string \<Rightarrow> bool" where
  "name_ok n \<longleftrightarrow> n \<noteq> [] \<and> hd n \<noteq> CHR ''-'' \<and> CHR ''='' \<notin> set n"

lemma table_names: "mget flag_table n = Some f \<Longrightarrow> name_ok n"
proof -
  assume "mget flag_table n = Some f"
  then have "(n, f) \<in> set flag_table" unfolding mget_def by (rule map_of_SomeD)
  moreover have "list_all name_ok (map fst flag_table)" by (simp add: flag_table_def name_ok_def)
  ultimately show ?thesis by (auto simp: list_all_iff)
qed

lemma split_flag_plain: "name_ok n \<Longrightarrow> split_flag n = (n, None)"
  by (cases n) (auto simp: name_ok_def split_flag_def)

lemma split_flag_value: "name_ok n \<Longrightarrow> split_flag (n @ CHR ''='' # v) = (n, Some v)"
  by (cases n) (auto simp: name_ok_def split_flag_def takeWhile_append dropWhile_append)

lemma name_ok_hd: "name_ok n \<Longrightarrow> \<exists>a as. n = a # as \<and> a \<noteq> CHR ''-'' \<and> a \<noteq> CHR ''=''"
  by (cases n) (auto simp: name_ok_def)

lemma parseOne_spell:
  assumes "assign n v c = Some c'" "can_spell (sp, n, v)"
  shows "parseOne (spell (sp, n, v) @ rest) c = Seen rest c'"
proof -
  obtain f where f: "mget flag_table n = Some f" using assms(1) by (cases "mget flag_table n") (simp_all add: assign_def)
  then have n: "name_ok n" by (rule table_names)
  obtain a as where as: "n = a # as" "a \<noteq> CHR ''-''" "a \<noteq> CHR ''=''" using name_ok_hd [OF n] by blast
  have sv: "split_flag (a # as @ CHR ''='' # v) = (n, Some v)" using split_flag_value [OF n, of v] by (simp add: as(1))
  have sp': "split_flag (a # as) = (n, None)" using split_flag_plain [OF n] by (simp add: as(1))
  have p: "parse_flag n (Some v) rest c = Seen rest c'"
    using assms(1) f by (cases f) (auto simp: assign_def parse_flag_def split: option.splits)
  show ?thesis
  proof (cases sp)
    case Separate
    then obtain put where "f = ValueFlag put" using assms(2) f by (auto simp: can_spell_def)
    then have "parse_flag n None (v # rest) c = Seen rest c'" using assms(1) f by (simp add: assign_def parse_flag_def)
    then show ?thesis using Separate as sp' by (simp add: parseOne_def)
  qed (use as sv p in \<open>simp_all add: parseOne_def\<close>)
qed



text \<open>A boolean flag that is given its value as an argument of its own ends the parsing: what follows is ignored.\<close>

lemma bool_value_stops:
  assumes "mget flag_table n = Some (BoolFlag put)" "hd v \<noteq> CHR ''-''"
  shows "Parse ((''-'' @ n) # v # rest) c = Some (Parsed (v # rest) (put True c))"
proof -
  have n: "name_ok n" using assms(1) by (rule table_names)
  obtain a as where as: "n = a # as" "a \<noteq> CHR ''-''" "a \<noteq> CHR ''=''" using name_ok_hd [OF n] by blast
  have "parseOne ((''-'' @ n) # v # rest) c = Seen (v # rest) (put True c)"
    using split_flag_plain [OF n] as assms(1) by (simp add: parseOne_def parse_flag_def)
  moreover have "parseOne (v # rest) (put True c) = Stopped (v # rest)" using assms(2) by (simp add: parseOne_def)
  ultimately show ?thesis by (simp add: Parse.simps)
qed


end
