(* ===== verification/Metrics.thy ===== *)
theory Metrics
  imports Startup "HOL-Library.Multiset"
begin

text \<open>
  The counters that the program exports (\<open>lib/metrics.go\<close>) and the accessors of the state that the
  challenges use (\<open>lib/interface.go\<close>). The counter vectors belong to the Prometheus client: they are
  parameters, with the part of their documentation that the program relies on as \<open>counter_laws\<close>.
\<close>

section \<open>The counters\<close>

type_synonym labels = "(string \<times> string) list"

text \<open>
  The operations of a vector of counters; a left value is a panic. \<open>With\<close> panics when the labels are not
  the ones the vector was made with, \<open>promauto.NewCounterVec\<close> when the vector cannot be registered.
\<close>

record 'c counter_lib =
  cl_new :: "string \<Rightarrow> string \<Rightarrow> string list \<Rightarrow> go_error + 'c"
  cl_inc :: "labels \<Rightarrow> 'c \<Rightarrow> go_error + 'c"
  cl_reset :: "'c \<Rightarrow> 'c"
  cl_value :: "'c \<Rightarrow> labels \<Rightarrow> nat"
  cl_names :: "'c \<Rightarrow> string list"

record 'c stateMetrics =
  sm_rules :: 'c
  sm_actions :: 'c
  sm_challenges :: 'c

definition newMetrics :: "'c counter_lib \<Rightarrow> go_error + 'c stateMetrics" where
  "newMetrics lib =
     (case cl_new lib ''go-away_rule_results'' ''The number of rule hits or misses'' [''rule'', ''result''] of
        Inl e \<Rightarrow> Inl e
      | Inr rules \<Rightarrow>
          (case cl_new lib ''go-away_action_results'' ''The number of each action issued'' [''action''] of
             Inl e \<Rightarrow> Inl e
           | Inr actions \<Rightarrow>
               (case cl_new lib ''go-away_challenge_results''
                       ''The number of challenges issued, passed or explicitly failed'' [''challenge'', ''action''] of
                  Inl e \<Rightarrow> Inl e
                | Inr challenges \<Rightarrow> Inr \<lparr>sm_rules = rules, sm_actions = actions, sm_challenges = challenges\<rparr>)))"

definition metrics_Rule :: "'c counter_lib \<Rightarrow> string \<Rightarrow> string \<Rightarrow> 'c stateMetrics \<Rightarrow> go_error + 'c stateMetrics" where
  "metrics_Rule lib name result m =
     (case cl_inc lib [(''rule'', name), (''result'', result)] (sm_rules m) of
        Inl e \<Rightarrow> Inl e | Inr c \<Rightarrow> Inr (m\<lparr>sm_rules := c\<rparr>))"

definition metrics_Action :: "'c counter_lib \<Rightarrow> string \<Rightarrow> 'c stateMetrics \<Rightarrow> go_error + 'c stateMetrics" where
  "metrics_Action lib action m =
     (case cl_inc lib [(''action'', action)] (sm_actions m) of
        Inl e \<Rightarrow> Inl e | Inr c \<Rightarrow> Inr (m\<lparr>sm_actions := c\<rparr>))"

definition metrics_Challenge :: "'c counter_lib \<Rightarrow> string \<Rightarrow> string \<Rightarrow> 'c stateMetrics \<Rightarrow> go_error + 'c stateMetrics" where
  "metrics_Challenge lib name result m =
     (case cl_inc lib [(''challenge'', name), (''action'', result)] (sm_challenges m) of
        Inl e \<Rightarrow> Inl e | Inr c \<Rightarrow> Inr (m\<lparr>sm_challenges := c\<rparr>))"

definition metrics_Reset :: "'c counter_lib \<Rightarrow> 'c stateMetrics \<Rightarrow> 'c stateMetrics" where
  "metrics_Reset lib m =
     \<lparr>sm_rules = cl_reset lib (sm_rules m), sm_actions = cl_reset lib (sm_actions m),
      sm_challenges = cl_reset lib (sm_challenges m)\<rparr>"

text \<open>The callbacks of the state record what they count; this is the call that each of them makes.\<close>

fun metrics_count :: "'c counter_lib \<Rightarrow> metric \<Rightarrow> 'c stateMetrics \<Rightarrow> go_error + 'c stateMetrics" where
  "metrics_count lib (MetricRule name result) m = metrics_Rule lib name result m"
| "metrics_count lib (MetricAction action) m = metrics_Action lib action m"
| "metrics_count lib (MetricChallenge name result) m = metrics_Challenge lib name result m"

fun metrics_all :: "'c counter_lib \<Rightarrow> metric list \<Rightarrow> 'c stateMetrics \<Rightarrow> go_error + 'c stateMetrics" where
  "metrics_all lib [] m = Inr m"
| "metrics_all lib (x # xs) m =
     (case metrics_count lib x m of Inl e \<Rightarrow> Inl e | Inr m1 \<Rightarrow> metrics_all lib xs m1)"

text \<open>What \<open>/metrics\<close> shows for a counted event.\<close>

fun metrics_value :: "'c counter_lib \<Rightarrow> 'c stateMetrics \<Rightarrow> metric \<Rightarrow> nat" where
  "metrics_value lib m (MetricRule name result) = cl_value lib (sm_rules m) [(''rule'', name), (''result'', result)]"
| "metrics_value lib m (MetricAction action) = cl_value lib (sm_actions m) [(''action'', action)]"
| "metrics_value lib m (MetricChallenge name result) =
     cl_value lib (sm_challenges m) [(''challenge'', name), (''action'', result)]"

text \<open>
  The documented behaviour of counters: an increment with the right labels adds one to the counter of those
  labels and to no other, a reset and a new vector have nothing counted.
\<close>

definition counter_laws :: "'c counter_lib \<Rightarrow> bool" where
  "counter_laws lib \<longleftrightarrow>
     (\<forall>name help names c ls. cl_new lib name help names = Inr c \<longrightarrow> cl_names lib c = names \<and> cl_value lib c ls = 0) \<and>
     (\<forall>c ls. map fst ls = cl_names lib c \<longrightarrow>
        (\<exists>c'. cl_inc lib ls c = Inr c' \<and> cl_names lib c' = cl_names lib c \<and>
           cl_value lib c' = (cl_value lib c)(ls := Suc (cl_value lib c ls)))) \<and>
     (\<forall>c ls. cl_names lib (cl_reset lib c) = cl_names lib c \<and> cl_value lib (cl_reset lib c) ls = 0)"

section \<open>The accessors of the state\<close>

definition state_PrivateKey :: "('r, 'd, 'g) state \<Rightarrow> bytes" where
  "state_PrivateKey st = e_private_key (st_env st)"

definition state_PrivateKeyFingerprint :: "('r, 'd, 'g) state \<Rightarrow> bytes" where
  "state_PrivateKeyFingerprint st = e_fingerprint (st_env st)"

definition state_UrlPath :: "('r, 'd, 'g) state \<Rightarrow> string" where
  "state_UrlPath st = e_url_path (st_env st)"

definition state_GetChallenges :: "('r, 'd, 'g) state \<Rightarrow> register" where
  "state_GetChallenges st = e_challenges (st_env st)"

definition state_GetChallenge :: "('r, 'd, 'g) state \<Rightarrow> int \<Rightarrow> registration option" where
  "state_GetChallenge st i = mget (state_GetChallenges st) i"

definition state_GetChallengeByName :: "('r, 'd, 'g) state \<Rightarrow> string \<Rightarrow> registration option" where
  "state_GetChallengeByName st name = map_option fst (GetByName (state_GetChallenges st) name)"

section \<open>Lemmas\<close>

text \<open>The three vectors have the labels that the calls use.\<close>

definition metrics_ok :: "'c counter_lib \<Rightarrow> 'c stateMetrics \<Rightarrow> bool" where
  "metrics_ok lib m \<longleftrightarrow> cl_names lib (sm_rules m) = [''rule'', ''result''] \<and>
     cl_names lib (sm_actions m) = [''action''] \<and> cl_names lib (sm_challenges m) = [''challenge'', ''action'']"

lemma inc_law:
  assumes "counter_laws lib" "map fst ls = cl_names lib c"
  shows "\<exists>c'. cl_inc lib ls c = Inr c' \<and> cl_names lib c' = cl_names lib c \<and>
    (\<forall>ls'. cl_value lib c' ls' = cl_value lib c ls' + (if ls' = ls then 1 else 0))"
proof -
  obtain c' where "cl_inc lib ls c = Inr c'" "cl_names lib c' = cl_names lib c"
      "cl_value lib c' = (cl_value lib c)(ls := Suc (cl_value lib c ls))"
    using assms unfolding counter_laws_def by blast
  then show ?thesis by simp
qed

lemma new_law:
  "counter_laws lib \<Longrightarrow> cl_new lib name help names = Inr c \<Longrightarrow> cl_names lib c = names \<and> cl_value lib c ls = 0"
  unfolding counter_laws_def by blast

lemma reset_law [simp]:
  assumes "counter_laws lib"
  shows "cl_names lib (cl_reset lib c) = cl_names lib c" "cl_value lib (cl_reset lib c) ls = 0"
  using assms unfolding counter_laws_def by blast+

lemma newMetrics_ok:
  assumes "counter_laws lib" "newMetrics lib = Inr m"
  shows "metrics_ok lib m \<and> metrics_value lib m x = 0"
  using assms(2) by (cases x) (auto simp: newMetrics_def metrics_ok_def new_law [OF assms(1)] split: sum.splits)

lemma metrics_Reset_ok:
  assumes "counter_laws lib" "metrics_ok lib m"
  shows "metrics_ok lib (metrics_Reset lib m) \<and> metrics_value lib (metrics_Reset lib m) x = 0"
  using assms by (cases x) (auto simp: metrics_Reset_def metrics_ok_def)

text \<open>The value of an event is a case distinction.\<close>

lemma metrics_value_same:
  "metrics_value lib m y =
     (case y of MetricRule name result \<Rightarrow> cl_value lib (sm_rules m) [(''rule'', name), (''result'', result)]
      | MetricAction action \<Rightarrow> cl_value lib (sm_actions m) [(''action'', action)]
      | MetricChallenge name result \<Rightarrow> cl_value lib (sm_challenges m) [(''challenge'', name), (''action'', result)])"
  by (cases y) simp_all

lemma metrics_count_ok:
  assumes l: "counter_laws lib" and m: "metrics_ok lib m"
  shows "\<exists>m'. metrics_count lib x m = Inr m' \<and> metrics_ok lib m' \<and>
    (\<forall>y. metrics_value lib m' y = metrics_value lib m y + (if y = x then 1 else 0))"
proof (cases x)
  case (MetricRule name result)
  show ?thesis
    using inc_law [OF l, of "[(''rule'', name), (''result'', result)]" "sm_rules m"] m
    by (auto simp: MetricRule metrics_Rule_def metrics_ok_def metrics_value_same split: metric.splits)
next
  case (MetricAction action)
  show ?thesis
    using inc_law [OF l, of "[(''action'', action)]" "sm_actions m"] m
    by (auto simp: MetricAction metrics_Action_def metrics_ok_def metrics_value_same split: metric.splits)
next
  case (MetricChallenge name result)
  show ?thesis
    using inc_law [OF l, of "[(''challenge'', name), (''action'', result)]" "sm_challenges m"] m
    by (auto simp: MetricChallenge metrics_Challenge_def metrics_ok_def metrics_value_same split: metric.splits)
qed

lemma metrics_all_ok:
  assumes "counter_laws lib" "metrics_ok lib m"
  shows "\<exists>m'. metrics_all lib xs m = Inr m' \<and> metrics_ok lib m' \<and>
    (\<forall>y. metrics_value lib m' y = metrics_value lib m y + count (mset xs) y)"
  using assms(2)
proof (induction xs arbitrary: m)
  case (Cons x xs)
  obtain m1 where m1: "metrics_count lib x m = Inr m1" "metrics_ok lib m1"
      "\<forall>y. metrics_value lib m1 y = metrics_value lib m y + (if y = x then 1 else 0)"
    using metrics_count_ok [OF assms(1) Cons.prems, of x] by blast
  obtain m2 where "metrics_all lib xs m1 = Inr m2" "metrics_ok lib m2"
      "\<forall>y. metrics_value lib m2 y = metrics_value lib m1 y + count (mset xs) y"
    using Cons.IH [OF m1(2)] by blast
  then show ?case using m1 by auto
qed simp

section \<open>The properties\<close>

text \<open>
  C34: the counters show what happened since the state was made, in whatever order. From the counters of
  the process, a reset (which making a state begins with) and then the events of any requests, counted in
  any interleaving of them, never panic, and each counter then is the number of those events.
\<close>

theorem counters_count_events:
  assumes "counter_laws lib" "newMetrics lib = Inr m0" "metrics_all lib before m0 = Inr m1"
    and "mset xs = mset (concat requests)"
  shows "\<exists>m2. metrics_all lib xs (metrics_Reset lib m1) = Inr m2 \<and>
    (\<forall>x. metrics_value lib m2 x = sum_list (map (\<lambda>r. count (mset r) x) requests))"
proof -
  have "metrics_ok lib m1"
    using metrics_all_ok [OF assms(1), of m0 before] newMetrics_ok [OF assms(1,2)] assms(3) by auto
  then have "metrics_ok lib (metrics_Reset lib m1)" and z: "metrics_value lib (metrics_Reset lib m1) x = 0" for x
    using metrics_Reset_ok [OF assms(1)] by blast+
  then obtain m2 where m2: "metrics_all lib xs (metrics_Reset lib m1) = Inr m2"
      "\<forall>y. metrics_value lib m2 y = count (mset xs) y"
    using metrics_all_ok [OF assms(1), of "metrics_Reset lib m1" xs] by auto
  have "count (mset (concat requests)) x = sum_list (map (\<lambda>r. count (mset r) x) requests)" for x
    by (induction requests) simp_all
  with m2 assms(4) show ?thesis by auto
qed

text \<open>Counters that satisfy the laws: the label names with the list of everything that was counted.\<close>

definition list_counters :: "(string list \<times> labels list) counter_lib" where
  "list_counters =
     \<lparr>cl_new = \<lambda>name help names. Inr (names, []),
      cl_inc = \<lambda>ls (names, xs). if map fst ls = names then Inr (names, ls # xs) else Inl (Err ''inconsistent label cardinality''),
      cl_reset = \<lambda>(names, xs). (names, []), cl_value = \<lambda>(names, xs) ls. length (filter (\<lambda>x. x = ls) xs),
      cl_names = fst\<rparr>"

lemma list_counters_laws: "counter_laws list_counters"
  by (auto simp: counter_laws_def list_counters_def fun_eq_iff split: prod.splits)

theorem counters_count_events_witness:
  "\<exists>m0 m2. newMetrics list_counters = Inr m0 \<and>
     metrics_all list_counters [MetricAction ''PASS''] (metrics_Reset list_counters m0) = Inr m2 \<and>
     metrics_value list_counters m2 (MetricAction ''PASS'') = 1"
proof -
  obtain m0 where m0: "newMetrics list_counters = Inr m0" by (simp add: newMetrics_def list_counters_def)
  have n: "metrics_all list_counters [] m0 = Inr m0" by simp
  obtain m2 where a: "metrics_all list_counters [MetricAction ''PASS''] (metrics_Reset list_counters m0) = Inr m2"
      and v: "\<forall>x. metrics_value list_counters m2 x = sum_list (map (\<lambda>r. count (mset r) x) [[MetricAction ''PASS'']])"
    using counters_count_events [OF list_counters_laws m0 n, of "[MetricAction ''PASS'']" "[[MetricAction ''PASS'']]"] by auto
  have "metrics_value list_counters m2 (MetricAction ''PASS'') = 1"
    using v [rule_format, of "MetricAction ''PASS''"] by (simp del: metrics_value.simps)
  with m0 a show ?thesis by blast
qed

text \<open>
  The two ways to a challenge agree: in a state that was made from a policy, the challenges that the
  accessors find by name are those of the policy, and each is also found by its own identifier.
\<close>

lemma state_challenge_agrees:
  assumes "register_inv c (state_GetChallenges st)" "state_GetChallengeByName st name = Some reg"
  shows "reg_name reg = name \<and> state_GetChallenge st (reg_id reg) = Some reg"
proof -
  obtain i where i: "GetByName (state_GetChallenges st) name = Some (reg, i)"
    using assms(2) by (auto simp: state_GetChallengeByName_def)
  have "wf_map (state_GetChallenges st)" using assms(1) by (simp add: register_inv_def)
  from GetByName_Some [OF this i] show ?thesis
    using assms(1) by (auto simp: register_inv_def state_GetChallenge_def)
qed

end
