(* ===== verification/Texts.thy ===== *)
theory Texts
  imports Process
begin

text \<open>
  The texts of the pages (\<open>lib/settings/strings.go\<close>, \<open>utils/strings.go\<close>): the default texts, and that the
  pages, the templates and the script find the texts they ask for.
\<close>

section \<open>The default texts\<close>

text \<open>Lines with a newline between them, as in a raw string of the source.\<close>

definition lines :: "string list \<Rightarrow> string" where
  "lines ls = Join [CHR 0x0A] ls"

definition NewStrings :: "(string \<times> string) list \<Rightarrow> (string, string) gomap" where
  "NewStrings v = fold (\<lambda>(k, x). mset_key k x) v []"

definition DefaultStrings :: "(string, string) gomap" where
  "DefaultStrings = NewStrings
    [(''title_challenge'', ''Checking you are not a bot''),
     (''title_error'', ''Oh no!''),
     (''noscript_warning'', ''<p>Sadly, you may need to enable JavaScript to get past this challenge. This is required because AI companies have changed the social contract around how website hosting works.</p>''),
     (''details_title'', ''Why am I seeing this?''),
     (''details_text'', lines
      [[],
       ''<p>'',
       ''    You are seeing this page because this website is protected by a Web Application Firewall (WAF) '',
       ''    designed to mitigate malicious scanning, automated vulnerability probing, and malware distribution.'',
       ''</p>'',
       ''<p>'',
       ''    Automated mass scanning and aggressive request volumes can degrade server performance, '',
       ''    causing downtime and making resources inaccessible for legitimate visitors.'',
       ''</p>'',
       ''<p>'',
       ''    <strong>Note:</strong> Security verification challenges require modern JavaScript features. '',
       ''    If you are experiencing issues, please ensure security plugins that disable JavaScript '',
       ''    (such as JShelter) are temporarily paused or whitelisted for this domain.'',
       ''</p>'',
       []]),
     (''details_contact_admin_with_request_id'', ''If you have any issues contact the site administrator and provide the following Request Id''),
     (''button_refresh_page'', ''Refresh page''),
     (''status_loading_challenge'', ''Loading challenge''),
     (''status_starting_challenge'', ''Starting challenge''),
     (''status_loading'', ''Loading...''),
     (''status_calculating'', ''Calculating...''),
     (''status_challenge_success'', ''Challenge success!''),
     (''status_challenge_done_took'', ''Done! Took''),
     (''status_error'', ''Error:'')]"

text \<open>The settings that the program starts from.\<close>

definition default_settings :: settings where
  "default_settings = DefaultSettings DefaultStrings"

section \<open>The texts that are used\<close>

text \<open>
  The names of the texts in \<open>lib/template.go\<close>, in the templates under \<open>embed/templates\<close> and in
  \<open>lib/challenge/script.mjs\<close>.
\<close>

definition used_texts :: "string list" where
  "used_texts =
    [''button_refresh_page'',
     ''details_contact_admin_with_request_id'',
     ''details_text'',
     ''details_title'',
     ''noscript_warning'',
     ''status_calculating'',
     ''status_challenge_done_took'',
     ''status_challenge_success'',
     ''status_error'',
     ''status_loading'',
     ''status_loading_challenge'',
     ''status_starting_challenge'',
     ''title_error'',
     ''title_challenge'']"

definition has_text :: "(string, string) gomap \<Rightarrow> string \<Rightarrow> bool" where
  "has_text s k \<longleftrightarrow> mget s k \<noteq> None"

lemma mget_fold_set:
  "mget (fold (\<lambda>(k, x). mset_key k x) v m) k =
     (case map_of (rev v) k of Some x \<Rightarrow> Some x | None \<Rightarrow> mget m k)"
  by (induction v arbitrary: m) (auto simp: map_add_def map_of_append split: option.split)

lemma mget_NewStrings: "mget (NewStrings v) k = map_of (rev v) k"
  by (simp add: NewStrings_def mget_fold_set split: option.split)

lemma mget_merge_None: "mget src k = None \<Longrightarrow> mget (merge dst src) k = mget dst k"
proof -
  assume "mget src k = None"
  then have "map_of (rev src) k = None" by (simp add: mget_def map_of_eq_None_iff)
  then show "mget (merge dst src) k = mget dst k" by (simp add: merge_def mget_fold_set)
qed

lemma strings_Get_fallback: "\<not> has_text s k \<Longrightarrow> strings_Get s k = ''string:'' @ k"
  by (simp add: strings_Get_def has_text_def)

text \<open>The default texts are complete: nothing that the pages, the templates or the script ask for falls back.\<close>

lemma default_texts_complete: "list_all (has_text DefaultStrings) used_texts"
  unfolding list_all_iff used_texts_def
  by (simp add: has_text_def DefaultStrings_def mget_NewStrings)

lemma default_error_title:
  assumes "e_strings env = DefaultStrings" "mget (e_overrides env) ''Title'' = None"
  shows "mget (error_input env status err redirect w) ''Title'' = Some (TSafe (''Oh no! '' @ StatusText status))"
proof -
  have "strings_Get DefaultStrings ''title_error'' = ''Oh no!''"
    by (simp add: strings_Get_def DefaultStrings_def mget_NewStrings)
  moreover have "mget (overrides env) ''Title'' = None"
    using assms(2) by (auto simp: overrides_def mget_def map_of_map)
  ultimately show ?thesis by (simp add: error_input_def assms(1) mget_merge_None mget_Cons)
qed

end
