(* ===== verification/Pow.thy ===== *)
theory Pow
  imports Hex Mime Strconv Context
begin

unbundle bit_operations_syntax

text \<open>
  The proof of work of the JavaScript challenge (\<open>embed/challenge/js-pow-sha256/runtime/runtime.go\<close>), with the
  comparison that the client makes (\<open>static/load.mjs\<close>). The program is compiled by TinyGo for 32-bit
  WebAssembly, so an \<open>int\<close> has 32 bits.
\<close>

section \<open>The input and the output of the module\<close>

record MakeChallengeInput =
  mci_key :: bytes
  mci_params :: "(string, string) gomap"
  mci_headers :: header
  mci_data :: bytes

record MakeChallengeOutput =
  mco_data :: bytes
  mco_code :: int
  mco_headers :: header
  mco_error :: string

record VerifyChallengeInput =
  vci_key :: bytes
  vci_params :: "(string, string) gomap"
  vci_result :: bytes

text \<open>The hash, and the error that \<open>strconv.ParseUint\<close> returns for a text it cannot read.\<close>

record pow_lib =
  pl_sha256 :: "bytes \<Rightarrow> bytes"
  pl_parse_error :: "string \<Rightarrow> go_error"

section \<open>The challenge\<close>

definition le_bytes64 :: "64 word \<Rightarrow> bytes" where
  "le_bytes64 w = rev (be_bytes 8 w)"

text \<open>A left value is a panic.\<close>

definition getChallenge :: "pow_lib \<Rightarrow> bytes \<Rightarrow> (string, string) gomap \<Rightarrow> go_error + (bytes \<times> 64 word)" where
  "getChallenge lib k params =
     (case (case mget params ''difficulty'' of
              None \<Rightarrow> Inr 20
            | Some s \<Rightarrow> (case ParseUint 64 s of None \<Rightarrow> Inl (pl_parse_error lib s) | Some n \<Rightarrow> Inr (word_of_nat n))) of
        Inl e \<Rightarrow> Inl e
      | Inr difficulty \<Rightarrow> Inr (pl_sha256 lib (le_bytes64 difficulty @ k), difficulty))"

text \<open>The inner loop shifts in eight bits, ones once the difficulty is used up.\<close>

fun target_byte :: "nat \<Rightarrow> 64 word \<Rightarrow> byte \<Rightarrow> byte \<times> 64 word" where
  "target_byte 0 nBits v = (v, nBits)"
| "target_byte (Suc j) nBits v =
     (let v = push_bit 1 v in
      if nBits = 0 then target_byte j nBits (v OR 1) else target_byte j (nBits - 1) v)"

fun target_bytes :: "nat \<Rightarrow> 64 word \<Rightarrow> bytes" where
  "target_bytes 0 nBits = []"
| "target_bytes (Suc i) nBits = (case target_byte 8 nBits 0 of (v, rest) \<Rightarrow> v # target_bytes i rest)"

definition hex_text :: "bytes \<Rightarrow> string option" where
  "hex_text src =
     map_option (\<lambda>(dst, n). string_of (take n dst)) (Encode (replicate (EncodedLen (length src)) 0) src)"

text \<open>
  The callback of \<open>MakeChallenge\<close> on the output it is given; a left value is a panic. The writes past
  the end of a slice, which the slices exclude, would be one too.
\<close>

definition make_challenge :: "pow_lib \<Rightarrow> MakeChallengeInput \<Rightarrow> MakeChallengeOutput \<Rightarrow> go_error + MakeChallengeOutput" where
  "make_challenge lib i out =
     (case getChallenge lib (mci_key i) (mci_params i) of
        Inl e \<Rightarrow> Inl e
      | Inr (c, difficulty) \<Rightarrow>
          (case (hex_text c, hex_text (target_bytes (length c) difficulty)) of
             (Some dst, Some targetDst) \<Rightarrow>
               Inr (out\<lparr>mco_data := bytes_of (''{'' @ [CHR 0x22] @ ''challenge'' @ [CHR 0x22] @ '': '' @ [CHR 0x22] @ dst @ [CHR 0x22] @
                   '', '' @ [CHR 0x22] @ ''target'' @ [CHR 0x22] @ '': '' @ [CHR 0x22] @ targetDst @ [CHR 0x22] @
                   '', '' @ [CHR 0x22] @ ''difficulty'' @ [CHR 0x22] @ '': '' @ decimal (unat difficulty) @ ''}''),
                 mco_headers := header_set (mco_headers out) ''Content-Type'' ''application/json; charset=utf-8''\<rparr>)
           | _ \<Rightarrow> Inl (Err ''index out of range'')))"

section \<open>The verification\<close>

fun bit_len :: "nat \<Rightarrow> nat" where
  "bit_len n = (if n = 0 then 0 else Suc (bit_len (n div 2)))"

declare bit_len.simps [simp del]

text \<open>\<open>bits.LeadingZeros8\<close>\<close>

definition LeadingZeros8 :: "byte \<Rightarrow> nat" where
  "LeadingZeros8 b = 8 - bit_len (unat b)"

text \<open>The loop over the hash stops at the first byte that is not zero.\<close>

fun count_zeroes :: "bytes \<Rightarrow> nat" where
  "count_zeroes [] = 0"
| "count_zeroes (b # bs) =
     (let z = LeadingZeros8 b in if z < 8 then z else z + count_zeroes bs)"

definition int_of_difficulty :: "64 word \<Rightarrow> int" where
  "int_of_difficulty d = sint (ucast d :: 32 word)"

definition verify_challenge :: "pow_lib \<Rightarrow> VerifyChallengeInput \<Rightarrow> go_error + verify_output" where
  "verify_challenge lib i =
     (case getChallenge lib (vci_key i) (vci_params i) of
        Inl e \<Rightarrow> Inl e
      | Inr (c, difficulty) \<Rightarrow>
          (case Decode (replicate (DecodedLen (length (vci_result i))) 0) (vci_result i) of
             None \<Rightarrow> Inl (Err ''index out of range'')
           | Some (_, _, Some e) \<Rightarrow> Inr OutputError
           | Some (dst, n, None) \<Rightarrow>
               (let result = take n dst in
                if length result < 8 then Inr OutputError
                else if take (length result - 8) result \<noteq> c then Inr OutputFailed
                else if int (count_zeroes (pl_sha256 lib result)) < int_of_difficulty difficulty then Inr OutputFailed
                else Inr OutputOK)))"

section \<open>The client\<close>

text \<open>The comparison of two arrays of bytes in the worker.\<close>

fun lessThan :: "bytes \<Rightarrow> bytes \<Rightarrow> bool" where
  "lessThan (b # bs) (t # ts) = (if b < t then True else if b > t then False else lessThan bs ts)"
| "lessThan _ _ = False"

section \<open>Hashes as numbers\<close>

fun be_value :: "bytes \<Rightarrow> nat" where
  "be_value [] = 0"
| "be_value (b # bs) = unat b * 256 ^ length bs + be_value bs"

lemma byte_bound: "unat (b :: byte) < 256"
  using unsigned_less [of b] by simp

lemma be_value_bound: "be_value bs < 256 ^ length bs"
proof (induction bs)
  case (Cons b bs)
  have "unat b * 256 ^ length bs + be_value bs < (unat b + 1) * 256 ^ length bs" using Cons by simp
  also have "\<dots> \<le> 256 * 256 ^ length bs" using byte_bound [of b] by (intro mult_right_mono) auto
  finally show ?case by simp
qed simp

lemma be_value_Cons_less:
  "length bs = length ts \<Longrightarrow> be_value (b # bs) < be_value (t # ts) \<longleftrightarrow> b < t \<or> b = t \<and> be_value bs < be_value ts"
proof -
  assume l: "length bs = length ts"
  have bt: "be_value bs < 256 ^ length ts" "be_value ts < 256 ^ length ts"
    using be_value_bound [of bs] be_value_bound [of ts] l by simp_all
  have lt: "x * 256 ^ length ts + be_value bs < y * 256 ^ length ts + be_value ts" if "x < y" for x y :: nat
  proof -
    have "x * 256 ^ length ts + be_value bs < (x + 1) * 256 ^ length ts" using bt by simp
    also have "\<dots> \<le> y * 256 ^ length ts" using that by (intro mult_right_mono) auto
    finally show ?thesis by simp
  qed
  have gt: "\<not> x * 256 ^ length ts + be_value bs < y * 256 ^ length ts + be_value ts" if "y < x" for x y :: nat
  proof -
    have "y * 256 ^ length ts + be_value ts < (y + 1) * 256 ^ length ts" using bt by simp
    also have "\<dots> \<le> x * 256 ^ length ts" using that by (intro mult_right_mono) auto
    finally show ?thesis by simp
  qed
  consider "unat b < unat t" | "unat b = unat t" | "unat t < unat b" by linarith
  then show ?thesis
    by cases (use lt gt l in \<open>auto simp: word_less_nat_alt word_unat_eq_iff\<close>)
qed

lemma lessThan_value: "length h = length t \<Longrightarrow> lessThan h t \<longleftrightarrow> be_value h < be_value t"
proof (induction h t rule: lessThan.induct)
  case (1 b bs t ts)
  then show ?case by (auto simp: be_value_Cons_less simp del: be_value.simps)
qed simp_all

subsection \<open>Leading zeroes\<close>

lemma bit_len_le: "bit_len n \<le> k \<longleftrightarrow> n < 2 ^ k"
proof (induction n arbitrary: k rule: bit_len.induct)
  case (1 n)
  show ?case
  proof (cases "n = 0")
    case True
    then show ?thesis by (simp add: bit_len.simps)
  next
    case False
    then have "n < 2 ^ k \<longleftrightarrow> (\<exists>j. k = Suc j \<and> n div 2 < 2 ^ j)" by (cases k) auto
    moreover have "bit_len n = Suc (bit_len (n div 2))" using False by (subst bit_len.simps) simp
    ultimately show ?thesis using 1 [OF False] by (cases k) auto
  qed
qed

lemma LeadingZeros8_ge: "d \<le> 8 \<Longrightarrow> d \<le> LeadingZeros8 b \<longleftrightarrow> unat b < 2 ^ (8 - d)"
proof -
  assume d: "d \<le> 8"
  have "bit_len (unat b) \<le> 8" using byte_bound [of b] by (simp add: bit_len_le)
  then have "d \<le> LeadingZeros8 b \<longleftrightarrow> bit_len (unat b) \<le> 8 - d" using d by (auto simp: LeadingZeros8_def)
  then show ?thesis by (simp add: bit_len_le)
qed

lemma count_zeroes_ge:
  "d \<le> 8 * length h \<Longrightarrow> d \<le> count_zeroes h \<longleftrightarrow> be_value h < 2 ^ (8 * length h - d)"
proof (induction h arbitrary: d)
  case (Cons b bs)
  have z8: "LeadingZeros8 b \<le> 8" "LeadingZeros8 b = 8 \<longleftrightarrow> unat b = 0"
    using LeadingZeros8_ge [of 8 b] by (auto simp: LeadingZeros8_def)
  have vb: "be_value bs < 256 ^ length bs" by (rule be_value_bound)
  have p: "(256 :: nat) ^ length bs = 2 ^ (8 * length bs)" by (simp add: power_mult)
  show ?case
  proof (cases "d \<le> 8")
    case True
    then have "8 * length (b # bs) - d = (8 - d) + 8 * length bs" by simp
    then have e: "(2 :: nat) ^ (8 * length (b # bs) - d) = 2 ^ (8 - d) * 256 ^ length bs" by (simp only: power_add p)
    have "unat b * 256 ^ length bs + be_value bs < 2 ^ (8 - d) * 256 ^ length bs \<longleftrightarrow> unat b < 2 ^ (8 - d)"
    proof
      assume "unat b < 2 ^ (8 - d)"
      have "unat b * 256 ^ length bs + be_value bs < (unat b + 1) * 256 ^ length bs" using vb by simp
      also have "\<dots> \<le> 2 ^ (8 - d) * 256 ^ length bs" using \<open>unat b < 2 ^ (8 - d)\<close> by (intro mult_right_mono) auto
      finally show "unat b * 256 ^ length bs + be_value bs < 2 ^ (8 - d) * 256 ^ length bs" .
    next
      assume "unat b * 256 ^ length bs + be_value bs < 2 ^ (8 - d) * 256 ^ length bs"
      then have "unat b * 256 ^ length bs < 2 ^ (8 - d) * 256 ^ length bs" by linarith
      then show "unat b < 2 ^ (8 - d)" by simp
    qed
    moreover have "d \<le> count_zeroes (b # bs) \<longleftrightarrow> d \<le> LeadingZeros8 b" using True z8 by (auto simp: Let_def)
    ultimately show ?thesis using LeadingZeros8_ge [OF True] unfolding e be_value.simps by blast
  next
    case False
    have e: "8 * length (b # bs) - d = 8 * length bs - (d - 8)" using False by simp
    have "(2 :: nat) ^ (8 * length bs - (d - 8)) \<le> 256 ^ length bs" unfolding p by (intro power_increasing) simp_all
    then have "unat b * 256 ^ length bs + be_value bs < 2 ^ (8 * length bs - (d - 8)) \<longleftrightarrow>
        unat b = 0 \<and> be_value bs < 2 ^ (8 * length bs - (d - 8))"
      by (cases "unat b") auto
    moreover have "d \<le> count_zeroes (b # bs) \<longleftrightarrow> unat b = 0 \<and> d - 8 \<le> count_zeroes bs"
      using False z8 by (auto simp: Let_def)
    moreover have "d - 8 \<le> 8 * length bs" using Cons.prems False by simp
    ultimately show ?thesis using Cons.IH [of "d - 8"] unfolding e be_value.simps by blast
  qed
qed simp

lemma count_zeroes_le: "count_zeroes h \<le> 8 * length h"
proof (induction h)
  case (Cons b bs)
  have "LeadingZeros8 b \<le> 8" by (simp add: LeadingZeros8_def)
  with Cons show ?case by (simp add: Let_def)
qed simp

subsection \<open>The target\<close>

lemma shift_byte:
  assumes "unat (v :: byte) < 128"
  shows "unat (push_bit 1 v) = 2 * unat v" "unat (push_bit 1 v OR 1) = 2 * unat v + 1"
proof -
  have d: "push_bit 1 v = 2 * v" by (simp add: push_bit_eq_mult)
  show e: "unat (push_bit 1 v) = 2 * unat v" using assms unfolding d by (simp add: unat_word_ariths)
  have "push_bit 1 v OR 1 = push_bit 1 v + 1" by (simp add: or_one_eq d)
  then show "unat (push_bit 1 v OR 1) = 2 * unat v + 1" using assms e by (simp add: unat_word_ariths)
qed

text \<open>\<open>m\<close> zeros go in first, then ones.\<close>

lemma target_byte_value:
  "n \<le> 8 \<Longrightarrow> unat v < 2 ^ (8 - n) \<Longrightarrow>
     (case target_byte n m v of (v', m') \<Rightarrow>
        unat v' + 1 = unat v * 2 ^ n + 2 ^ (n - min (unat m) n) \<and> unat m' = unat m - n)"
proof (induction n arbitrary: m v)
  case (Suc n)
  have e: "(2 :: nat) ^ (8 - n) = 2 * 2 ^ (8 - Suc n)" using Suc.prems(1)
    by (metis Suc_diff_Suc Suc_le_lessD power_Suc)
  have "unat v < 128"
  proof -
    have "(2 :: nat) ^ (8 - Suc n) \<le> 2 ^ 7" by (intro power_increasing) auto
    then show ?thesis using Suc.prems(2) by simp
  qed
  note sh = shift_byte [OF this]
  show ?case
  proof (cases "m = 0")
    case True
    have "unat (push_bit 1 v OR 1) < 2 ^ (8 - n)" using Suc.prems(2) e sh by simp
    from Suc.IH [OF _ this, of m] Suc.prems(1) True sh show ?thesis by (auto simp: Let_def split: prod.splits)
  next
    case False
    then have m: "unat (m - 1) = unat m - 1" "0 < unat m" by (simp_all add: unat_minus_one unat_gt_0)
    have "unat (push_bit 1 v) < 2 ^ (8 - n)" using Suc.prems(2) e sh by simp
    from Suc.IH [OF _ this, of "m - 1"] Suc.prems(1) False sh m show ?thesis
      by (auto simp: Let_def split: prod.splits simp flip: Suc_diff_le)
  qed
qed simp

lemma length_target_bytes [simp]: "length (target_bytes n m) = n"
  by (induction n arbitrary: m) (auto split: prod.split)

lemma target_value: "be_value (target_bytes n m) + 1 = 2 ^ (8 * n - min (unat m) (8 * n))"
proof (induction n arbitrary: m)
  case (Suc n)
  obtain v m' where t: "target_byte 8 m 0 = (v, m')" by (cases "target_byte 8 m 0")
  have v: "unat v + 1 = 2 ^ (8 - min (unat m) 8)" "unat m' = unat m - 8"
    using target_byte_value [of 8 0 m] t by simp_all
  have p: "(256 :: nat) ^ n = 2 ^ (8 * n)" by (simp add: power_mult)
  have "be_value (target_bytes (Suc n) m) + 1 = unat v * 256 ^ n + 2 ^ (8 * n - min (unat m - 8) (8 * n))"
    using Suc.IH [of m'] by (simp add: t v(2))
  also have "\<dots> = 2 ^ (8 * Suc n - min (unat m) (8 * Suc n))"
  proof (cases "unat m \<le> 8")
    case True
    then have "unat v * 256 ^ n + 2 ^ (8 * n - min (unat m - 8) (8 * n)) = (unat v + 1) * 256 ^ n" by (simp add: p)
    also have "\<dots> = 2 ^ ((8 - unat m) + 8 * n)" using True v(1) by (simp only: p power_add min_absorb1)
    also have "(8 - unat m) + 8 * n = 8 * Suc n - min (unat m) (8 * Suc n)" using True by simp
    finally show ?thesis .
  next
    case False
    then have "unat v = 0" using v(1) by simp
    moreover have "8 * n - min (unat m - 8) (8 * n) = 8 * Suc n - min (unat m) (8 * Suc n)" using False by auto
    ultimately show ?thesis by simp
  qed
  finally show ?case .
qed simp

lemma getChallenge_length: "getChallenge lib k params = Inr (c, d) \<Longrightarrow> \<exists>m. c = pl_sha256 lib m"
  by (auto simp: getChallenge_def split: sum.splits)

lemma Decode_hex:
  "\<exists>d. Decode (replicate (DecodedLen (length (bytes_of (hex_encode b)))) 0) (bytes_of (hex_encode b)) = Some (d, length b, None) \<and>
     take (length b) d = b"
  by (simp add: hex_encode_bytes DecodedLen_def Decode_ok all_hex_bytes)

lemma int_of_difficulty_small: "uint d < 2 ^ 31 \<Longrightarrow> int_of_difficulty d = uint d"
proof -
  assume d: "uint d < 2 ^ 31"
  have "uint (ucast d :: 32 word) = uint d mod 2 ^ 32" by (simp add: unsigned_ucast_eq take_bit_eq_mod)
  then have u: "uint (ucast d :: 32 word) = uint d" using d by simp
  then have "sint (ucast d :: 32 word) = signed_take_bit 31 (uint d)" by (simp add: sint_uint)
  also have "\<dots> = uint d" by (rule signed_take_bit_int_eq_self) (rule order_trans [of _ 0], simp_all add: d [simplified])
  finally show ?thesis by (simp add: int_of_difficulty_def)
qed

lemma parse_4294967296: "ParseUint 64 ''4294967296'' = Some 4294967296"
  by (simp add: ParseUint_def is_digit_def digit_value_def Let_def)

lemma verify_hex:
  assumes "getChallenge lib k params = Inr (c, d)" "length nonce = 8"
  shows "verify_challenge lib \<lparr>vci_key = k, vci_params = params, vci_result = bytes_of (hex_encode (c @ nonce))\<rparr> =
    Inr (if int (count_zeroes (pl_sha256 lib (c @ nonce))) < int_of_difficulty d then OutputFailed else OutputOK)"
proof -
  obtain x where "Decode (replicate (DecodedLen (length (bytes_of (hex_encode (c @ nonce))))) 0) (bytes_of (hex_encode (c @ nonce))) =
      Some (x, length (c @ nonce), None)" "take (length (c @ nonce)) x = c @ nonce"
    using Decode_hex by blast
  moreover have "length (c @ nonce) - 8 = length c" "\<not> length (c @ nonce) < 8" using assms(2) by simp_all
  ultimately show ?thesis using assms(1) by (simp add: verify_challenge_def Let_def del: length_append length_take)
qed

section \<open>Properties\<close>

text \<open>
  C29: the server accepts exactly what the client searches for. For a difficulty of at most 256, the work
  of a client for a challenge, the challenge followed by a nonce of eight bytes and sent in hex, is
  accepted if and only if its hash is at most the target that the challenge came with, read as
  numbers. So every nonce that the client's comparison accepts is accepted by the server.
\<close>

theorem pow_accepts_iff:
  assumes "getChallenge lib k params = Inr (c, d)" "unat d \<le> 256" "length nonce = 8" "\<And>b. length (pl_sha256 lib b) = 32"
  defines "i \<equiv> \<lparr>vci_key = k, vci_params = params, vci_result = bytes_of (hex_encode (c @ nonce))\<rparr>"
    and "target \<equiv> target_bytes (length c) d" and "hash \<equiv> pl_sha256 lib (c @ nonce)"
  shows "(verify_challenge lib i = Inr OutputOK \<longleftrightarrow> be_value hash \<le> be_value target) \<and>
    (lessThan hash target \<longrightarrow> verify_challenge lib i = Inr OutputOK)"
proof -
  have l: "length c = 32" "length hash = 32" using assms(4) getChallenge_length [OF assms(1)] by (auto simp: hash_def)
  have t: "be_value target + 1 = 2 ^ (256 - unat d)" using target_value [of "length c" d] assms(2) by (simp add: target_def l)
  have "int (unat d) \<le> int 256" using assms(2) by (simp only: of_nat_le_iff)
  then have "int_of_difficulty d = int (unat d)" by (simp add: int_of_difficulty_small)
  then have "verify_challenge lib i = Inr OutputOK \<longleftrightarrow> unat d \<le> count_zeroes hash"
    using verify_hex [OF assms(1,3)] unfolding i_def hash_def by (simp only: of_nat_less_iff) (simp add: not_less)
  also have "\<dots> \<longleftrightarrow> be_value hash < 2 ^ (256 - unat d)" using count_zeroes_ge [of "unat d" hash] assms(2) l by simp
  finally have e: "verify_challenge lib i = Inr OutputOK \<longleftrightarrow> be_value hash \<le> be_value target" unfolding t [symmetric] by auto
  moreover have "lessThan hash target \<longleftrightarrow> be_value hash < be_value target" by (rule lessThan_value) (simp add: target_def l)
  ultimately show ?thesis by simp
qed

text \<open>
  the difficulty wraps. In 32 bits the difficulty 4294967296 is 0 when the work is verified, so any nonce
  is accepted, whereas the target that the client gets is zero and its search never ends.
\<close>

theorem pow_difficulty_wraps:
  assumes "\<And>b. length (pl_sha256 lib b) = 32" "length nonce = 8"
    and "getChallenge lib k [(''difficulty'', ''4294967296'')] = Inr (c, d)"
  shows "verify_challenge lib \<lparr>vci_key = k, vci_params = [(''difficulty'', ''4294967296'')],
        vci_result = bytes_of (hex_encode (c @ nonce))\<rparr> = Inr OutputOK \<and>
    \<not> lessThan (pl_sha256 lib (c @ nonce)) (target_bytes (length c) d)"
proof -
  note p = parse_4294967296
  then have d: "d = 4294967296" "\<exists>m. c = pl_sha256 lib m" using assms(3) by (auto simp: getChallenge_def mget_Cons)
  then have c: "length c = 32" using assms(1) by auto
  have "int_of_difficulty d = 0" by (simp add: d int_of_difficulty_def)
  then have "verify_challenge lib \<lparr>vci_key = k, vci_params = [(''difficulty'', ''4294967296'')],
        vci_result = bytes_of (hex_encode (c @ nonce))\<rparr> = Inr OutputOK"
    using verify_hex [OF assms(3,2)] by simp
  moreover have "be_value (target_bytes (length c) d) = 0" using target_value [of "length c" d] by (simp add: c d)
  then have "\<not> lessThan (pl_sha256 lib (c @ nonce)) (target_bytes (length c) d)"
    by (subst lessThan_value) (simp_all add: c assms(1))
  ultimately show ?thesis by blast
qed

definition sample_pow :: pow_lib where
  "sample_pow = \<lparr>pl_sha256 = (\<lambda>b. replicate 32 0), pl_parse_error = (\<lambda>s. Err s)\<rparr>"

lemma sample_pow_simps [simp]: "pl_sha256 sample_pow b = replicate 32 0"
  by (simp add: sample_pow_def)

theorem pow_accepts_iff_witness:
  "verify_challenge sample_pow \<lparr>vci_key = [], vci_params = [],
     vci_result = bytes_of (hex_encode (replicate 32 0 @ replicate 8 1))\<rparr> = Inr OutputOK"
proof -
  have g: "getChallenge sample_pow [] [] = Inr (replicate 32 0, 20)" by (simp add: getChallenge_def)
  have t: "be_value (replicate n 0) = 0" for n by (induction n) simp_all
  show ?thesis
    using pow_accepts_iff [OF g, of "replicate 8 1"] t by simp
qed

theorem pow_difficulty_wraps_witness:
  "\<exists>c. verify_challenge sample_pow \<lparr>vci_key = [], vci_params = [(''difficulty'', ''4294967296'')],
     vci_result = bytes_of (hex_encode (c @ replicate 8 1))\<rparr> = Inr OutputOK"
proof -
  note p = parse_4294967296
  then have "getChallenge sample_pow [] [(''difficulty'', ''4294967296'')] = Inr (replicate 32 0, 4294967296)"
    by (simp add: getChallenge_def mget_Cons)
  from pow_difficulty_wraps [OF _ _ this, of "replicate 8 1"] show ?thesis by auto
qed

end
