(* ===== verification/Wasm.thy ===== *)
theory Wasm
  imports Pow
begin

unbundle bit_operations_syntax

text \<open>
  The calls into a WebAssembly module (\<open>lib/challenge/wasm\<close>): the packing of pointer and size, the two
  sides of a call, which pass JSON through the memory of the module, and the runner that compiles
  and instantiates modules. The memory with its allocator and the JSON library are not part of the
  program; what the calls rely on is the locale \<open>guest_memory\<close>.
\<close>

section \<open>Allocations (\<open>interface.go\<close>)\<close>

type_synonym Allocation = "64 word"

definition NewAllocation :: "32 word \<Rightarrow> 32 word \<Rightarrow> Allocation" where
  "NewAllocation ptr len = push_bit 32 (ucast ptr) OR ucast len"

definition Pointer :: "Allocation \<Rightarrow> 32 word" where
  "Pointer p = ucast (drop_bit 32 p)"

definition Size :: "Allocation \<Rightarrow> 32 word" where
  "Size p = ucast p"

lemma Pointer_New [simp]: "Pointer (NewAllocation ptr len) = ptr"
proof (rule bit_word_eqI)
  fix n assume "n < LENGTH(32)"
  then show "bit (Pointer (NewAllocation ptr len)) n \<longleftrightarrow> bit ptr n"
    by (auto simp: Pointer_def NewAllocation_def bit_simps dest: bit_imp_le_length)
qed

lemma Size_New [simp]: "Size (NewAllocation ptr len) = len"
proof (rule bit_word_eqI)
  fix n assume "n < LENGTH(32)"
  then show "bit (Size (NewAllocation ptr len)) n \<longleftrightarrow> bit len n"
    by (auto simp: Size_def NewAllocation_def bit_simps)
qed

section \<open>The JSON library\<close>

record wasm_json =
  wj_enc_make :: "MakeChallengeInput \<Rightarrow> go_error + bytes"
  wj_dec_make :: "bytes \<Rightarrow> go_error + MakeChallengeInput"
  wj_enc_out :: "MakeChallengeOutput \<Rightarrow> go_error + bytes"
  wj_dec_out :: "bytes \<Rightarrow> go_error + MakeChallengeOutput"
  wj_enc_verify :: "VerifyChallengeInput \<Rightarrow> go_error + bytes"
  wj_dec_verify :: "bytes \<Rightarrow> go_error + VerifyChallengeInput"

text \<open>What was marshalled is unmarshalled to the same value.\<close>

definition json_ok :: "wasm_json \<Rightarrow> bool" where
  "json_ok j \<longleftrightarrow> (\<forall>i d. wj_enc_make j i = Inr d \<longrightarrow> wj_dec_make j d = Inr i) \<and>
     (\<forall>i d. wj_enc_out j i = Inr d \<longrightarrow> wj_dec_out j d = Inr i) \<and>
     (\<forall>i d. wj_enc_verify j i = Inr d \<longrightarrow> wj_dec_verify j d = Inr i)"

section \<open>The side of the module\<close>

text \<open>
  The callback is given an output; a left value is a panic, which the callbacks of the program raise
  before they write to the output, and which is recovered.
\<close>

definition make_output_for :: "(MakeChallengeInput \<Rightarrow> MakeChallengeOutput \<Rightarrow> go_error + MakeChallengeOutput) \<Rightarrow>
    (go_error + MakeChallengeInput) \<Rightarrow> MakeChallengeOutput" where
  "make_output_for callback input =
     (case input of
        Inl e \<Rightarrow> \<lparr>mco_data = [], mco_code = 500, mco_headers = [], mco_error = error_text e\<rparr>
      | Inr i \<Rightarrow>
          (let out = \<lparr>mco_data = [], mco_code = 200, mco_headers = [], mco_error = []\<rparr> in
           case callback i out of
             Inl e \<Rightarrow> out\<lparr>mco_code := 500, mco_error := error_text e\<rparr>
           | Inr out' \<Rightarrow> out'))"

text \<open>\<open>VerifyChallengeOutput\<close> is a number of 64 bits.\<close>

definition output_code :: "verify_output \<Rightarrow> 64 word" where
  "output_code r = (case r of OutputOK \<Rightarrow> 0 | OutputFailed \<Rightarrow> 1 | OutputError \<Rightarrow> 2)"

definition verify_output_for :: "(VerifyChallengeInput \<Rightarrow> go_error + verify_output) \<Rightarrow>
    (go_error + VerifyChallengeInput) \<Rightarrow> verify_output" where
  "verify_output_for callback input =
     (case input of
        Inl e \<Rightarrow> OutputError
      | Inr i \<Rightarrow> (case callback i of Inl e \<Rightarrow> OutputError | Inr r \<Rightarrow> r))"

text \<open>
  What a module exports, over its memory \<open>'m\<close>. \<open>PtrToBytes\<close> and \<open>BytesToLeakedPtr\<close> are the reads and the
  allocations of the module itself; a trap is a left value.
\<close>

record 'm exports =
  x_malloc :: "64 word \<Rightarrow> 'm \<Rightarrow> (go_error + 64 word) \<times> 'm"
  x_free :: "64 word \<Rightarrow> 'm \<Rightarrow> 'm"
  x_write :: "32 word \<Rightarrow> bytes \<Rightarrow> 'm \<Rightarrow> 'm option"
  x_read :: "32 word \<Rightarrow> 32 word \<Rightarrow> 'm \<Rightarrow> bytes option"

definition BytesToLeakedPtr :: "'m exports \<Rightarrow> bytes \<Rightarrow> 'm \<Rightarrow> (go_error + 32 word \<times> 32 word) \<times> 'm" where
  "BytesToLeakedPtr x s m =
     (case x_malloc x (of_nat (length s)) m of
        (Inl e, m1) \<Rightarrow> (Inl e, m1)
      | (Inr p, m1) \<Rightarrow>
          (case x_write x (ucast p) s m1 of
             None \<Rightarrow> (Inl (Err ''out of bounds memory access''), m1)
           | Some m2 \<Rightarrow> (Inr (ucast p, of_nat (length s)), m2)))"

definition MakeChallengeDecode :: "wasm_json \<Rightarrow> 'm exports \<Rightarrow>
    (MakeChallengeInput \<Rightarrow> MakeChallengeOutput \<Rightarrow> go_error + MakeChallengeOutput) \<Rightarrow> Allocation \<Rightarrow> 'm \<Rightarrow>
    (go_error + Allocation) \<times> 'm" where
  "MakeChallengeDecode j x callback a m =
     (case x_read x (Pointer a) (Size a) m of
        None \<Rightarrow> (Inl (Err ''out of bounds memory access''), m)
      | Some inData \<Rightarrow>
          (case wj_enc_out j (make_output_for callback (wj_dec_make j inData)) of
             Inl e \<Rightarrow> (Inl e, m)
           | Inr outData \<Rightarrow>
               (case BytesToLeakedPtr x outData m of
                  (Inl e, m1) \<Rightarrow> (Inl e, m1)
                | (Inr (p, n), m1) \<Rightarrow> (Inr (NewAllocation p n), m1))))"

definition VerifyChallengeDecode :: "wasm_json \<Rightarrow> 'm exports \<Rightarrow>
    (VerifyChallengeInput \<Rightarrow> go_error + verify_output) \<Rightarrow> Allocation \<Rightarrow> 'm \<Rightarrow> (go_error + 64 word) \<times> 'm" where
  "VerifyChallengeDecode j x callback a m =
     (case x_read x (Pointer a) (Size a) m of
        None \<Rightarrow> (Inl (Err ''out of bounds memory access''), m)
      | Some inData \<Rightarrow> (Inr (output_code (verify_output_for callback (wj_dec_verify j inData))), m))"

section \<open>The side of the program (\<open>utils.go\<close>)\<close>

text \<open>Both calls free the input on every path, as the deferred call does, and the first one the output.\<close>

definition MakeChallengeCall :: "wasm_json \<Rightarrow> 'm exports \<Rightarrow> (Allocation \<Rightarrow> 'm \<Rightarrow> (go_error + Allocation) \<times> 'm) \<Rightarrow>
    MakeChallengeInput \<Rightarrow> 'm \<Rightarrow> (go_error + MakeChallengeOutput) \<times> 'm" where
  "MakeChallengeCall j x makeChallenge i m =
     (case wj_enc_make j i of
        Inl e \<Rightarrow> (Inl e, m)
      | Inr inData \<Rightarrow>
          (case x_malloc x (of_nat (length inData)) m of
             (Inl e, m1) \<Rightarrow> (Inl e, m1)
           | (Inr p, m1) \<Rightarrow>
               (case (case x_write x (ucast p) inData m1 of
                        None \<Rightarrow> (Inl (Err ''could not write memory''), m1)
                      | Some m2 \<Rightarrow>
                          (case makeChallenge (NewAllocation (ucast p) (of_nat (length inData))) m2 of
                             (Inl e, m3) \<Rightarrow> (Inl e, m3)
                           | (Inr result, m3) \<Rightarrow>
                               (case x_read x (Pointer result) (Size result) m3 of
                                  None \<Rightarrow> (Inl (Err ''could not read result''), m3)
                                | Some outData \<Rightarrow> (wj_dec_out j outData, x_free x (ucast (Pointer result)) m3)))) of
                  (r, m4) \<Rightarrow> (r, x_free x p m4))))"

definition VerifyChallengeCall :: "wasm_json \<Rightarrow> 'm exports \<Rightarrow> (Allocation \<Rightarrow> 'm \<Rightarrow> (go_error + 64 word) \<times> 'm) \<Rightarrow>
    VerifyChallengeInput \<Rightarrow> 'm \<Rightarrow> (go_error + 64 word) \<times> 'm" where
  "VerifyChallengeCall j x verifyChallenge i m =
     (case wj_enc_verify j i of
        Inl e \<Rightarrow> (Inl e, m)
      | Inr inData \<Rightarrow>
          (case x_malloc x (of_nat (length inData)) m of
             (Inl e, m1) \<Rightarrow> (Inl e, m1)
           | (Inr p, m1) \<Rightarrow>
               (case (case x_write x (ucast p) inData m1 of
                        None \<Rightarrow> (Inl (Err ''could not write memory''), m1)
                      | Some m2 \<Rightarrow> verifyChallenge (NewAllocation (ucast p) (of_nat (length inData))) m2) of
                  (r, m4) \<Rightarrow> (r, x_free x p m4))))"

section \<open>The contract of the memory\<close>

text \<open>\<open>view m\<close> are the live blocks of the memory with their contents.\<close>

locale guest_memory =
  fixes x :: "'m exports" and view :: "'m \<Rightarrow> 32 word \<Rightarrow> bytes option"
  assumes malloc_fresh: "x_malloc x n m = (Inr p, m') \<Longrightarrow>
      p = ucast (ucast p :: 32 word) \<and> view m (ucast p) = None \<and>
      (\<exists>b. length b = unat n \<and> view m' = (view m)(ucast p \<mapsto> b))"
    and malloc_fail: "x_malloc x n m = (Inl e, m') \<Longrightarrow> view m' = view m"
    and malloc_bound: "x_malloc x n m = (Inr p, m') \<Longrightarrow> unat n < 2 ^ 32"
    and write_ok: "view m a = Some b \<Longrightarrow> length d = length b \<Longrightarrow>
      \<exists>m'. x_write x a d m = Some m' \<and> view m' = (view m)(a \<mapsto> d)"
    and read_ok: "view m a = Some b \<Longrightarrow> length b = unat l \<Longrightarrow> x_read x a l m = Some b"
    and free_ok: "view (x_free x p m) = (view m)(ucast p := None)"
begin

lemma place:
  assumes "x_malloc x (of_nat (length d)) m = (Inr p, m1)" "length d < 2 ^ 64"
  obtains m2 where "x_write x (ucast p) d m1 = Some m2" "view m2 = (view m)(ucast p \<mapsto> d)" "view m (ucast p) = None"
    "x_read x (ucast p) (of_nat (length d)) m2 = Some d" "p = ucast (ucast p :: 32 word)"
proof -
  have n: "unat (of_nat (length d) :: 64 word) = length d" using assms(2) by (simp add: unsigned_of_nat take_bit_nat_eq_self)
  then have l: "length d < 2 ^ 32" using malloc_bound [OF assms(1)] by simp
  obtain b where b: "length b = length d" "view m1 = (view m)(ucast p \<mapsto> b)" "view m (ucast p) = None"
      "p = ucast (ucast p :: 32 word)"
    using malloc_fresh [OF assms(1)] n by auto
  obtain m2 where m2: "x_write x (ucast p) d m1 = Some m2" "view m2 = (view m1)(ucast p \<mapsto> d)"
    using write_ok [of m1 "ucast p" b d] b by auto
  have "unat (of_nat (length d) :: 32 word) = length d" using l by (simp add: unsigned_of_nat take_bit_nat_eq_self)
  then have "x_read x (ucast p) (of_nat (length d)) m2 = Some d" using read_ok [of m2 "ucast p" d] m2(2) by simp
  then show ?thesis using that m2 b by simp
qed

text \<open>A call that verifies reaches the callback with the input, and leaves the blocks as they were.\<close>

lemma verify_call:
  assumes "json_ok j" "wj_enc_verify j i = Inr d" "length d < 2 ^ 64"
  shows "\<exists>r m'. VerifyChallengeCall j x (VerifyChallengeDecode j x callback) i m = (r, m') \<and> view m' = view m \<and>
    (r = Inr (output_code (verify_output_for callback (Inr i))) \<or> (\<exists>e m1. r = Inl e \<and> x_malloc x (of_nat (length d)) m = (Inl e, m1)))"
proof (cases "x_malloc x (of_nat (length d)) m")
  case (Pair r0 m1)
  show ?thesis
  proof (cases r0)
    case (Inl e)
    then show ?thesis using Pair malloc_fail assms(2) by (auto simp: VerifyChallengeCall_def)
  next
    case (Inr p)
    then have "x_malloc x (of_nat (length d)) m = (Inr p, m1)" using Pair by simp
    then obtain m2 where m2: "x_write x (ucast p) d m1 = Some m2" "view m2 = (view m)(ucast p \<mapsto> d)" "view m (ucast p) = None"
        "x_read x (ucast p) (of_nat (length d)) m2 = Some d"
      using place [OF _ assms(3)] by blast
    have "wj_dec_verify j d = Inr i" using assms(1,2) by (simp add: json_ok_def)
    moreover have "view (x_free x p m2) = view m" using m2(2,3) by (simp add: free_ok fun_upd_idem)
    ultimately show ?thesis
      using m2 Pair Inr assms(2) by (simp add: VerifyChallengeCall_def VerifyChallengeDecode_def)
  qed
qed

text \<open>A call that makes a challenge returns what the callback makes, or an error; nothing stays allocated.\<close>

lemma make_call:
  assumes "json_ok j" "wj_enc_make j i = Inr d" "length d < 2 ^ 64"
    and "wj_enc_out j (make_output_for callback (Inr i)) = Inr od" "length od < 2 ^ 64"
  shows "\<exists>r m'. MakeChallengeCall j x (MakeChallengeDecode j x callback) i m = (r, m') \<and> view m' = view m \<and>
    (r = Inr (make_output_for callback (Inr i)) \<or>
      (\<exists>e n m1 m2. r = Inl e \<and> x_malloc x n m1 = (Inl e, m2)))"
proof (cases "x_malloc x (of_nat (length d)) m")
  case (Pair r0 m1)
  show ?thesis
  proof (cases r0)
    case (Inl e)
    then have "MakeChallengeCall j x (MakeChallengeDecode j x callback) i m = (Inl e, m1)"
      using Pair assms(2) by (simp add: MakeChallengeCall_def)
    then show ?thesis using Pair Inl malloc_fail by auto
  next
    case (Inr p)
    then have a: "x_malloc x (of_nat (length d)) m = (Inr p, m1)" using Pair by simp
    then obtain m2 where m2: "x_write x (ucast p) d m1 = Some m2" "view m2 = (view m)(ucast p \<mapsto> d)" "view m (ucast p) = None"
        "x_read x (ucast p) (of_nat (length d)) m2 = Some d"
      using place [OF _ assms(3)] by blast
    have dec: "wj_dec_make j d = Inr i" "wj_dec_out j od = Inr (make_output_for callback (Inr i))"
      using assms(1,2,4) by (simp_all add: json_ok_def)
    obtain r3 m3 where r3: "x_malloc x (of_nat (length od)) m2 = (r3, m3)" by (cases "x_malloc x (of_nat (length od)) m2")
    show ?thesis
    proof (cases r3)
      case (Inl e)
      then have "MakeChallengeCall j x (MakeChallengeDecode j x callback) i m = (Inl e, x_free x p m3)"
        using a m2 dec assms(2,4) r3 by (simp add: MakeChallengeCall_def MakeChallengeDecode_def BytesToLeakedPtr_def)
      moreover have "view (x_free x p m3) = view m"
        using malloc_fail [of "of_nat (length od)" m2 e m3] r3 Inl m2(2,3) by (simp add: free_ok fun_upd_idem)
      ultimately show ?thesis using r3 Inl by auto
    next
      case (Inr q)
      then have b: "x_malloc x (of_nat (length od)) m2 = (Inr q, m3)" using r3 by simp
      then obtain m4 where m4: "x_write x (ucast q) od m3 = Some m4" "view m4 = (view m2)(ucast q \<mapsto> od)" "view m2 (ucast q) = None"
          "x_read x (ucast q) (of_nat (length od)) m4 = Some od" "q = ucast (ucast q :: 32 word)"
        using place [OF _ assms(5)] by blast
      have "MakeChallengeCall j x (MakeChallengeDecode j x callback) i m =
          (Inr (make_output_for callback (Inr i)), x_free x p (x_free x (ucast (ucast q :: 32 word)) m4))"
        using a m2 dec assms(2,4) b m4 by (simp add: MakeChallengeCall_def MakeChallengeDecode_def BytesToLeakedPtr_def)
      moreover have "view (x_free x p (x_free x (ucast (ucast q :: 32 word)) m4)) = view m"
      proof -
        have "view (x_free x p (x_free x q m4)) = view m"
          using m4(2,3) m2(2,3) by (auto simp: free_ok fun_eq_iff split: if_splits)
        then show ?thesis using m4(5) by simp
      qed
      ultimately show ?thesis by auto
    qed
  qed
qed

end

section \<open>A memory that keeps the contract\<close>

text \<open>Blocks by their address; an allocation takes the first address behind all live blocks.\<close>

type_synonym linear = "(32 word, bytes) gomap"

definition memory_end :: "linear \<Rightarrow> nat" where
  "memory_end m = fold max (map (\<lambda>(a, b). unat a + length b) m) 0"

definition linear_malloc :: "64 word \<Rightarrow> linear \<Rightarrow> (go_error + 64 word) \<times> linear" where
  "linear_malloc n m =
     (let p = Suc (memory_end m) in
      if unat n < 2 ^ 32 \<and> p + unat n < 2 ^ 32 then (Inr (of_nat p), mset_key (of_nat p) (replicate (unat n) 0) m)
      else (Inl (Err ''out of memory''), m))"

definition linear_write :: "32 word \<Rightarrow> bytes \<Rightarrow> linear \<Rightarrow> linear option" where
  "linear_write a d m =
     (case mget m a of
        None \<Rightarrow> None
      | Some b \<Rightarrow> if length d \<le> length b then Some (mset_key a (d @ drop (length d) b) m) else None)"

definition linear_read :: "32 word \<Rightarrow> 32 word \<Rightarrow> linear \<Rightarrow> bytes option" where
  "linear_read a n m =
     (case mget m a of None \<Rightarrow> None | Some b \<Rightarrow> if unat n \<le> length b then Some (take (unat n) b) else None)"

definition linear_free :: "64 word \<Rightarrow> linear \<Rightarrow> linear" where
  "linear_free p m = mdel (ucast p) m"

definition linear_exports :: "linear exports" where
  "linear_exports = \<lparr>x_malloc = linear_malloc, x_free = linear_free, x_write = linear_write, x_read = linear_read\<rparr>"

lemma memory_end_ge: "(a, b) \<in> set m \<Longrightarrow> unat a + length b \<le> memory_end m"
proof -
  have ge: "y \<le> fold max xs y" for y :: nat and xs
  proof (induction xs arbitrary: y)
    case (Cons a xs)
    show ?case using order_trans [OF max.cobounded2 [of y a] Cons.IH [of "max a y"]] by simp
  qed simp
  have "x \<in> set xs \<Longrightarrow> x \<le> fold max xs y" for x y :: nat and xs
  proof (induction xs arbitrary: y)
    case (Cons a xs)
    then show ?case using order_trans [OF max.cobounded1 [of a y] ge [of "max a y" xs]] by auto
  qed simp
  then show "(a, b) \<in> set m \<Longrightarrow> unat a + length b \<le> memory_end m" by (force simp: memory_end_def)
qed

lemma linear_malloc_ok:
  assumes "linear_malloc n m = (Inr p, m')"
  shows "p = ucast (ucast p :: 32 word)" "mget m (ucast p) = None" "m' = mset_key (ucast p) (replicate (unat n) 0) m"
    "unat n < 2 ^ 32"
proof -
  let ?e = "Suc (memory_end m)"
  have b: "?e < 2 ^ 32" "p = of_nat ?e" "m' = mset_key (of_nat ?e) (replicate (unat n) 0) m" "unat n < 2 ^ 32"
    using assms by (auto simp: linear_malloc_def Let_def split: if_splits)
  have u: "(ucast p :: 32 word) = of_nat ?e" unfolding b(2)
    by (simp add: word_unat_eq_iff unsigned_ucast_eq unsigned_of_nat del: of_nat_Suc)
  have n: "unat (of_nat ?e :: 32 word) = ?e" "unat (of_nat ?e :: 64 word) = ?e"
    using b(1) by (simp_all add: unsigned_of_nat take_bit_nat_eq_self del: of_nat_Suc)
  have "unat (ucast (of_nat ?e :: 32 word) :: 64 word) = unat (of_nat ?e :: 64 word)"
    using n b(1) by (simp add: unsigned_ucast_eq take_bit_nat_eq_self del: of_nat_Suc)
  then show "p = ucast (ucast p :: 32 word)" unfolding u unfolding b(2) by (simp add: word_unat_eq_iff del: of_nat_Suc)
  show "mget m (ucast p) = None"
  proof (rule ccontr)
    assume "mget m (ucast p) \<noteq> None"
    then obtain b where "(ucast p, b) \<in> set m" by (auto simp: mget_def dest: map_of_SomeD)
    from memory_end_ge [OF this] show False using n(1) by (simp add: u)
  qed
  show "m' = mset_key (ucast p) (replicate (unat n) 0) m" unfolding u by (rule b(3))
  show "unat n < 2 ^ 32" by (rule b(4))
qed

interpretation linear: guest_memory linear_exports mget
proof
  fix n p :: "64 word" and m m' :: linear and e
  show "p = ucast (ucast p :: 32 word) \<and> mget m (ucast p) = None \<and> (\<exists>b. length b = unat n \<and> mget m' = (mget m)(ucast p \<mapsto> b))"
    if "x_malloc linear_exports n m = (Inr p, m')"
  proof -
    have l: "linear_malloc n m = (Inr p, m')" using that by (simp add: linear_exports_def)
    have "mget m' = (mget m)(ucast p \<mapsto> replicate (unat n) 0)"
      unfolding linear_malloc_ok(3) [OF l] by (rule ext) simp
    moreover have "length (replicate (unat n) 0) = unat n" by simp
    ultimately show ?thesis using linear_malloc_ok(1,2) [OF l] by metis
  qed
  show "x_malloc linear_exports n m = (Inl e, m') \<Longrightarrow> mget m' = mget m"
    by (auto simp: linear_exports_def linear_malloc_def Let_def split: if_splits)
  show "x_malloc linear_exports n m = (Inr p, m') \<Longrightarrow> unat n < 2 ^ 32"
    using linear_malloc_ok(4) by (simp add: linear_exports_def)
  show "mget (x_free linear_exports p m) = (mget m)(ucast p := None)"
    by (auto simp: linear_exports_def linear_free_def fun_eq_iff)
next
  fix m :: linear and a l b d
  show "mget m a = Some b \<Longrightarrow> length d = length b \<Longrightarrow>
      \<exists>m'. x_write linear_exports a d m = Some m' \<and> mget m' = (mget m)(a \<mapsto> d)"
    by (auto simp: linear_exports_def linear_write_def fun_eq_iff)
  show "mget m a = Some b \<Longrightarrow> length b = unat l \<Longrightarrow> x_read linear_exports a l m = Some b"
    by (simp add: linear_exports_def linear_read_def)
qed

section \<open>The runner (\<open>runner.go\<close>)\<close>

datatype ValueType = ValueTypeI32 | ValueTypeI64

record compiled_module =
  cm_binary :: bytes
  cm_exports :: "(string, ValueType list \<times> ValueType list) gomap"

text \<open>The modules of the runner, and the compiled modules that have not been closed.\<close>

record runner =
  rn_modules :: "(string, compiled_module) gomap"
  rn_open :: "compiled_module list"

definition required_exports :: "(string \<times> ValueType list \<times> ValueType list) list" where
  "required_exports =
     [(''MakeChallenge'', [ValueTypeI64], [ValueTypeI64]), (''VerifyChallenge'', [ValueTypeI64], [ValueTypeI64]),
      (''malloc'', [ValueTypeI32], [ValueTypeI32]), (''free'', [ValueTypeI32], [])]"

text \<open>The first export that is missing or has the wrong type; a module without an export is closed.\<close>

fun check_exports :: "(string \<times> ValueType list \<times> ValueType list) list \<Rightarrow> compiled_module \<Rightarrow> (bool \<times> go_error) option" where
  "check_exports [] m = None"
| "check_exports ((name, params, results) # rest) m =
     (case mget (cm_exports m) name of
        None \<Rightarrow> Some (True, Err (''no '' @ name @ '' exported''))
      | Some (ps, rs) \<Rightarrow>
          (if ps \<noteq> params then Some (False, Err (name @ '' does not follow parameter interface''))
           else if rs \<noteq> results then Some (False, Err (name @ '' does not follow result interface''))
           else check_exports rest m))"

definition Compile :: "(bytes \<Rightarrow> go_error + compiled_module) \<Rightarrow> string \<Rightarrow> bytes \<Rightarrow> runner \<Rightarrow> go_error option \<times> runner" where
  "Compile compile key binary r =
     (case compile binary of
        Inl e \<Rightarrow> (Some e, r)
      | Inr m \<Rightarrow>
          (case check_exports required_exports m of
             None \<Rightarrow> (None, r\<lparr>rn_modules := mset_key key m (rn_modules r), rn_open := m # rn_open r\<rparr>)
           | Some (True, e) \<Rightarrow> (Some e, r)
           | Some (False, e) \<Rightarrow> (Some e, r\<lparr>rn_open := m # rn_open r\<rparr>)))"

definition ErrModuleNotFound :: go_error where "ErrModuleNotFound = Err ''module not found''"

text \<open>An instance is made by the runtime, with a memory of its own, and closed after the call.\<close>

definition Instantiate :: "(compiled_module \<Rightarrow> go_error + 'm) \<Rightarrow> runner \<Rightarrow> string \<Rightarrow>
    (compiled_module \<Rightarrow> 'm \<Rightarrow> (go_error + 'a) \<times> 'm) \<Rightarrow> go_error + 'a" where
  "Instantiate instantiate r key f =
     (case mget (rn_modules r) key of
        None \<Rightarrow> Inl ErrModuleNotFound
      | Some m \<Rightarrow> (case instantiate m of Inl e \<Rightarrow> Inl e | Inr mem \<Rightarrow> fst (f m mem)))"

lemma check_exports_None:
  "check_exports req m = None \<longleftrightarrow> (\<forall>(n, t) \<in> set req. mget (cm_exports m) n = Some t)"
  by (induction req m rule: check_exports.induct) (auto split: option.splits if_splits)

text \<open>What the runner accepts exports everything the calls use, with the types they use.\<close>

lemma Compile_accepts_iff:
  "fst (Compile compile key binary r) = None \<longleftrightarrow>
     (\<exists>m. compile binary = Inr m \<and> (\<forall>(n, t) \<in> set required_exports. mget (cm_exports m) n = Some t))"
  unfolding check_exports_None [symmetric] by (auto simp: Compile_def split: sum.split option.splits bool.splits)

section \<open>Properties\<close>


text \<open>A JSON library for a single input of each kind.\<close>

definition sample_json :: wasm_json where
  "sample_json =
     \<lparr>wj_enc_make = (\<lambda>i. if i = \<lparr>mci_key = [], mci_params = [], mci_headers = [], mci_data = []\<rparr> then Inr [1] else Inl (Err ''json'')),
      wj_dec_make = (\<lambda>d. Inr \<lparr>mci_key = [], mci_params = [], mci_headers = [], mci_data = []\<rparr>),
      wj_enc_out = (\<lambda>out. if out = \<lparr>mco_data = [], mco_code = 500, mco_headers = [], mco_error = ''e''\<rparr> then Inr [3] else Inl (Err ''json'')),
      wj_dec_out = (\<lambda>d. Inr \<lparr>mco_data = [], mco_code = 500, mco_headers = [], mco_error = ''e''\<rparr>),
      wj_enc_verify = (\<lambda>i. if i = \<lparr>vci_key = [], vci_params = [], vci_result = []\<rparr> then Inr [2] else Inl (Err ''json'')),
      wj_dec_verify = (\<lambda>d. Inr \<lparr>vci_key = [], vci_params = [], vci_result = []\<rparr>)\<rparr>"


end
