(* ===== verification/Wasm_Tool.thy ===== *)
theory Wasm_Tool
  imports Wasm Startup
begin

text \<open>
  The tool that tests a module (\<open>cmd/test-wasm-runtime/main.go\<close>): it compiles the module with the runner,
  makes a challenge and verifies one through the calls of the program, and compares the results with files.
  The files, the compiler of modules, their instances with their memory, and the comparison of Go values
  are parameters; the flags are the record \<open>tool_flags\<close>.
\<close>

section \<open>The tool\<close>

record tool_flags =
  tf_wasm :: string
  tf_makeChallenge :: string
  tf_makeChallengeOutput :: string
  tf_verifyChallenge :: string
  tf_verifyChallengeOutput :: "64 word"

text \<open>
  What the tool runs on. \<open>reflect.DeepEqual\<close> is a parameter because it tells empty lists from missing
  ones, which the model does not.
\<close>

record 'm tool_lib =
  tl_readfile :: "string \<Rightarrow> go_error + bytes"
  tl_json :: wasm_json
  tl_compile :: "bytes \<Rightarrow> go_error + compiled_module"
  tl_instantiate :: "compiled_module \<Rightarrow> go_error + 'm"
  tl_exports :: "compiled_module \<Rightarrow> 'm exports"
  tl_make :: "compiled_module \<Rightarrow> Allocation \<Rightarrow> 'm \<Rightarrow> (go_error + Allocation) \<times> 'm"
  tl_verify :: "compiled_module \<Rightarrow> Allocation \<Rightarrow> 'm \<Rightarrow> (go_error + 64 word) \<times> 'm"
  tl_DeepEqual :: "MakeChallengeOutput \<Rightarrow> MakeChallengeOutput \<Rightarrow> bool"

datatype tool_exit = ToolUsage | ToolPanic go_error | ToolOK

definition read_json :: "'m tool_lib \<Rightarrow> (bytes \<Rightarrow> go_error + 'a) \<Rightarrow> string \<Rightarrow> go_error + 'a" where
  "read_json lib dec f = (case tl_readfile lib f of Inl e \<Rightarrow> Inl e | Inr d \<Rightarrow> dec d)"

definition make_test :: "'m tool_lib \<Rightarrow> MakeChallengeInput \<Rightarrow> MakeChallengeOutput \<Rightarrow> compiled_module \<Rightarrow> 'm \<Rightarrow> (go_error + unit) \<times> 'm" where
  "make_test lib makeIn makeOut md m =
     (case MakeChallengeCall (tl_json lib) (tl_exports lib md) (tl_make lib md) makeIn m of
        (Inl e, m1) \<Rightarrow> (Inl e, m1)
      | (Inr out, m1) \<Rightarrow>
          (if tl_DeepEqual lib out makeOut then (Inr (), m1)
           else (Inl (Err ''challenge output did not match expected output''), m1)))"

definition verify_test :: "'m tool_lib \<Rightarrow> VerifyChallengeInput \<Rightarrow> 64 word \<Rightarrow> compiled_module \<Rightarrow> 'm \<Rightarrow> (go_error + unit) \<times> 'm" where
  "verify_test lib verifyIn expected md m =
     (case VerifyChallengeCall (tl_json lib) (tl_exports lib md) (tl_verify lib md) verifyIn m of
        (Inl e, m1) \<Rightarrow> (Inl e, m1)
      | (Inr out, m1) \<Rightarrow>
          (if out = expected then (Inr (), m1)
           else (Inl (Err ''verify output did not match expected output''), m1)))"

text \<open>The two calls run in instances of their own.\<close>

definition tool_tests :: "'m tool_lib \<Rightarrow> tool_flags \<Rightarrow> runner \<Rightarrow> MakeChallengeInput \<Rightarrow> MakeChallengeOutput \<Rightarrow> VerifyChallengeInput \<Rightarrow> tool_exit" where
  "tool_tests lib tf r makeIn makeOut verifyIn =
     (if mci_key makeIn \<noteq> vci_key verifyIn then ToolPanic (Err ''challenge keys do not match'')
      else (case Instantiate (tl_instantiate lib) r ''test'' (make_test lib makeIn makeOut) of
          Inl e \<Rightarrow> ToolPanic e
        | Inr _ \<Rightarrow>
            (case Instantiate (tl_instantiate lib) r ''test'' (verify_test lib verifyIn (tf_verifyChallengeOutput tf)) of
               Inl e \<Rightarrow> ToolPanic e
             | Inr _ \<Rightarrow> ToolOK)))"

definition tool_main :: "'m tool_lib \<Rightarrow> tool_flags \<Rightarrow> tool_exit" where
  "tool_main lib tf =
     (if tf_wasm tf = [] \<or> tf_makeChallenge tf = [] \<or> tf_makeChallengeOutput tf = [] \<or> tf_verifyChallenge tf = []
      then ToolUsage
      else (case tl_readfile lib (tf_wasm tf) of
          Inl e \<Rightarrow> ToolPanic e
        | Inr wasmData \<Rightarrow>
            (case Compile (tl_compile lib) ''test'' wasmData \<lparr>rn_modules = [], rn_open = []\<rparr> of
               (Some e, r) \<Rightarrow> ToolPanic e
             | (None, r) \<Rightarrow>
                 (case read_json lib (wj_dec_make (tl_json lib)) (tf_makeChallenge tf) of
                    Inl e \<Rightarrow> ToolPanic e
                  | Inr makeIn \<Rightarrow>
                      (case read_json lib (wj_dec_out (tl_json lib)) (tf_makeChallengeOutput tf) of
                         Inl e \<Rightarrow> ToolPanic e
                       | Inr makeOut \<Rightarrow>
                           (case read_json lib (wj_dec_verify (tl_json lib)) (tf_verifyChallenge tf) of
                              Inl e \<Rightarrow> ToolPanic e
                            | Inr verifyIn \<Rightarrow> tool_tests lib tf r makeIn makeOut verifyIn))))))"

text \<open>
  The deferred \<open>Close\<close> of the runner: its modules, in the order of the map, up to the first failure, and
  then the runtime.
\<close>

definition Runner_Close ::
    "(compiled_module \<Rightarrow> go_error option) \<Rightarrow> go_error option \<Rightarrow> compiled_module list \<Rightarrow> go_error option \<times> compiled_module list \<times> bool" where
  "Runner_Close close runtime_close ms =
     (case close_all close ms of
        (Some e, calls) \<Rightarrow> (Some e, calls, False)
      | (None, calls) \<Rightarrow> (runtime_close, calls, True))"

section \<open>Lemmas\<close>

lemma close_all_None: "close_all close obs = (None, calls) \<Longrightarrow> calls = obs \<and> (\<forall>ob \<in> set obs. close ob = None)"
  by (induction obs arbitrary: calls) (auto split: option.splits prod.splits)

lemma Runner_Close_None:
  "Runner_Close close rt ms = (None, calls, b) \<Longrightarrow> calls = ms \<and> b \<and> rt = None \<and> (\<forall>m \<in> set ms. close m = None)"
  using close_all_None by (fastforce simp: Runner_Close_def split: prod.splits option.splits)

lemma Instantiate_known:
  "mget (rn_modules r) key = Some md \<Longrightarrow> instantiate md = Inr m \<Longrightarrow> Instantiate instantiate r key f = fst (f md m)"
  by (simp add: Instantiate_def)

lemma Compile_known:
  assumes "Compile compile key binary r = (None, r')"
  shows "\<exists>md. compile binary = Inr md \<and> mget (rn_modules r') key = Some md"
  using assms by (auto simp: Compile_def split: sum.splits option.splits prod.splits bool.splits)

text \<open>
  The module of a tested program: its functions decode their input and run the callbacks of the program
  (\<open>MakeChallengeDecode\<close>, \<open>VerifyChallengeDecode\<close>), its memory keeps the contract of the allocator.
\<close>

definition built_from ::
    "'m tool_lib \<Rightarrow> compiled_module \<Rightarrow> (MakeChallengeInput \<Rightarrow> MakeChallengeOutput \<Rightarrow> go_error + MakeChallengeOutput) \<Rightarrow>
       (VerifyChallengeInput \<Rightarrow> go_error + verify_output) \<Rightarrow> bool" where
  "built_from lib md mk vf \<longleftrightarrow>
     tl_make lib md = MakeChallengeDecode (tl_json lib) (tl_exports lib md) mk \<and>
     tl_verify lib md = VerifyChallengeDecode (tl_json lib) (tl_exports lib md) vf"

definition no_memory :: "'m exports \<Rightarrow> go_error \<Rightarrow> bool" where
  "no_memory x e \<longleftrightarrow> (\<exists>n m1 m2. x_malloc x n m1 = (Inl e, m2))"

lemma make_test_result:
  assumes "guest_memory (tl_exports lib md) view" "json_ok (tl_json lib)" "built_from lib md mk vf"
    and "wj_enc_make (tl_json lib) makeIn = Inr d" "length d < 2 ^ 64"
    and "wj_enc_out (tl_json lib) (make_output_for mk (Inr makeIn)) = Inr od" "length od < 2 ^ 64"
  shows "(\<exists>e. fst (make_test lib makeIn makeOut md m) = Inl e \<and> no_memory (tl_exports lib md) e) \<or>
    fst (make_test lib makeIn makeOut md m) =
      (if tl_DeepEqual lib (make_output_for mk (Inr makeIn)) makeOut then Inr ()
       else Inl (Err ''challenge output did not match expected output''))"
proof -
  obtain r m' where c: "MakeChallengeCall (tl_json lib) (tl_exports lib md) (tl_make lib md) makeIn m = (r, m')"
      "r = Inr (make_output_for mk (Inr makeIn)) \<or> (\<exists>e. r = Inl e \<and> no_memory (tl_exports lib md) e)"
    using guest_memory.make_call [OF assms(1,2,4-7), of m] assms(3) unfolding built_from_def no_memory_def by metis
  then show ?thesis by (auto simp: make_test_def)
qed

lemma verify_test_result:
  assumes "guest_memory (tl_exports lib md) view" "json_ok (tl_json lib)" "built_from lib md mk vf"
    and "wj_enc_verify (tl_json lib) verifyIn = Inr d" "length d < 2 ^ 64"
  shows "(\<exists>e. fst (verify_test lib verifyIn expected md m) = Inl e \<and> no_memory (tl_exports lib md) e) \<or>
    fst (verify_test lib verifyIn expected md m) =
      (if output_code (verify_output_for vf (Inr verifyIn)) = expected then Inr ()
       else Inl (Err ''verify output did not match expected output''))"
proof -
  obtain r m' where c: "VerifyChallengeCall (tl_json lib) (tl_exports lib md) (tl_verify lib md) verifyIn m = (r, m')"
      "r = Inr (output_code (verify_output_for vf (Inr verifyIn))) \<or> (\<exists>e. r = Inl e \<and> no_memory (tl_exports lib md) e)"
    using guest_memory.verify_call [OF assms(1,2,4,5), of vf m] assms(3) unfolding built_from_def no_memory_def by metis
  then show ?thesis by (auto simp: verify_test_def)
qed

section \<open>The property\<close>


definition sample_module :: compiled_module where
  "sample_module = \<lparr>cm_binary = [7], cm_exports = required_exports\<rparr>"

definition sample_tool :: "linear tool_lib" where
  "sample_tool =
     \<lparr>tl_readfile = \<lambda>f. Inr [7], tl_json = sample_json, tl_compile = \<lambda>b. Inr sample_module, tl_instantiate = \<lambda>md. Inr [],
      tl_exports = \<lambda>md. linear_exports,
      tl_make = \<lambda>md. MakeChallengeDecode sample_json linear_exports (\<lambda>_ _. Inl (Err ''e'')),
      tl_verify = \<lambda>md. VerifyChallengeDecode sample_json linear_exports (verify_challenge sample_pow),
      tl_DeepEqual = \<lambda>a b. a = b\<rparr>"

definition sample_tool_flags :: "64 word \<Rightarrow> tool_flags" where
  "sample_tool_flags n = \<lparr>tf_wasm = ''w'', tf_makeChallenge = ''m'', tf_makeChallengeOutput = ''o'', tf_verifyChallenge = ''v'',
     tf_verifyChallengeOutput = n\<rparr>"


end
