(* ===== verification/Dnsbl_Sweep.thy ===== *)
theory Dnsbl_Sweep
  imports Runtimes "HOL-Library.Signed_Division"
begin

text \<open>
  The goroutine that a DNSBL registration starts (\<open>lib/challenge/dnsbl/dnsbl.go\<close>): a ticker removes the
  expired answers from the map of the registration until the registration is closed, while requests look
  addresses up in the same map. Each method of the map holds its lock (\<open>Decay_Map\<close> has the steps inside of
  a lookup), so an operation of the map is one step here.
\<close>

section \<open>The goroutine\<close>

text \<open>
  \<open>NewTicker\<close> panics when its period is not positive, and a panic in a goroutine ends the process.
\<close>

datatype sweeper = Starting | Waiting | Ended | Crashed

record ('k, 'v) sweep =
  sw_map :: "('k, 'v) decay_map"
  sw_closed :: bool
  sw_pc :: sweeper

datatype ('k, 'v) sweep_op =
    NewTicker
  | TickerFires
  | CloserSeen
  | CloseCalled
  | MapGet 'k
  | MapSet 'k 'v duration

definition ticker_period :: "duration \<Rightarrow> duration" where
  "ticker_period timeout = timeout sdiv 3"

definition closer_Close :: "('k, 'v) sweep \<Rightarrow> ('k, 'v) sweep" where
  "closer_Close s = (if sw_closed s then s else s\<lparr>sw_closed := True\<rparr>)"

text \<open>
  The operations that can happen next. When the ticker and the closer are both ready, \<open>select\<close> takes
  either.
\<close>

fun can_happen :: "('k, 'v) sweep_op \<Rightarrow> ('k, 'v) sweep \<Rightarrow> bool" where
  "can_happen NewTicker s \<longleftrightarrow> sw_pc s = Starting"
| "can_happen TickerFires s \<longleftrightarrow> sw_pc s = Waiting"
| "can_happen CloserSeen s \<longleftrightarrow> sw_pc s = Waiting \<and> sw_closed s"
| "can_happen CloseCalled s \<longleftrightarrow> sw_pc s \<noteq> Crashed"
| "can_happen (MapGet k) s \<longleftrightarrow> sw_pc s \<noteq> Crashed"
| "can_happen (MapSet k v ttl) s \<longleftrightarrow> sw_pc s \<noteq> Crashed"

fun sweep_step :: "duration \<Rightarrow> go_time \<Rightarrow> ('k, 'v) sweep_op \<Rightarrow> ('k, 'v) sweep \<Rightarrow> 'v option list \<times> ('k, 'v) sweep" where
  "sweep_step timeout t NewTicker s = ([], s\<lparr>sw_pc := (if ticker_period timeout \<le> 0 then Crashed else Waiting)\<rparr>)"
| "sweep_step timeout t TickerFires s = ([], s\<lparr>sw_map := decay t (sw_map s)\<rparr>)"
| "sweep_step timeout t CloserSeen s = ([], s\<lparr>sw_pc := Ended\<rparr>)"
| "sweep_step timeout t CloseCalled s = ([], closer_Close s)"
| "sweep_step timeout t (MapGet k) s = (case decay_get t k (sw_map s) of (r, m) \<Rightarrow> ([r], s\<lparr>sw_map := m\<rparr>))"
| "sweep_step timeout t (MapSet k v ttl) s = ([], s\<lparr>sw_map := decay_set t k v ttl (sw_map s)\<rparr>)"

text \<open>
  A run: the operations with the times at which they happen, and the answers of the lookups. An operation
  that cannot happen makes the sequence no run.
\<close>

fun sweep_run :: "duration \<Rightarrow> (go_time \<times> ('k, 'v) sweep_op) list \<Rightarrow> ('k, 'v) sweep \<Rightarrow> ('v option list \<times> ('k, 'v) sweep) option" where
  "sweep_run timeout [] s = Some ([], s)"
| "sweep_run timeout ((t, a) # xs) s =
     (if can_happen a s then
        (case sweep_step timeout t a s of (r, s1) \<Rightarrow>
           (case sweep_run timeout xs s1 of None \<Rightarrow> None | Some (rs, s2) \<Rightarrow> Some (r @ rs, s2)))
      else None)"

definition new_sweep :: "('k, 'v) sweep" where
  "new_sweep = \<lparr>sw_map = [], sw_closed = False, sw_pc = Starting\<rparr>"

text \<open>The requests of a run, and what they would be answered without the goroutine.\<close>

fun is_request :: "('k, 'v) sweep_op \<Rightarrow> bool" where
  "is_request (MapGet k) = True"
| "is_request (MapSet k v ttl) = True"
| "is_request _ = False"

fun answer_requests :: "(go_time \<times> ('k, 'v) sweep_op) list \<Rightarrow> ('k, 'v) decay_map \<Rightarrow> 'v option list" where
  "answer_requests [] m = []"
| "answer_requests ((t, MapGet k) # xs) m = (case decay_get t k m of (r, m1) \<Rightarrow> r # answer_requests xs m1)"
| "answer_requests ((t, MapSet k v ttl) # xs) m = answer_requests xs (decay_set t k v ttl m)"
| "answer_requests ((t, _) # xs) m = answer_requests xs m"

section \<open>Lemmas\<close>

lemma ticker_period_pos: "0 < ticker_period timeout \<longleftrightarrow> 3 \<le> timeout"
  by (cases "0 \<le> timeout") (auto simp: ticker_period_def signed_divide_int_def sgn_if pos_imp_zdiv_pos_iff)

text \<open>Two maps that look the same from a time on.\<close>

definition same_from :: "go_time \<Rightarrow> ('k, 'v) decay_map \<Rightarrow> ('k, 'v) decay_map \<Rightarrow> bool" where
  "same_from t m m' \<longleftrightarrow> wf_map m \<and> wf_map m' \<and> (\<forall>later k. t \<le> later \<longrightarrow> live later m k = live later m' k)"

lemma same_from_later: "same_from t m m' \<Longrightarrow> t \<le> t' \<Longrightarrow> same_from t' m m'"
  by (auto simp: same_from_def)

lemma same_from_ops:
  assumes "same_from t m m'"
  shows "fst (decay_get t k m) = fst (decay_get t k m')"
    and "same_from t (snd (decay_get t k m)) (snd (decay_get t k m'))"
    and "same_from t (decay_set t k v ttl m) (decay_set t k v ttl m')"
    and "same_from t (decay t m) m'"
  using assms by (simp_all add: same_from_def decay_get_value live_decay_get live_decay_set live_decay)

lemma sweep_run_answers:
  assumes "sweep_run timeout xs s = Some (rs, s')" "sorted (map fst xs)" "\<forall>t \<in> set (map fst xs). t0 \<le> t"
    and "same_from t0 (sw_map s) m"
  shows "rs = answer_requests xs m"
  using assms
proof (induction xs arbitrary: s m t0 rs)
  case Nil
  then show ?case by simp
next
  case (Cons x xs)
  obtain t a where x: "x = (t, a)" by (cases x)
  obtain r s1 where st: "sweep_step timeout t a s = (r, s1)" by (cases "sweep_step timeout t a s")
  from Cons.prems(1) x st obtain rs1 where r: "sweep_run timeout xs s1 = Some (rs1, s')" "rs = r @ rs1"
    by (auto split: if_splits option.splits)
  have o: "sorted (map fst xs)" "\<forall>u \<in> set (map fst xs). t \<le> u" using Cons.prems(2) x by auto
  have e: "same_from t (sw_map s) m" using Cons.prems(3,4) x by (auto intro: same_from_later)
  note ih = Cons.IH [OF r(1) o]
  show ?case
  proof (cases a)
    case (MapGet k)
    then have s1: "r = [fst (decay_get t k (sw_map s))]" "sw_map s1 = snd (decay_get t k (sw_map s))"
      using st by (auto split: prod.splits)
    have "rs1 = answer_requests xs (snd (decay_get t k m))"
      by (rule ih) (simp add: s1 same_from_ops(2) [OF e])
    then show ?thesis by (simp add: x MapGet r s1 same_from_ops(1) [OF e] split: prod.split)
  next
    case (MapSet k v ttl)
    then have s1: "r = []" "sw_map s1 = decay_set t k v ttl (sw_map s)" using st by auto
    have "rs1 = answer_requests xs (decay_set t k v ttl m)" by (rule ih) (simp add: s1 same_from_ops(3) [OF e])
    then show ?thesis by (simp add: x MapSet r s1)
  qed (use st r ih e same_from_ops(4) [OF e] in \<open>auto simp: x closer_Close_def split: if_splits\<close>)
qed

lemma sweep_step_pc:
  assumes "can_happen a s" "sw_pc s \<noteq> Crashed" "sw_pc (snd (sweep_step timeout t a s)) = Crashed"
  shows "timeout < 3"
  using assms ticker_period_pos [of timeout]
  by (cases a) (auto simp: closer_Close_def split: if_splits prod.splits)

lemma sweep_run_crash:
  "sweep_run timeout xs s = Some (rs, s') \<Longrightarrow> sw_pc s \<noteq> Crashed \<Longrightarrow> sw_pc s' = Crashed \<Longrightarrow> timeout < 3"
proof (induction timeout xs s arbitrary: rs rule: sweep_run.induct)
  case (2 timeout t a xs s)
  obtain r s1 where st: "sweep_step timeout t a s = (r, s1)" by (cases "sweep_step timeout t a s")
  from "2.prems"(1) st have c: "can_happen a s" by (auto split: if_splits)
  from "2.prems"(1) st c obtain rs1 where r: "sweep_run timeout xs s1 = Some (rs1, s')" by (auto split: option.splits)
  show ?case
  proof (cases "sw_pc s1 = Crashed")
    case True
    then show ?thesis using sweep_step_pc [OF c "2.prems"(2), of timeout t] st by simp
  next
    case False
    then show ?thesis using "2.IH" [OF c st [symmetric] r _ "2.prems"(3)] by simp
  qed
qed simp

text \<open>Closing twice is closing once, and a goroutine of a closed registration can always end.\<close>

lemma closer_Close_idem [simp]: "closer_Close (closer_Close s) = closer_Close s"
  by (simp add: closer_Close_def)

lemma closed_ends: "sw_closed s \<Longrightarrow> sw_pc s = Waiting \<Longrightarrow> can_happen CloserSeen s"
  by simp

section \<open>The properties\<close>

text \<open>
  C15: the goroutine never changes an answer. In every interleaving of lookups, insertions, ticks and the
  closing of the registration, the lookups are answered as if no goroutine removed anything.
\<close>

theorem sweep_transparent:
  assumes "sweep_run timeout xs new_sweep = Some (rs, s')" "sorted (map fst xs)"
  shows "rs = answer_requests xs []"
proof (cases xs)
  case Nil
  then show ?thesis using assms(1) by simp
next
  case (Cons x ys)
  have "\<forall>t \<in> set (map fst xs). fst x \<le> t" using assms(2) Cons by auto
  then show ?thesis using assms by (intro sweep_run_answers) (auto simp: new_sweep_def same_from_def)
qed

theorem sweep_transparent_witness:
  "\<exists>rs s'. sweep_run 9 [(0, NewTicker), (1, MapSet (7 :: nat) True 5), (4, TickerFires), (5, MapGet 7), (8, TickerFires), (9, MapGet 7)]
       new_sweep = Some (rs, s') \<and> rs = [Some True, None]"
proof -
  let ?xs = "[(0, NewTicker), (1, MapSet (7 :: nat) True 5), (4, TickerFires), (5, MapGet 7), (8, TickerFires), (9, MapGet 7)]
     :: (go_time \<times> (nat, bool) sweep_op) list"
  have p: "\<not> ticker_period 9 \<le> 0" using ticker_period_pos [of 9] by simp
  have r: "\<exists>rs s'. sweep_run 9 ?xs new_sweep = Some (rs, s')"
    by (auto simp: new_sweep_def p split: prod.splits)
  have a: "answer_requests ?xs [] = [Some True, None]"
    by (simp add: decay_get_def decay_set_def expired_def)
  from r obtain rs s' where r': "sweep_run 9 ?xs new_sweep = Some (rs, s')" by blast
  have "rs = answer_requests ?xs []" by (rule sweep_transparent [OF r']) simp
  with r' a show ?thesis by blast
qed

text \<open>
  a short timeout ends the process. Filling the registration in accepts every timeout, but the
  goroutine panics, at its first step, exactly when the timeout is less than three nanoseconds, zero
  included; with any other timeout it never does.
\<close>

theorem short_timeout_crashes:
  "(\<exists>xs rs s'. sweep_run timeout xs (new_sweep :: ('k, 'v) sweep) = Some (rs, s') \<and> sw_pc s' = Crashed) \<longleftrightarrow> timeout < 3"
proof
  assume "timeout < 3"
  then have "ticker_period timeout \<le> 0" using ticker_period_pos [of timeout] by linarith
  then have "sweep_run timeout [(0, NewTicker)] (new_sweep :: ('k, 'v) sweep) = Some ([], new_sweep\<lparr>sw_pc := Crashed\<rparr>)"
    by (simp add: new_sweep_def)
  then show "\<exists>xs rs s'. sweep_run timeout xs (new_sweep :: ('k, 'v) sweep) = Some (rs, s') \<and> sw_pc s' = Crashed"
    by (metis sweep.select_convs(3) sweep.surjective sweep.update_convs(3))
next
  assume "\<exists>xs rs s'. sweep_run timeout xs (new_sweep :: ('k, 'v) sweep) = Some (rs, s') \<and> sw_pc s' = Crashed"
  then show "timeout < 3" using sweep_run_crash by (fastforce simp: new_sweep_def)
qed

lemma fill_accepts_timeout:
  assumes "decode_params y_dnsbl parameters dnsbl_defaults = Inr params" "dp_host params \<noteq> []"
  shows "\<exists>reg'. fill_dnsbl parameters reg = Inr reg' \<and> reg_runtime reg' = RDnsbl (dp_host params) (dp_decay params) (dp_timeout params)"
  using assms by (simp add: fill_dnsbl_def)

end
