(* ===== verification/Embed.thy ===== *)
theory Embed
  imports Wasm Startup
begin

text \<open>
  The files that are compiled into the program (\<open>embed/embed.go\<close>): the file systems of the challenges and
  of the templates, the templates that are parsed when the program starts (\<open>lib/template.go\<close>), and how a
  JavaScript challenge finds its module (\<open>lib/challenge/wasm/registration.go\<close>). The result is the argument
  \<open>assets\<close> of the runtimes and the map of templates that making a state starts from.
\<close>

section \<open>Embedded file systems\<close>

text \<open>The files by their path; a directory is there when a file is below it.\<close>

type_synonym vfs = "(string, bytes) gomap"

definition vfs_isdir :: "vfs \<Rightarrow> string \<Rightarrow> bool" where
  "vfs_isdir fs dir \<longleftrightarrow> dir = ''.'' \<or> list_ex (\<lambda>(p, b). HasPrefix p (dir @ ''/'')) fs"

definition vfs_Sub :: "vfs \<Rightarrow> string \<Rightarrow> vfs" where
  "vfs_Sub fs dir =
     (if dir = ''.'' then fs
      else map (\<lambda>(p, b). (drop (Suc (length dir)) p, b)) (filter (\<lambda>(p, b). HasPrefix p (dir @ ''/'')) fs))"

definition vfs_ReadFile :: "vfs \<Rightarrow> string \<Rightarrow> go_error + bytes" where
  "vfs_ReadFile fs name =
     (case mget fs name of None \<Rightarrow> Inl (Err (''open '' @ name @ '': file does not exist'')) | Some b \<Rightarrow> Inr b)"

text \<open>The entries of the root that are files.\<close>

definition vfs_files :: "vfs \<Rightarrow> (string \<times> bytes) list" where
  "vfs_files fs = filter (\<lambda>(p, b). CHR ''/'' \<notin> set p) fs"

record embedded =
  em_assets :: vfs
  em_challenge :: vfs
  em_templates :: vfs

definition trimPrefix :: "vfs \<Rightarrow> string \<Rightarrow> vfs" where
  "trimPrefix fs prefix = vfs_Sub fs prefix"

definition ChallengeFs :: "embedded \<Rightarrow> vfs" where
  "ChallengeFs em = trimPrefix (em_challenge em) ''challenge''"

definition TemplatesFs :: "embedded \<Rightarrow> vfs" where
  "TemplatesFs em = trimPrefix (em_templates em) ''templates''"

definition AssetsFs :: "embedded \<Rightarrow> vfs" where
  "AssetsFs em = trimPrefix (em_assets em) ''assets''"

text \<open>\<open>stat\<close> says whether a path is a directory on disk.\<close>

definition GetFallbackFS :: "(string \<Rightarrow> bool) \<Rightarrow> vfs \<Rightarrow> string \<Rightarrow> go_error + vfs" where
  "GetFallbackFS stat embedFS prefix =
     (if stat prefix then Inr embedFS
      else if vfs_isdir embedFS prefix then Inr (vfs_Sub embedFS prefix)
      else Inl (Err (''open '' @ prefix @ '': file does not exist'')))"

section \<open>Templates\<close>

definition initTemplate :: "(string \<Rightarrow> bytes \<Rightarrow> go_error + 't) \<Rightarrow> string \<Rightarrow> bytes \<Rightarrow> (string, 't) gomap \<Rightarrow> go_error + (string, 't) gomap" where
  "initTemplate parse name content templates =
     (case parse name content of Inl e \<Rightarrow> Inl e | Inr t \<Rightarrow> Inr (mset_key name t templates))"

fun init_files :: "(string \<Rightarrow> bytes \<Rightarrow> go_error + 't) \<Rightarrow> (string \<times> bytes) list \<Rightarrow> (string, 't) gomap \<Rightarrow> go_error + (string, 't) gomap" where
  "init_files parse [] templates = Inr templates"
| "init_files parse ((name, content) # fs) templates =
     (case initTemplate parse name content templates of Inl e \<Rightarrow> Inl e | Inr t \<Rightarrow> init_files parse fs t)"

text \<open>The left result is a panic.\<close>

definition init_templates :: "(string \<Rightarrow> bytes \<Rightarrow> go_error + 't) \<Rightarrow> embedded \<Rightarrow> go_error + (string, 't) gomap" where
  "init_templates parse em = init_files parse (vfs_files (TemplatesFs em)) []"

section \<open>The module of a JavaScript challenge\<close>

definition empty_runner :: runner where
  "empty_runner = \<lparr>rn_modules = [], rn_open = []\<rparr>"

definition js_assets ::
    "(string \<Rightarrow> bool) \<Rightarrow> vfs \<Rightarrow> (bool \<Rightarrow> bytes \<Rightarrow> go_error + compiled_module) \<Rightarrow> string \<Rightarrow> string \<Rightarrow> bool \<Rightarrow> go_error option" where
  "js_assets stat fs compile path runtime native =
     (case GetFallbackFS stat fs path of
        Inl e \<Rightarrow> Some e
      | Inr assetsFs \<Rightarrow>
          (case vfs_ReadFile assetsFs (path_Join ''runtime'' runtime) of
             Inl e \<Rightarrow> Some (Wrap ''could not load runtime'' e)
           | Inr wasmData \<Rightarrow>
               (case fst (Compile (compile native) ''runtime'' wasmData empty_runner) of
                  Some e \<Rightarrow> Some (Wrap ''compiling runtime'' e)
                | None \<Rightarrow> None)))"

section \<open>Lemmas\<close>

lemma HasPrefix_below: "HasPrefix (dir @ CHR ''/'' # p) (dir @ ''/'')"
  by (simp add: HasPrefix_def)

text \<open>A file below a directory has the rest of its path in the file system of the directory.\<close>

lemma vfs_Sub_get: "mget (vfs_Sub fs dir) p = mget fs (if dir = ''.'' then p else dir @ CHR ''/'' # p)"
proof -
  have "mget (map (\<lambda>(q, b). (drop (Suc (length dir)) q, b)) (filter (\<lambda>(q, b). HasPrefix q (dir @ ''/'')) fs)) p =
      mget fs (dir @ CHR ''/'' # p)"
  proof (induction fs)
    case (Cons f fs)
    obtain q b where f: "f = (q, b)" by (cases f)
    have "HasPrefix q (dir @ ''/'') \<Longrightarrow> q = dir @ CHR ''/'' # drop (Suc (length dir)) q"
      unfolding HasPrefix_def by (metis append_take_drop_id append_Cons append_Nil append_assoc length_append_singleton)
    then show ?case using Cons HasPrefix_below [of dir p] by (auto simp: f mget_Cons)
  qed simp
  then show ?thesis by (simp add: vfs_Sub_def)
qed

lemma vfs_isdir_below: "mget fs (dir @ CHR ''/'' # p) = Some b \<Longrightarrow> vfs_isdir fs dir"
  unfolding vfs_isdir_def list_ex_iff mget_def using HasPrefix_below map_of_SomeD by fastforce

lemma init_files_get:
  "init_files parse fs m = Inr m' \<Longrightarrow> mget m' name \<noteq> None \<longleftrightarrow> name \<in> fst ` set fs \<or> mget m name \<noteq> None"
  by (induction parse fs m arbitrary: m' rule: init_files.induct)
    (auto simp: initTemplate_def split: sum.splits if_splits)

section \<open>Properties\<close>

text \<open>
  A challenge whose module is embedded under its name and exports what the calls use can be configured
  exactly when no directory of that name is in the working directory: with such a directory the module
  is looked for at the root of the embedded files.
\<close>

theorem embedded_module_found:
  assumes "mget fs (path @ CHR ''/'' # path_Join ''runtime'' rt) = Some wasm" "path \<noteq> ''.''"
    and "mget fs (path_Join ''runtime'' rt) = None"
    and "compile native wasm = Inr m" "\<forall>(n, t) \<in> set required_exports. mget (cm_exports m) n = Some t"
  shows "js_assets stat fs compile path rt native = None \<longleftrightarrow> \<not> stat path"
proof (cases "stat path")
  case True
  then show ?thesis by (simp add: js_assets_def GetFallbackFS_def vfs_ReadFile_def assms(3))
next
  case False
  have f: "GetFallbackFS stat fs path = Inr (vfs_Sub fs path)"
    using False vfs_isdir_below [OF assms(1)] by (simp add: GetFallbackFS_def)
  have r: "vfs_ReadFile (vfs_Sub fs path) (path_Join ''runtime'' rt) = Inr wasm"
    using assms(1,2) by (simp add: vfs_ReadFile_def vfs_Sub_get)
  have "fst (Compile (compile native) ''runtime'' wasm empty_runner) = None"
    unfolding Compile_accepts_iff using assms(4,5) by blast
  then show ?thesis using False by (simp add: js_assets_def f r)
qed

text \<open>A JavaScript challenge that finds its module is registered, and one that does not is refused.\<close>

corollary embedded_challenge_fills:
  assumes "mget fs (reg_name reg @ CHR ''/'' # path_Join ''runtime'' (ws_runtime params)) = Some wasm" "reg_name reg \<noteq> ''.''"
    and "mget fs (path_Join ''runtime'' (ws_runtime params)) = None"
    and "compile (ws_native params) wasm = Inr m" "\<forall>(n, t) \<in> set required_exports. mget (cm_exports m) n = Some t"
    and "decode_params y_wasm parameters wasm_defaults = Inr params" "ws_path params = []"
  shows "isl (fill_js (js_assets stat fs compile) parameters reg) \<longleftrightarrow> stat (reg_name reg)"
proof -
  have "js_assets stat fs compile (reg_name reg) (ws_runtime params) (ws_native params) = None \<longleftrightarrow> \<not> stat (reg_name reg)"
    by (rule embedded_module_found) (rule assms)+
  then show ?thesis
    by (cases "js_assets stat fs compile (reg_name reg) (ws_runtime params) (ws_native params)")
      (simp_all add: fill_js_def assms(6,7) Let_def)
qed

text \<open>A template that is embedded is found without reading a file, whatever the disk holds.\<close>

theorem embedded_template_loads:
  assumes "init_templates parse em = Inr templates" "page_template name \<in> fst ` set (vfs_files (TemplatesFs em))"
  shows "load_template readfile parse' name templates = (Inr name, templates)"
proof -
  have "mget templates (page_template name) \<noteq> None"
    using init_files_get [OF assms(1) [unfolded init_templates_def]] assms(2) by simp
  then show ?thesis by (simp add: load_template_def)
qed

definition sample_embedded :: embedded where
  "sample_embedded =
     \<lparr>em_assets = [(''assets/static/logo.png'', [1])], em_challenge = [(''challenge/js/runtime/runtime.wasm'', [2])],
      em_templates = [(''templates/challenge-anubis.gohtml'', [3]), (''templates/challenge-forgejo.gohtml'', [4])]\<rparr>"

lemma sample_fs:
  "ChallengeFs sample_embedded = [(''js/runtime/runtime.wasm'', [2])]"
  "TemplatesFs sample_embedded = [(''challenge-anubis.gohtml'', [3]), (''challenge-forgejo.gohtml'', [4])]"
  by (simp_all add: ChallengeFs_def TemplatesFs_def trimPrefix_def vfs_Sub_def sample_embedded_def HasPrefix_def)

theorem embedded_template_loads_witness:
  "\<exists>templates. init_templates (\<lambda>n b. Inr b) sample_embedded = Inr templates \<and>
     load_template (\<lambda>f. Inl (Err ''no file'')) (\<lambda>n b. Inr b) ''forgejo'' templates = (Inr ''forgejo'', templates)"
proof -
  obtain m where m: "init_templates (\<lambda>n b. Inr b) sample_embedded = Inr m"
    by (simp add: init_templates_def sample_fs vfs_files_def initTemplate_def)
  have "page_template ''forgejo'' \<in> fst ` set (vfs_files (TemplatesFs sample_embedded))"
    by (simp add: sample_fs vfs_files_def page_template_def)
  from embedded_template_loads [OF m this] m show ?thesis by blast
qed

theorem embedded_module_found_witness:
  "js_assets (\<lambda>d. False) (ChallengeFs sample_embedded)
     (\<lambda>native b. Inr \<lparr>cm_binary = b, cm_exports = required_exports\<rparr>) ''js'' ''runtime.wasm'' True = None \<and>
   js_assets (\<lambda>d. d = ''js'') (ChallengeFs sample_embedded)
     (\<lambda>native b. Inr \<lparr>cm_binary = b, cm_exports = required_exports\<rparr>) ''js'' ''runtime.wasm'' True \<noteq> None"
proof -
  have j: "path_Join ''runtime'' ''runtime.wasm'' = ''runtime/runtime.wasm''" by code_simp
  let ?m = "\<lparr>cm_binary = [2], cm_exports = required_exports\<rparr> :: compiled_module"
  have f: "mget (ChallengeFs sample_embedded) (''js'' @ CHR ''/'' # path_Join ''runtime'' ''runtime.wasm'') = Some [2]"
    "''js'' \<noteq> ''.''" "mget (ChallengeFs sample_embedded) (path_Join ''runtime'' ''runtime.wasm'') = None"
    by (simp_all add: j sample_fs mget_Cons)
  have e: "\<forall>(n, t) \<in> set required_exports. mget (cm_exports ?m) n = Some t"
    by (simp add: required_exports_def mget_Cons)
  show ?thesis
    using embedded_module_found [OF f, of "\<lambda>native b. Inr \<lparr>cm_binary = b, cm_exports = required_exports\<rparr>" True ?m] e by simp
qed

end
