(* ===== verification/Fingerprint.thy ===== *)
theory Fingerprint
  imports Hex "HOL-Library.Multiset"
begin

unbundle bit_operations_syntax

text \<open>
  The TLS fingerprints (\<open>utils/fingerprint.go\<close>): what JA3N and JA4 make of a client hello. The hashes are
  arguments.
\<close>

section \<open>Client hellos\<close>

record client_hello =
  ch_versions :: "16 word list"
  ch_ciphers :: "16 word list"
  ch_extensions :: "16 word list"
  ch_curves :: "16 word list"
  ch_points :: "8 word list"
  ch_schemes :: "16 word list"
  ch_protos :: "string list"
  ch_server_name :: string

definition greaseMask :: "16 word" where "greaseMask = 0x0F0F"
definition greaseValue :: "16 word" where "greaseValue = 0x0a0a"

definition is_grease :: "16 word \<Rightarrow> bool" where
  "is_grease v \<longleftrightarrow> v AND greaseMask = greaseValue"

definition extensionServerName :: "16 word" where "extensionServerName = 0"
definition extensionALPN :: "16 word" where "extensionALPN = 16"
definition extensionSupportedVersions :: "16 word" where "extensionSupportedVersions = 43"
definition VersionTLS12 :: "16 word" where "VersionTLS12 = 0x0303"

text \<open>The loop over the versions: the largest one that is not grease, and whether there is grease.\<close>

definition scan_versions :: "16 word list \<Rightarrow> 16 word \<times> bool" where
  "scan_versions vs =
     fold (\<lambda>v (best, grease). if \<not> is_grease v then (if v > best then v else best, grease) else (best, True)) vs (0, False)"

section \<open>JA3\<close>

text \<open>A list of numbers, each followed by a dash; the last dash is cut off when there was one.\<close>

definition ja3_list :: "nat list \<Rightarrow> string \<Rightarrow> string" where
  "ja3_list xs buf =
     (case fold (\<lambda>x (b, n :: nat). (b @ decimal x @ ''-'', 1)) xs (buf, 0) of (b, n) \<Rightarrow> take (length b - n) b)"

definition ja3_numbers :: "16 word list \<Rightarrow> nat list" where
  "ja3_numbers vs = map unat (filter (\<lambda>v. \<not> is_grease v) vs)"

definition ja3_version :: "client_hello \<Rightarrow> 16 word" where
  "ja3_version hello =
     (case scan_versions (ch_versions hello) of (best, grease) \<Rightarrow>
        if extensionSupportedVersions \<in> set (ch_extensions hello) \<and> grease \<and> best > VersionTLS12 then VersionTLS12 else best)"

definition ja3_text :: "client_hello \<Rightarrow> bool \<Rightarrow> string" where
  "ja3_text hello sortExtensions =
     (let b1 = decimal (unat (ja3_version hello)) @ '','';
          b2 = ja3_list (ja3_numbers (ch_ciphers hello)) b1 @ '','';
          extensions = (if sortExtensions then sort (ch_extensions hello) else ch_extensions hello);
          b3 = ja3_list (ja3_numbers extensions) b2 @ '','';
          b4 = ja3_list (ja3_numbers (ch_curves hello)) b3 @ '',''
      in ja3_list (map unat (ch_points hello)) b4)"

definition tlsFingerprintJA3 :: "(bytes \<Rightarrow> bytes) \<Rightarrow> client_hello \<Rightarrow> bool \<Rightarrow> bytes" where
  "tlsFingerprintJA3 md5 hello sortExtensions = md5 (bytes_of (ja3_text hello sortExtensions))"

section \<open>JA4\<close>

record ja4 =
  ja4_A :: string
  ja4_B :: bytes
  ja4_C :: bytes

text \<open>\<open>fmt.Sprintf("%04x")\<close>\<close>

definition hex4 :: "16 word \<Rightarrow> string" where
  "hex4 v = hex_encode [ucast (drop_bit 8 v), ucast v]"

definition uint16SliceToHex :: "16 word list \<Rightarrow> string" where
  "uint16SliceToHex xs = (if xs = [] then [] else butlast (concat (map (\<lambda>v. hex4 v @ '','') xs)))"

definition ja4SHA256 :: "(bytes \<Rightarrow> bytes) \<Rightarrow> string \<Rightarrow> bytes" where
  "ja4SHA256 sha buf = (if buf = [] then [0, 0, 0, 0, 0, 0] else take 6 (sha (bytes_of buf)))"

definition ja4_version :: "16 word \<Rightarrow> string" where
  "ja4_version v =
     (if v = 0x0300 then ''s3'' else if v = 0x0301 then ''10'' else if v = 0x0302 then ''11''
      else if v = 0x0303 then ''12'' else if v = 0x0304 then ''13''
      else (let w = v - 0x0201 in decimal (unat (drop_bit 8 w)) @ decimal (unat (w AND 0xff))))"

definition two_digits :: "nat \<Rightarrow> string" where
  "two_digits n = (if n < 10 then ''0'' @ decimal n else if n > 99 then ''99'' else decimal n)"

definition ja4_alpn :: "string list \<Rightarrow> string" where
  "ja4_alpn protos =
     (case protos of p # _ \<Rightarrow> (if length p > 1 then [hd p, last p] else ''00'') | [] \<Rightarrow> ''00'')"

definition ungrease :: "16 word list \<Rightarrow> 16 word list" where
  "ungrease xs = filter (\<lambda>v. \<not> is_grease v) xs"

text \<open>\<open>copy\<close> into the array of ten bytes drops what does not fit and leaves the rest zero.\<close>

definition copy10 :: "string \<Rightarrow> string" where
  "copy10 buf = take 10 (buf @ replicate 10 (CHR 0x00))"

definition tlsFingerprintJA4 :: "(bytes \<Rightarrow> bytes) \<Rightarrow> client_hello \<Rightarrow> ja4" where
  "tlsFingerprintJA4 sha hello =
     (let version = ja4_version (fst (scan_versions (ch_versions hello)));
          sni = (if extensionServerName \<in> set (ch_extensions hello) \<and> ch_server_name hello \<noteq> [] then ''d'' else ''i'');
          ciphers = sort (ungrease (ch_ciphers hello));
          extensionCount = length (ungrease (ch_extensions hello));
          extensions = sort (filter (\<lambda>e. e \<noteq> extensionALPN \<and> e \<noteq> extensionServerName) (ungrease (ch_extensions hello)));
          schemes = ungrease (ch_schemes hello);
          buf = ''t'' @ version @ sni @ two_digits (length ciphers) @ two_digits extensionCount @ ja4_alpn (ch_protos hello);
          extBuf = uint16SliceToHex extensions @ (if schemes \<noteq> [] then ''_'' @ uint16SliceToHex schemes else [])
      in \<lparr>ja4_A = copy10 buf, ja4_B = ja4SHA256 sha (uint16SliceToHex ciphers), ja4_C = ja4SHA256 sha extBuf\<rparr>)"

definition ja4_String :: "ja4 \<Rightarrow> string" where
  "ja4_String f = Join ''_'' [ja4_A f, hex_encode (ja4_B f), hex_encode (ja4_C f)]"

definition ja3n_String :: "bytes \<Rightarrow> string" where
  "ja3n_String f = hex_encode f"

definition buildTLSFingerprint :: "(bytes \<Rightarrow> bytes) \<Rightarrow> (bytes \<Rightarrow> bytes) \<Rightarrow> client_hello \<Rightarrow> bytes \<times> ja4" where
  "buildTLSFingerprint md5 sha hello = (tlsFingerprintJA3 md5 hello True, tlsFingerprintJA4 sha hello)"

text \<open>
  What a connection keeps: nothing until the client hello has been seen, then both fingerprints, which
  the requests of the connection read.
\<close>

type_synonym conn_fingerprint = "(bytes \<times> ja4) option"

definition GetConfigForClient :: "(bytes \<Rightarrow> bytes) \<Rightarrow> (bytes \<Rightarrow> bytes) \<Rightarrow> client_hello \<Rightarrow> conn_fingerprint \<Rightarrow> conn_fingerprint" where
  "GetConfigForClient md5 sha hello ptr = Some (buildTLSFingerprint md5 sha hello)"

definition request_fingerprint :: "conn_fingerprint \<Rightarrow> (string \<times> string) option" where
  "request_fingerprint ptr = map_option (\<lambda>(ja3n, ja4). (ja3n_String ja3n, ja4_String ja4)) ptr"

section \<open>Lemmas\<close>

lemma sort_mset: "mset xs = mset ys \<Longrightarrow> sort xs = sort ys"
  by (metis sorted_list_of_multiset_mset)

lemma not_grease [simp]: "\<not> is_grease 43" "\<not> is_grease 0" "\<not> is_grease 16"
  by (simp_all add: is_grease_def greaseMask_def greaseValue_def)

lemma ungrease_mem: "\<not> is_grease e \<Longrightarrow> e \<in> set xs \<longleftrightarrow> e \<in> set (ungrease xs)"
  by (auto simp: ungrease_def)

text \<open>The scan of the versions only depends on the set of versions.\<close>

lemma scan_versions_fold:
  "fold (\<lambda>v (best, grease). if \<not> is_grease v then (if v > best then v else best, grease) else (best, True)) vs (b, g) =
     (Max (insert b (set (ungrease vs))), g \<or> (\<exists>v \<in> set vs. is_grease v))"
proof (induction vs arbitrary: b g)
  case (Cons v vs)
  show ?case
  proof (cases "is_grease v")
    case True
    then show ?thesis by (simp add: Cons.IH ungrease_def)
  next
    case False
    have "Max (insert (if v > b then v else b) (set (ungrease vs))) = Max (insert b (set (ungrease (v # vs))))"
    proof -
      have "set (ungrease (v # vs)) = insert v (set (ungrease vs))" using False by (simp add: ungrease_def)
      then have "insert b (set (ungrease (v # vs))) = insert v (insert b (set (ungrease vs)))" by auto
      then show ?thesis by (cases "set (ungrease vs) = {}") (auto simp: max_def)
    qed
    then show ?thesis using False by (simp add: Cons.IH)
  qed
qed (simp add: ungrease_def)

lemma scan_versions_Max:
  "scan_versions vs = (Max (insert 0 (set (ungrease vs))), \<exists>v \<in> set vs. is_grease v)"
  by (simp add: scan_versions_def scan_versions_fold)

lemma digit_chars: "map digit_char [0, 1, 2, 3, 4, 5, 6, 7, 8, 9] = ''0123456789''"
  by code_simp

lemmas digit_eval = digit_chars [simplified]

lemma decimal_digit: "n < 10 \<Longrightarrow> decimal n = [digit_char n]"
  by (subst decimal.simps) simp

lemma decimal_step: "10 \<le> n \<Longrightarrow> decimal n = decimal (n div 10) @ [digit_char (n mod 10)]"
  by (subst decimal.simps) simp

lemma length_decimal_small: "n < 10 \<Longrightarrow> length (decimal n) = 1"
  by (subst decimal.simps) simp

lemma length_decimal_two: "10 \<le> n \<Longrightarrow> n < 100 \<Longrightarrow> length (decimal n) = 2"
  by (subst decimal.simps) (simp add: length_decimal_small)

lemma length_two_digits [simp]: "length (two_digits n) = 2"
  by (simp add: two_digits_def length_decimal_small length_decimal_two)

lemma length_ja4_alpn [simp]: "length (ja4_alpn ps) = 2"
  by (simp add: ja4_alpn_def split: list.split)

lemma length_copy10 [simp]: "length (copy10 s) = 10"
  by (simp add: copy10_def)

lemma copy10_exact: "length s = 10 \<Longrightarrow> copy10 s = s"
  by (simp add: copy10_def)

lemma ja3_numbers_ungrease: "ja3_numbers xs = map unat (ungrease xs)"
  by (simp add: ja3_numbers_def ungrease_def)

lemma ungrease_sort: "ungrease (sort xs) = sort (ungrease xs)"
  by (simp add: ungrease_def filter_sort)

text \<open>What the fingerprints see of a hello: everything but the grease and the order of the extensions.\<close>

definition same_hello :: "client_hello \<Rightarrow> client_hello \<Rightarrow> bool" where
  "same_hello a b \<longleftrightarrow> set (ch_versions a) = set (ch_versions b) \<and>
     mset (ungrease (ch_ciphers a)) = mset (ungrease (ch_ciphers b)) \<and>
     mset (ungrease (ch_extensions a)) = mset (ungrease (ch_extensions b)) \<and>
     ungrease (ch_curves a) = ungrease (ch_curves b) \<and> ch_points a = ch_points b \<and>
     ungrease (ch_schemes a) = ungrease (ch_schemes b) \<and> ch_protos a = ch_protos b \<and> ch_server_name a = ch_server_name b"

lemma same_hello_parts:
  assumes "same_hello a b"
  shows "scan_versions (ch_versions a) = scan_versions (ch_versions b)"
    and "\<not> is_grease e \<Longrightarrow> e \<in> set (ch_extensions a) \<longleftrightarrow> e \<in> set (ch_extensions b)"
    and "sort (ungrease (ch_extensions a)) = sort (ungrease (ch_extensions b))"
    and "length (ungrease (ch_extensions a)) = length (ungrease (ch_extensions b))"
proof -
  have m: "mset (ungrease (ch_extensions a)) = mset (ungrease (ch_extensions b))" and v: "set (ch_versions a) = set (ch_versions b)"
    using assms by (simp_all add: same_hello_def)
  show "sort (ungrease (ch_extensions a)) = sort (ungrease (ch_extensions b))" using m by (rule sort_mset)
  show "length (ungrease (ch_extensions a)) = length (ungrease (ch_extensions b))" using m by (rule mset_eq_length)
  show "\<not> is_grease e \<Longrightarrow> e \<in> set (ch_extensions a) \<longleftrightarrow> e \<in> set (ch_extensions b)"
    using ungrease_mem mset_eq_setD [OF m] by blast
  have "set (ungrease (ch_versions a)) = set (ungrease (ch_versions b))" using v by (simp add: ungrease_def)
  then show "scan_versions (ch_versions a) = scan_versions (ch_versions b)" using v by (simp add: scan_versions_Max)
qed

lemma ja4_same:
  assumes "same_hello a b"
  shows "tlsFingerprintJA4 sha a = tlsFingerprintJA4 sha b"
proof -
  have c: "sort (ungrease (ch_ciphers a)) = sort (ungrease (ch_ciphers b))"
    using assms by (intro sort_mset) (simp add: same_hello_def)
  have "mset (ungrease (ch_extensions a)) = mset (ungrease (ch_extensions b))" using assms by (simp add: same_hello_def)
  then have e: "sort (filter P (ungrease (ch_extensions a))) = sort (filter P (ungrease (ch_extensions b)))" for P
    by (intro sort_mset) simp
  have l: "length (ungrease (ch_extensions a)) = length (ungrease (ch_extensions b))"
    "extensionServerName \<in> set (ch_extensions a) \<longleftrightarrow> extensionServerName \<in> set (ch_extensions b)"
    using same_hello_parts(4,2) [OF assms] by (simp_all add: extensionServerName_def)
  have "ungrease (ch_schemes a) = ungrease (ch_schemes b)" "ch_protos a = ch_protos b" "ch_server_name a = ch_server_name b"
    using assms by (simp_all add: same_hello_def)
  then show ?thesis
    unfolding tlsFingerprintJA4_def Let_def c e l same_hello_parts(1) [OF assms] by (simp only:)
qed

lemma ja3_same:
  assumes "same_hello a b" "ungrease (ch_ciphers a) = ungrease (ch_ciphers b)"
  shows "tlsFingerprintJA3 md5 a True = tlsFingerprintJA3 md5 b True"
proof -
  have "ja3_version a = ja3_version b"
    using same_hello_parts(1,2) [OF assms(1)] by (simp add: ja3_version_def extensionSupportedVersions_def)
  moreover have "ja3_numbers (sort (ch_extensions a)) = ja3_numbers (sort (ch_extensions b))"
    using same_hello_parts(3) [OF assms(1)] by (simp add: ja3_numbers_ungrease ungrease_sort)
  moreover have "ungrease (ch_curves a) = ungrease (ch_curves b)" "ch_points a = ch_points b"
    using assms(1) by (simp_all add: same_hello_def)
  ultimately show ?thesis
    using assms(2) by (simp add: tlsFingerprintJA3_def ja3_text_def Let_def ja3_numbers_ungrease)
qed

text \<open>The text that JA3 hashes: five fields, separated by commas, each a list separated by dashes.\<close>

lemma ja3_list_Join: "ja3_list xs buf = buf @ Join ''-'' (map decimal xs)"
proof -
  have f: "fold (\<lambda>x (b, n). (b @ decimal x @ ''-'', Suc 0)) ys (b0, k) =
      (b0 @ concat (map (\<lambda>x. decimal x @ ''-'') ys), if ys = [] then k else Suc 0)" for ys b0 k
    by (induction ys arbitrary: b0 k) auto
  have j: "ys \<noteq> [] \<Longrightarrow> concat (map (\<lambda>x. decimal x @ ''-'') ys) = Join ''-'' (map decimal ys) @ ''-''" for ys
  proof (induction ys)
    case (Cons y ys)
    then show ?case by (cases ys) auto
  qed simp
  show ?thesis by (cases "xs = []") (simp_all add: ja3_list_def f j)
qed

section \<open>Properties\<close>

text \<open>
  C35: the fingerprints survive what clients randomise. Two client hellos that differ in the order of
  their extensions and in the grease among ciphers, extensions, curves and signature schemes have the
  same JA4, also when the order of the ciphers differs, and the same JA3N when the ciphers without
  grease are in the same order.
\<close>

theorem fingerprint_stable:
  assumes "set (ch_versions a) = set (ch_versions b)"
    and "mset (ungrease (ch_ciphers a)) = mset (ungrease (ch_ciphers b))"
    and "mset (ungrease (ch_extensions a)) = mset (ungrease (ch_extensions b))"
    and "ungrease (ch_curves a) = ungrease (ch_curves b)" "ch_points a = ch_points b"
    and "ungrease (ch_schemes a) = ungrease (ch_schemes b)" "ch_protos a = ch_protos b" "ch_server_name a = ch_server_name b"
  shows "tlsFingerprintJA4 sha a = tlsFingerprintJA4 sha b \<and>
    (ungrease (ch_ciphers a) = ungrease (ch_ciphers b) \<longrightarrow> tlsFingerprintJA3 md5 a True = tlsFingerprintJA3 md5 b True)"
  using ja4_same [of a b] ja3_same [of a b] assms by (simp add: same_hello_def)

definition sample_hello :: client_hello where
  "sample_hello = \<lparr>ch_versions = [0x1a1a, 0x0304, 0x0303], ch_ciphers = [0x2a2a, 0x1301, 0xc02b], ch_extensions = [0, 43, 16, 51],
     ch_curves = [0x001d], ch_points = [0], ch_schemes = [0x0403], ch_protos = [''h2''], ch_server_name = ''h''\<rparr>"

theorem fingerprint_stable_witness:
  "tlsFingerprintJA3 (take 16) sample_hello True =
     tlsFingerprintJA3 (take 16) (sample_hello\<lparr>ch_ciphers := [0x1301, 0xfafa, 0xc02b], ch_extensions := [51, 16, 0x0a0a, 0, 43]\<rparr>) True"
proof -
  let ?b = "sample_hello\<lparr>ch_ciphers := [0x1301, 0xfafa, 0xc02b], ch_extensions := [51, 16, 0x0a0a, 0, 43]\<rparr>"
  have u: "ungrease (ch_ciphers sample_hello) = [0x1301, 0xc02b]" "ungrease (ch_ciphers ?b) = [0x1301, 0xc02b]"
    "ungrease (ch_extensions sample_hello) = [0, 43, 16, 51]" "ungrease (ch_extensions ?b) = [51, 16, 0, 43]"
    by (simp_all add: sample_hello_def ungrease_def is_grease_def greaseMask_def greaseValue_def)
  show ?thesis
    by (rule fingerprint_stable [of sample_hello ?b, THEN conjunct2, rule_format])
      (simp_all only: u, simp_all add: sample_hello_def)
qed

text \<open>
  the layout of JA4. For hashes of at least six bytes the text of a JA4 fingerprint has 36 characters: ten of
  the first part, an underscore, twelve, an underscore and twelve. When the largest version is one
  of TLS 1.0 to 1.3, the first part is exactly the letter t, the version, d or i, the numbers of
  ciphers and of extensions without grease, cut at 99, and the first and last byte of the first protocol.
\<close>

theorem ja4_layout:
  assumes "\<And>b. 6 \<le> length (sha b)"
  shows "length (ja4_String (tlsFingerprintJA4 sha hello)) = 36 \<and>
    (fst (scan_versions (ch_versions hello)) \<in> {0x0301, 0x0302, 0x0303, 0x0304} \<longrightarrow>
       ja4_A (tlsFingerprintJA4 sha hello) =
         ''t1'' @ decimal (unat (fst (scan_versions (ch_versions hello)) - 0x0301)) @
         (if 0 \<in> set (ch_extensions hello) \<and> ch_server_name hello \<noteq> [] then ''d'' else ''i'') @
         two_digits (length (ungrease (ch_ciphers hello))) @ two_digits (length (ungrease (ch_extensions hello))) @
         ja4_alpn (ch_protos hello))"
proof
  have "length (ja4SHA256 sha b) = 6" for b using assms [of "bytes_of b"] by (simp add: ja4SHA256_def)
  then show "length (ja4_String (tlsFingerprintJA4 sha hello)) = 36"
    by (simp add: ja4_String_def tlsFingerprintJA4_def Let_def)
  show "fst (scan_versions (ch_versions hello)) \<in> {0x0301, 0x0302, 0x0303, 0x0304} \<longrightarrow>
       ja4_A (tlsFingerprintJA4 sha hello) =
         ''t1'' @ decimal (unat (fst (scan_versions (ch_versions hello)) - 0x0301)) @
         (if 0 \<in> set (ch_extensions hello) \<and> ch_server_name hello \<noteq> [] then ''d'' else ''i'') @
         two_digits (length (ungrease (ch_ciphers hello))) @ two_digits (length (ungrease (ch_extensions hello))) @
         ja4_alpn (ch_protos hello)"
  proof
    let ?v = "fst (scan_versions (ch_versions hello))"
    assume "?v \<in> {0x0301, 0x0302, 0x0303, 0x0304}"
    then consider "?v = 0x0301" | "?v = 0x0302" | "?v = 0x0303" | "?v = 0x0304" by auto
    then have "ja4_version ?v = ''1'' @ decimal (unat (?v - 0x0301)) \<and> length (decimal (unat (?v - 0x0301))) = 1"
      by cases (simp_all add: ja4_version_def decimal_digit digit_eval)
    then show "ja4_A (tlsFingerprintJA4 sha hello) =
         ''t1'' @ decimal (unat (?v - 0x0301)) @
         (if 0 \<in> set (ch_extensions hello) \<and> ch_server_name hello \<noteq> [] then ''d'' else ''i'') @
         two_digits (length (ungrease (ch_ciphers hello))) @ two_digits (length (ungrease (ch_extensions hello))) @
         ja4_alpn (ch_protos hello)"
      by (simp add: tlsFingerprintJA4_def Let_def copy10_exact extensionServerName_def)
  qed
qed

theorem ja4_layout_witness:
  "ja4_A (tlsFingerprintJA4 (\<lambda>_. replicate 32 7) sample_hello) = ''t13d0204h2''"
proof -
  have v: "scan_versions (ch_versions sample_hello) = (0x0304, True)"
    by (simp add: scan_versions_def sample_hello_def is_grease_def greaseMask_def greaseValue_def)
  have "length (ungrease (ch_ciphers sample_hello)) = 2" "length (ungrease (ch_extensions sample_hello)) = 4"
    by (simp_all add: sample_hello_def ungrease_def is_grease_def greaseMask_def greaseValue_def)
  moreover have "0 \<in> set (ch_extensions sample_hello)" "ch_server_name sample_hello = ''h''" "ch_protos sample_hello = [''h2'']"
    by (simp_all add: sample_hello_def)
  ultimately show ?thesis
    using ja4_layout [of "\<lambda>_. replicate 32 7" sample_hello]
    by (simp add: v two_digits_def ja4_alpn_def decimal_digit digit_eval)
qed

text \<open>
  With no version but grease the version field has six characters, so the count of the extensions and
  the protocol fall out of the ten bytes.
\<close>

lemma ja4_no_version:
  "ch_versions hello = [] \<Longrightarrow> take 7 (ja4_A (tlsFingerprintJA4 sha hello)) = ''t253255''"
proof -
  assume "ch_versions hello = []"
  then have "ja4_version (fst (scan_versions (ch_versions hello))) = ''253255''"
    by (simp add: scan_versions_def ja4_version_def decimal_digit decimal_step digit_eval)
  then show ?thesis by (simp add: tlsFingerprintJA4_def Let_def copy10_def)
qed

end
