(* ===== verification/Tls_Hook.thy ===== *)
theory Tls_Hook
  imports Fingerprint Server
begin

text \<open>
  How the fingerprints reach a request (\<open>applyTLSFingerprinter\<close> of \<open>utils/fingerprint.go\<close>): the hook on the
  TLS configuration, the context of each connection with a pointer to its fingerprints, and what the
  requests of a connection read. The objects behind the pointers are an explicit store, because the
  fingerprints of two connections are kept apart only by their pointers.
\<close>

section \<open>The hook\<close>

record tls_fingerprint =
  fp_ja3n :: "bytes option"
  fp_ja4 :: "ja4 option"

type_synonym fp_store = "tls_fingerprint list"

text \<open>
  The parts of a server and of its TLS configuration that the function uses. The configuration that a
  hook answers is \<open>'c\<close>; no configuration (\<open>nil\<close>) means the one of the server. A hooked function has the
  pointer in the context of the connection as an argument.
\<close>

record 'c tls_server =
  ts_GetConfigForClient :: "(client_hello \<Rightarrow> go_error + 'c option) option"

record 'c hooked_server =
  hk_GetConfigForClient :: "(client_hello \<Rightarrow> nat option \<Rightarrow> fp_store \<Rightarrow> (go_error + 'c option) \<times> fp_store) option"
  hk_ConnContext :: bool

definition store_fingerprints :: "(bytes \<Rightarrow> bytes) \<Rightarrow> (bytes \<Rightarrow> bytes) \<Rightarrow> client_hello \<Rightarrow> nat option \<Rightarrow> fp_store \<Rightarrow> fp_store" where
  "store_fingerprints md5 sha hello ptr st =
     (case buildTLSFingerprint md5 sha hello of (ja3n, ja4) \<Rightarrow>
        (case ptr of
           None \<Rightarrow> st
         | Some a \<Rightarrow>
             (let st1 = st[a := (st ! a)\<lparr>fp_ja3n := Some ja3n\<rparr>]
              in st1[a := (st1 ! a)\<lparr>fp_ja4 := Some ja4\<rparr>])))"

text \<open>A server without a TLS configuration is left alone: it has no hello and no context.\<close>

definition applyTLSFingerprinter :: "(bytes \<Rightarrow> bytes) \<Rightarrow> (bytes \<Rightarrow> bytes) \<Rightarrow> 'c tls_server option \<Rightarrow> 'c hooked_server" where
  "applyTLSFingerprinter md5 sha config =
     (case config of
        None \<Rightarrow> \<lparr>hk_GetConfigForClient = None, hk_ConnContext = False\<rparr>
      | Some c \<Rightarrow>
          (let getConfigForClient = (case ts_GetConfigForClient c of None \<Rightarrow> (\<lambda>info. Inr None) | Some g \<Rightarrow> g)
           in \<lparr>hk_GetConfigForClient =
                 Some (\<lambda>hello ptr st. (getConfigForClient hello, store_fingerprints md5 sha hello ptr st)),
               hk_ConnContext = True\<rparr>))"

section \<open>Connections\<close>

record connections =
  cn_store :: fp_store
  cn_context :: "nat \<Rightarrow> nat option"

datatype conn_op = Accept nat | Hello nat client_hello

text \<open>
  A new connection gets a context of its own when the server has the function for it, with a pointer to a
  new object; a client hello runs the hook with the context of its connection.
\<close>

fun conn_step :: "'c hooked_server \<Rightarrow> conn_op \<Rightarrow> connections \<Rightarrow> connections" where
  "conn_step server (Accept c) s =
     (if hk_ConnContext server
      then \<lparr>cn_store = cn_store s @ [\<lparr>fp_ja3n = None, fp_ja4 = None\<rparr>],
            cn_context = (cn_context s)(c := Some (length (cn_store s)))\<rparr>
      else s\<lparr>cn_context := (cn_context s)(c := None)\<rparr>)"
| "conn_step server (Hello c hello) s =
     (case hk_GetConfigForClient server of
        None \<Rightarrow> s
      | Some g \<Rightarrow> s\<lparr>cn_store := snd (g hello (cn_context s c) (cn_store s))\<rparr>)"

definition conn_run :: "'c hooked_server \<Rightarrow> conn_op list \<Rightarrow> connections" where
  "conn_run server ops = fold (conn_step server) ops \<lparr>cn_store = [], cn_context = (\<lambda>c. None)\<rparr>"

definition GetTLSFingerprint :: "connections \<Rightarrow> nat \<Rightarrow> tls_fingerprint option" where
  "GetTLSFingerprint s c = map_option (\<lambda>a. cn_store s ! a) (cn_context s c)"

text \<open>What the creation of the data of a request makes of them: the pairs of names and texts.\<close>

definition fingerprint_map :: "tls_fingerprint option \<Rightarrow> (string \<times> string) list" where
  "fingerprint_map f =
     (case f of
        None \<Rightarrow> []
      | Some fp \<Rightarrow>
          (case fp_ja3n fp of None \<Rightarrow> [] | Some x \<Rightarrow> [(''ja3n'', ja3n_String x)]) @
          (case fp_ja4 fp of None \<Rightarrow> [] | Some x \<Rightarrow> [(''ja4'', ja4_String x)]))"

text \<open>The fingerprint that a request is served with.\<close>

definition served_fingerprint :: "connections \<Rightarrow> nat \<Rightarrow> (string \<times> string) option" where
  "served_fingerprint s c =
     (case GetTLSFingerprint s c of
        None \<Rightarrow> None
      | Some fp \<Rightarrow>
          (case (fp_ja3n fp, fp_ja4 fp) of
             (Some x, Some y) \<Rightarrow> Some (ja3n_String x, ja4_String y)
           | _ \<Rightarrow> None))"

section \<open>The specification\<close>

text \<open>Of each connection only its own last client hello matters.\<close>

fun hello_step :: "conn_op \<Rightarrow> (nat \<Rightarrow> client_hello option option) \<Rightarrow> nat \<Rightarrow> client_hello option option" where
  "hello_step (Accept c) h = h(c := Some None)"
| "hello_step (Hello c hello) h = h(c := map_option (\<lambda>_. Some hello) (h c))"

definition hellos :: "conn_op list \<Rightarrow> nat \<Rightarrow> client_hello option option" where
  "hellos ops = fold hello_step ops (\<lambda>c. None)"

text \<open>The object that belongs to the last hello of a connection.\<close>

definition fingerprint_of :: "(bytes \<Rightarrow> bytes) \<Rightarrow> (bytes \<Rightarrow> bytes) \<Rightarrow> client_hello option \<Rightarrow> tls_fingerprint" where
  "fingerprint_of md5 sha h =
     \<lparr>fp_ja3n = map_option (\<lambda>x. tlsFingerprintJA3 md5 x True) h, fp_ja4 = map_option (tlsFingerprintJA4 sha) h\<rparr>"

section \<open>Lemmas\<close>

text \<open>The pointers in the contexts are valid and distinct, and lead to the fingerprints of the last hello.\<close>

definition conn_inv :: "(bytes \<Rightarrow> bytes) \<Rightarrow> (bytes \<Rightarrow> bytes) \<Rightarrow> (nat \<Rightarrow> client_hello option option) \<Rightarrow> connections \<Rightarrow> bool" where
  "conn_inv md5 sha h s \<longleftrightarrow>
     (\<forall>c a. cn_context s c = Some a \<longrightarrow> a < length (cn_store s)) \<and>
     (\<forall>c d a. cn_context s c = Some a \<longrightarrow> cn_context s d = Some a \<longrightarrow> c = d) \<and>
     (\<forall>c. GetTLSFingerprint s c = map_option (fingerprint_of md5 sha) (h c))"

lemma both_set: "(f :: tls_fingerprint)\<lparr>fp_ja3n := x, fp_ja4 := y\<rparr> = \<lparr>fp_ja3n = x, fp_ja4 = y\<rparr>"
  by (cases f) simp

lemma conn_inv_step:
  assumes "conn_inv md5 sha h s"
  shows "conn_inv md5 sha (hello_step op h) (conn_step (applyTLSFingerprinter md5 sha (Some conf)) op s)"
proof (cases op)
  case (Accept c)
  have "length (cn_store s) \<noteq> a" if "cn_context s d = Some a" for d a using assms that by (auto simp: conn_inv_def)
  moreover have "map_option ((!) (cn_store s @ [x])) (cn_context s d) = map_option ((!) (cn_store s)) (cn_context s d)" for x d
    using assms by (cases "cn_context s d") (auto simp: conn_inv_def nth_append)
  moreover have "GetTLSFingerprint s d = map_option (fingerprint_of md5 sha) (h d)" for d
    using assms by (simp add: conn_inv_def)
  ultimately show ?thesis
    using assms
    by (auto simp: Accept conn_inv_def applyTLSFingerprinter_def Let_def GetTLSFingerprint_def fingerprint_of_def
        less_Suc_eq)
next
  case (Hello c hello)
  show ?thesis
  proof (cases "cn_context s c")
    case None
    have "map_option (fingerprint_of md5 sha) (h c) = GetTLSFingerprint s c" using assms by (simp add: conn_inv_def)
    with None have "h c = None" by (simp add: GetTLSFingerprint_def)
    then have "hello_step op h = h" by (auto simp: Hello)
    moreover have "conn_step (applyTLSFingerprinter md5 sha (Some conf)) op s = s"
      using None by (simp add: Hello applyTLSFingerprinter_def Let_def store_fingerprints_def split: prod.split)
    ultimately show ?thesis using assms by simp
  next
    case (Some a)
    have "map_option (fingerprint_of md5 sha) (h c) = GetTLSFingerprint s c" using assms by (simp add: conn_inv_def)
    with Some obtain f where a: "a < length (cn_store s)" "h c = Some f"
      using assms by (auto simp: GetTLSFingerprint_def conn_inv_def)
    define s' where "s' = s\<lparr>cn_store := (cn_store s)[a := fingerprint_of md5 sha (Some hello)]\<rparr>"
    have st: "conn_step (applyTLSFingerprinter md5 sha (Some conf)) op s = s'"
      using Some a(1) by (simp add: Hello applyTLSFingerprinter_def Let_def store_fingerprints_def buildTLSFingerprint_def
          fingerprint_of_def s'_def both_set)
    have "GetTLSFingerprint s' d = map_option (fingerprint_of md5 sha) (hello_step op h d)" for d
    proof (cases "d = c")
      case True
      with Some a show ?thesis by (simp add: Hello GetTLSFingerprint_def s'_def)
    next
      case False
      then have "cn_context s d \<noteq> Some a" using assms Some by (auto simp: conn_inv_def)
      then have "GetTLSFingerprint s' d = GetTLSFingerprint s d"
        by (cases "cn_context s d") (simp_all add: GetTLSFingerprint_def s'_def)
      with False assms show ?thesis by (simp add: Hello conn_inv_def)
    qed
    then show ?thesis unfolding st using assms by (simp add: conn_inv_def s'_def)
  qed
qed

lemma conn_run_inv:
  "conn_inv md5 sha h s \<Longrightarrow>
   conn_inv md5 sha (fold hello_step ops h) (fold (conn_step (applyTLSFingerprinter md5 sha (Some conf))) ops s)"
  by (induction ops arbitrary: h s) (simp_all add: conn_inv_step)

lemma plain_run:
  "cn_context s = (\<lambda>c. None) \<Longrightarrow> cn_context (fold (conn_step (applyTLSFingerprinter md5 sha None)) ops s) = (\<lambda>c. None)"
proof (induction ops arbitrary: s)
  case (Cons op ops)
  have "cn_context (conn_step (applyTLSFingerprinter md5 sha None) op s) = (\<lambda>c. None)"
    using Cons.prems by (cases op) (auto simp: applyTLSFingerprinter_def)
  from Cons.IH [OF this] show ?case by simp
qed simp

text \<open>A handshake is answered as without the hook.\<close>

lemma hook_transparent:
  "hk_GetConfigForClient (applyTLSFingerprinter md5 sha (Some conf)) = Some g \<Longrightarrow>
   fst (g hello ptr st) = (case ts_GetConfigForClient conf of None \<Rightarrow> Inr None | Some f \<Rightarrow> f hello)"
  by (auto simp: applyTLSFingerprinter_def Let_def split: option.splits)

lemma CreateRequestData_fingerprints:
  "d_fp (fst (CreateRequestData env t f r)) =
     (case f of None \<Rightarrow> [] | Some (ja3n, ja4) \<Rightarrow> [(''ja3n'', ja3n), (''ja4'', ja4)])"
  by (simp add: CreateRequestData_def Let_def)

section \<open>The property\<close>

text \<open>
  C36: a request is given the fingerprints of its own connection. After any sequence of new connections and
  client hellos, in any interleaving of them, a request of a connection of a TLS server is served with the
  two fingerprints of the last hello of that connection and no other, with both or with none of them; a
  plain server has none. The conditions of the policy read exactly what the code puts in the data.
\<close>

theorem own_fingerprint:
  "served_fingerprint (conn_run (applyTLSFingerprinter md5 sha config) ops) c =
     (case (config, hellos ops c) of
        (Some conf, Some (Some hello)) \<Rightarrow>
          Some (ja3n_String (tlsFingerprintJA3 md5 hello True), ja4_String (tlsFingerprintJA4 sha hello))
      | _ \<Rightarrow> None) \<and>
   d_fp (fst (CreateRequestData env t (served_fingerprint (conn_run (applyTLSFingerprinter md5 sha config) ops) c) r)) =
     fingerprint_map (GetTLSFingerprint (conn_run (applyTLSFingerprinter md5 sha config) ops) c)"
proof (cases config)
  case None
  have "GetTLSFingerprint (conn_run (applyTLSFingerprinter md5 sha config) ops) c = None"
    unfolding GetTLSFingerprint_def conn_run_def None by (subst plain_run) simp_all
  then show ?thesis
    unfolding CreateRequestData_fingerprints served_fingerprint_def fingerprint_map_def by (simp add: None)
next
  case (Some conf)
  have "conn_inv md5 sha (\<lambda>c. None) \<lparr>cn_store = [], cn_context = \<lambda>c. None\<rparr>"
    by (simp add: conn_inv_def GetTLSFingerprint_def)
  from conn_run_inv [OF this, of ops conf]
  have "GetTLSFingerprint (conn_run (applyTLSFingerprinter md5 sha config) ops) c =
      map_option (fingerprint_of md5 sha) (hellos ops c)"
    by (simp add: conn_inv_def conn_run_def hellos_def Some)
  then show ?thesis
    unfolding CreateRequestData_fingerprints served_fingerprint_def fingerprint_map_def
    by (auto simp: Some fingerprint_of_def split: option.splits)
qed

end
