(* ===== verification/Listeners.thy ===== *)
theory Listeners
  imports Process Strconv
begin

text \<open>
  The end of \<open>main\<close> (\<open>cmd/go-away/main.go\<close>): the level of the log, the servers that run beside the public
  one, and how the process ends. What a server returns is an event; \<open>ErrServerClosed\<close> is the value \<open>None\<close>.
\<close>

section \<open>The level of the log\<close>

text \<open>A level is a signed 64-bit number; the names are four apart.\<close>

definition level_names :: "(string \<times> int) list" where
  "level_names = [(''DEBUG'', - 4), (''INFO'', 0), (''WARN'', 4), (''ERROR'', 8)]"

text \<open>\<open>strconv.Atoi\<close> on a text that starts with a sign.\<close>

definition Atoi_signed :: "string \<Rightarrow> int option" where
  "Atoi_signed s =
     (case s of
        [] \<Rightarrow> None
      | c # ds \<Rightarrow>
          (if ds = [] then None
           else (case parse_digits (2 ^ 63 + 1) 0 ds of
               None \<Rightarrow> None
             | Some n \<Rightarrow>
                 (if c = CHR ''-'' then Some (- int n)
                  else if n < 2 ^ 63 then Some (int n) else None))))"

text \<open>
  \<open>Level.UnmarshalText\<close>: a name, which may have an offset that starts at the first sign. The case
  conversion of Unicode is a parameter. The level is set before the offset is added, and nothing is set on
  an error.
\<close>

definition UnmarshalText :: "(string \<Rightarrow> string) \<Rightarrow> string \<Rightarrow> int option" where
  "UnmarshalText toUpper s =
     (let name = takeWhile (\<lambda>c. c \<noteq> CHR ''+'' \<and> c \<noteq> CHR ''-'') s;
          rest = drop (length name) s
      in case (if rest = [] then Some 0 else Atoi_signed rest) of
           None \<Rightarrow> None
         | Some offset \<Rightarrow>
             map_option (\<lambda>l. signed_take_bit 63 (l + offset)) (map_of level_names (toUpper name)))"

record log_handler =
  lh_Level :: int
  lh_AddSource :: bool

text \<open>A level that cannot be read is the level of information.\<close>

definition log_setup :: "(string \<Rightarrow> string) \<Rightarrow> string \<Rightarrow> log_handler" where
  "log_setup toUpper slogLevel =
     (let programLevel = (case UnmarshalText toUpper slogLevel of None \<Rightarrow> 0 | Some l \<Rightarrow> l)
      in \<lparr>lh_Level = programLevel, lh_AddSource = (programLevel \<le> - 4)\<rparr>)"

section \<open>The servers\<close>

datatype http_listener =
    DebugServer string "string list"
  | MetricsServer string "string list"
  | PublicTLS listener
  | PublicPlain listener

definition pprof_routes :: "string list" where
  "pprof_routes = [''/debug/pprof/'', ''/debug/pprof/profile'', ''/debug/pprof/symbol'', ''/debug/pprof/trace'']"

definition side_servers :: "settings \<Rightarrow> http_listener list" where
  "side_servers opt =
     (if se_BindDebug opt \<noteq> [] then [DebugServer (se_BindDebug opt) pprof_routes] else []) @
     (if se_BindMetrics opt \<noteq> [] then [MetricsServer (se_BindMetrics opt) [''/metrics'']] else [])"

definition public_server :: "running \<Rightarrow> http_listener" where
  "public_server ru =
     (if sv_TLSConfig (ru_server ru) \<noteq> None then PublicTLS (ru_listener ru) else PublicPlain (ru_listener ru))"

definition servers :: "running \<Rightarrow> http_listener list" where
  "servers ru = side_servers (ru_settings ru) @ [public_server ru]"

section \<open>The end of the process\<close>

text \<open>
  Each server returns at most once. An error of any of them is fatal; a public server that was closed ends
  \<open>main\<close> and with it the process, a side server that was closed only its own goroutine.
\<close>

datatype process_end = StillServing | ServerFailed http_listener go_error | MainReturned

fun serve_until :: "http_listener \<Rightarrow> (http_listener \<times> go_error option) list \<Rightarrow> process_end" where
  "serve_until public [] = StillServing"
| "serve_until public ((s, r) # rest) =
     (case r of
        Some err \<Rightarrow> ServerFailed s err
      | None \<Rightarrow> if s = public then MainReturned else serve_until public rest)"

definition main_serve :: "running \<Rightarrow> (http_listener \<times> go_error option) list \<Rightarrow> process_end" where
  "main_serve ru returns = serve_until (public_server ru) returns"

section \<open>What holds\<close>

text \<open>The level of the default flag, and that the offsets of a readable level count from its name.\<close>

lemma default_level: "UnmarshalText toUpper ''WARN'' = map_option (signed_take_bit 63) (map_of level_names (toUpper ''WARN''))"
  by (simp add: UnmarshalText_def)

lemma public_not_side: "public_server ru \<notin> set (side_servers opt)"
  by (auto simp: public_server_def side_servers_def)

lemma serve_until_serving:
  "serve_until public rs = StillServing \<longleftrightarrow> list_all (\<lambda>(s, r). r = None \<and> s \<noteq> public) rs"
  by (induction public rs rule: serve_until.induct) (auto split: option.split)

lemma serve_until_closed:
  "serve_until public (map (\<lambda>s. (s, None)) side @ rs) = (if public \<in> set side then MainReturned else serve_until public rs)"
  by (induction side) auto

text \<open>
  The profiles of the process are only on the address that was asked for: the program has a debug server
  exactly when the settings have an address for it, and the servers it has are distinct.
\<close>

lemma servers_distinct: "distinct (servers ru)"
  by (auto simp: servers_def side_servers_def public_server_def)

lemma debug_server_iff: "DebugServer a routes \<in> set (servers ru) \<longleftrightarrow>
    a = se_BindDebug (ru_settings ru) \<and> a \<noteq> [] \<and> routes = pprof_routes"
  by (auto simp: servers_def side_servers_def public_server_def)

text \<open>Closing the side servers never ends the process, the failure of any server does.\<close>

lemma side_closed_serving: "main_serve ru (map (\<lambda>s. (s, None)) (side_servers (ru_settings ru))) = StillServing"
  using serve_until_closed [of "public_server ru" "side_servers (ru_settings ru)" "[]"]
  by (simp add: main_serve_def public_not_side)

lemma any_failure_ends: "(s, Some err) \<in> set rs \<Longrightarrow> main_serve ru rs \<noteq> StillServing"
  by (auto simp: main_serve_def serve_until_serving list_all_iff)

end
