(* ===== verification/Awaiter.thy ===== *)
theory Awaiter
  imports Challenge_Types
begin

text \<open>
  The awaiter (\<open>lib/challenge/awaiter.go\<close>), with which the page of the preload-link challenge waits for
  the request that solves it: a map from keys to callbacks, and the goroutines that wait and solve as
  interleaved steps. Each step is one operation on the map or one on the result of a wait.
\<close>

section \<open>State and operations\<close>

text \<open>A wait has its key, the stored result (none at first) and whether its context is done.\<close>

datatype 'k phase = Idle | Waiting 'k VerifyResult bool | Returned 'k VerifyResult

text \<open>
  The callback of a wait is known by the number of its goroutine. \<open>aw_calls\<close> are callbacks that a solver
  has taken out of the map and is about to call; \<open>aw_solved\<close> records the calls of \<open>Solve\<close>.
\<close>

record 'k awaiter =
  aw_map :: "('k, nat) gomap"
  aw_pc :: "nat \<Rightarrow> 'k phase"
  aw_calls :: "(nat \<times> 'k \<times> VerifyResult) list"
  aw_solved :: "('k \<times> VerifyResult) list"

definition NewAwaiter :: "'k awaiter" where
  "NewAwaiter = \<lparr>aw_map = [], aw_pc = (\<lambda>_. Idle), aw_calls = [], aw_solved = []\<rparr>"

definition set_pc :: "nat \<Rightarrow> 'k phase \<Rightarrow> 'k awaiter \<Rightarrow> 'k awaiter" where
  "set_pc i p s = s\<lparr>aw_pc := (aw_pc s)(i := p)\<rparr>"

text \<open>\<open>Await\<close> up to the blocking read, and from there on: the deferred removal of the key and the result.\<close>

definition await_begin :: "nat \<Rightarrow> 'k \<Rightarrow> 'k awaiter \<Rightarrow> 'k awaiter" where
  "await_begin i k s = set_pc i (Waiting k VerifyResultNone False) (s\<lparr>aw_map := mset_key k i (aw_map s)\<rparr>)"

definition await_end :: "nat \<Rightarrow> 'k \<Rightarrow> VerifyResult \<Rightarrow> 'k awaiter \<Rightarrow> 'k awaiter" where
  "await_end i k r s = set_pc i (Returned k r) (s\<lparr>aw_map := mdel k (aw_map s)\<rparr>)"

text \<open>\<open>Solve\<close> takes the callback out of the map and then calls it.\<close>

definition solve_take :: "'k \<Rightarrow> VerifyResult \<Rightarrow> 'k awaiter \<Rightarrow> 'k awaiter" where
  "solve_take k r s =
     (let s1 = s\<lparr>aw_solved := (k, r) # aw_solved s\<rparr> in
      case mget (aw_map s) k of
        None \<Rightarrow> s1
      | Some i \<Rightarrow> s1\<lparr>aw_map := mdel k (aw_map s), aw_calls := (i, k, r) # aw_calls s\<rparr>)"

definition solve_call :: "nat \<times> 'k \<times> VerifyResult \<Rightarrow> 'k awaiter \<Rightarrow> 'k awaiter" where
  "solve_call c s =
     (case c of (i, k, r) \<Rightarrow>
        let s1 = s\<lparr>aw_calls := remove1 c (aw_calls s)\<rparr> in
        (case aw_pc s i of Waiting k' r' d \<Rightarrow> set_pc i (Waiting k' r True) s1 | _ \<Rightarrow> s1))"

section \<open>Interleavings\<close>

inductive await_step :: "'k awaiter \<Rightarrow> 'k awaiter \<Rightarrow> bool" where
  begin_wait: "aw_pc s i = Idle \<Longrightarrow> await_step s (await_begin i k s)"
| take_callback: "await_step s (solve_take k r s)"
| call_callback: "c \<in> set (aw_calls s) \<Longrightarrow> await_step s (solve_call c s)"
| expire: "aw_pc s i = Waiting k r d \<Longrightarrow> await_step s (set_pc i (Waiting k r True) s)"
| end_wait: "aw_pc s i = Waiting k r True \<Longrightarrow> await_step s (await_end i k r s)"

inductive_cases await_stepE: "await_step s s'"

inductive await_steps :: "'k awaiter \<Rightarrow> 'k awaiter \<Rightarrow> bool" where
  refl: "await_steps s s"
| step: "await_steps s s1 \<Longrightarrow> await_step s1 s2 \<Longrightarrow> await_steps s s2"

lemma await_steps_trans: "await_steps s1 s2 \<Longrightarrow> await_steps s s1 \<Longrightarrow> await_steps s s2"
  by (induction rule: await_steps.induct) (blast intro: await_steps.intros)+

section \<open>Results come from solvers\<close>

text \<open>A goroutine in the map or with a taken callback has begun to wait for that key.\<close>

primrec phase_key :: "'k phase \<Rightarrow> 'k option" where
  "phase_key Idle = None"
| "phase_key (Waiting k r d) = Some k"
| "phase_key (Returned k r) = Some k"

primrec phase_result :: "'k phase \<Rightarrow> VerifyResult" where
  "phase_result Idle = VerifyResultNone"
| "phase_result (Waiting k r d) = r"
| "phase_result (Returned k r) = r"

definition await_inv :: "'k awaiter \<Rightarrow> bool" where
  "await_inv s \<longleftrightarrow> wf_map (aw_map s) \<and> (\<forall>k i. mget (aw_map s) k = Some i \<longrightarrow> phase_key (aw_pc s i) = Some k) \<and>
     (\<forall>i k r. (i, k, r) \<in> set (aw_calls s) \<longrightarrow> phase_key (aw_pc s i) = Some k \<and> (k, r) \<in> set (aw_solved s)) \<and>
     (\<forall>i k. phase_key (aw_pc s i) = Some k \<longrightarrow>
        phase_result (aw_pc s i) = VerifyResultNone \<or> (k, phase_result (aw_pc s i)) \<in> set (aw_solved s))"

lemma await_invI:
  assumes "wf_map (aw_map s)" "\<And>k i. mget (aw_map s) k = Some i \<Longrightarrow> phase_key (aw_pc s i) = Some k"
    and "\<And>i k r. (i, k, r) \<in> set (aw_calls s) \<Longrightarrow> phase_key (aw_pc s i) = Some k \<and> (k, r) \<in> set (aw_solved s)"
    and "\<And>i k. phase_key (aw_pc s i) = Some k \<Longrightarrow>
        phase_result (aw_pc s i) = VerifyResultNone \<or> (k, phase_result (aw_pc s i)) \<in> set (aw_solved s)"
  shows "await_inv s"
  unfolding await_inv_def using assms by simp

lemma await_invD:
  assumes "await_inv s"
  shows "wf_map (aw_map s)" "mget (aw_map s) k = Some i \<Longrightarrow> phase_key (aw_pc s i) = Some k"
    and "(i, k, r) \<in> set (aw_calls s) \<Longrightarrow> phase_key (aw_pc s i) = Some k \<and> (k, r) \<in> set (aw_solved s)"
    and "phase_key (aw_pc s i) = Some k \<Longrightarrow>
        phase_result (aw_pc s i) = VerifyResultNone \<or> (k, phase_result (aw_pc s i)) \<in> set (aw_solved s)"
  using assms unfolding await_inv_def by simp_all

lemmas awaiter_defs = await_begin_def await_end_def solve_take_def solve_call_def set_pc_def

text \<open>A change of the phase of one goroutine that keeps its key, with a result that is allowed.\<close>

lemma await_inv_phase:
  assumes "await_inv s" "phase_key p = phase_key (aw_pc s i)"
    and "\<forall>k. phase_key p = Some k \<longrightarrow> phase_result p = VerifyResultNone \<or> (k, phase_result p) \<in> set (aw_solved s)"
  shows "await_inv (set_pc i p s)"
proof (rule await_invI)
  note d = await_invD [OF assms(1)]
  show "wf_map (aw_map (set_pc i p s))" using d(1) by (simp add: set_pc_def)
  show "phase_key (aw_pc (set_pc i p s) j) = Some k" if "mget (aw_map (set_pc i p s)) k = Some j" for k j
    using that d(2) assms(2) by (simp add: set_pc_def)
  show "phase_key (aw_pc (set_pc i p s) j) = Some k \<and> (k, r) \<in> set (aw_solved (set_pc i p s))"
    if "(j, k, r) \<in> set (aw_calls (set_pc i p s))" for j k r
    using that d(3) [of j k r] assms(2) by (auto simp: set_pc_def)
  show "phase_result (aw_pc (set_pc i p s) j) = VerifyResultNone \<or>
      (k, phase_result (aw_pc (set_pc i p s) j)) \<in> set (aw_solved (set_pc i p s))"
    if "phase_key (aw_pc (set_pc i p s) j) = Some k" for j k
  proof (cases "j = i")
    case True
    then have "phase_key (aw_pc s i) = Some k" using that assms(2) by (simp add: set_pc_def)
    then show ?thesis using True assms(2,3) that by (simp add: set_pc_def)
  next
    case False
    then show ?thesis using that d(4) by (simp add: set_pc_def)
  qed
qed

lemma await_inv_map:
  assumes "await_inv s" "wf_map m" "\<forall>k i. mget m k = Some i \<longrightarrow> mget (aw_map s) k = Some i"
    and "set solved \<supseteq> set (aw_solved s)" "set calls \<subseteq> set (aw_calls s)"
  shows "await_inv (s\<lparr>aw_map := m, aw_calls := calls, aw_solved := solved\<rparr>)"
  using assms unfolding await_inv_def by (simp add: subset_iff) blast

lemma await_inv_step: "await_step s s' \<Longrightarrow> await_inv s \<Longrightarrow> await_inv s'"
proof (induction rule: await_step.induct)
  case (begin_wait s i k)
  note d = await_invD [OF begin_wait(2)]
  have i: "mget (aw_map s) k' \<noteq> Some i" "(i, k', r) \<notin> set (aw_calls s)" for k' r
    using d(2,3) begin_wait(1) by fastforce+
  show ?case
  proof (rule await_invI)
    show "wf_map (aw_map (await_begin i k s))" using d(1) by (simp add: awaiter_defs)
    show "phase_key (aw_pc (await_begin i k s) j) = Some k'" if "mget (aw_map (await_begin i k s)) k' = Some j" for k' j
      using that d(2) i by (auto simp: awaiter_defs split: if_splits)
    show "phase_key (aw_pc (await_begin i k s) j) = Some k' \<and> (k', r) \<in> set (aw_solved (await_begin i k s))"
      if "(j, k', r) \<in> set (aw_calls (await_begin i k s))" for j k' r
      using that d(3) [of j k' r] i by (auto simp: awaiter_defs)
    show "phase_result (aw_pc (await_begin i k s) j) = VerifyResultNone \<or>
        (k', phase_result (aw_pc (await_begin i k s) j)) \<in> set (aw_solved (await_begin i k s))"
      if "phase_key (aw_pc (await_begin i k s) j) = Some k'" for j k'
      using that d(4) [of j k'] by (auto simp: awaiter_defs split: if_splits)
  qed
next
  case (take_callback s k r)
  note d = await_invD [OF take_callback]
  show ?case
  proof (cases "mget (aw_map s) k")
    case None
    then show ?thesis
      using await_inv_map [OF take_callback d(1), of "(k, r) # aw_solved s" "aw_calls s"] by (auto simp: solve_take_def)
  next
    case (Some i)
    have "await_inv (s\<lparr>aw_map := mdel k (aw_map s), aw_calls := aw_calls s, aw_solved := (k, r) # aw_solved s\<rparr>)"
      using d(1) by (intro await_inv_map [OF take_callback]) (auto split: if_splits)
    moreover have "phase_key (aw_pc s i) = Some k" using d(2) Some by simp
    ultimately show ?thesis using Some unfolding await_inv_def solve_take_def Let_def by simp
  qed
next
  case (call_callback c s)
  note d = await_invD [OF call_callback(2)]
  obtain i k r where c: "c = (i, k, r)" by (cases c)
  have k: "phase_key (aw_pc s i) = Some k" "(k, r) \<in> set (aw_solved s)" using d(3) call_callback(1) c by auto
  have "await_inv (s\<lparr>aw_map := aw_map s, aw_calls := remove1 c (aw_calls s), aw_solved := aw_solved s\<rparr>)"
    by (rule await_inv_map [OF call_callback(2) d(1)]) (simp_all add: set_remove1_subset)
  then have s1: "await_inv (s\<lparr>aw_calls := remove1 c (aw_calls s)\<rparr>)" by simp
  show ?case
  proof (cases "aw_pc s i")
    case (Waiting k' r' e)
    then have "k' = k" using k(1) by simp
    then have "await_inv (set_pc i (Waiting k' r True) (s\<lparr>aw_calls := remove1 c (aw_calls s)\<rparr>))"
      using k Waiting by (intro await_inv_phase [OF s1]) simp_all
    then show ?thesis using Waiting c by (simp add: solve_call_def)
  qed (use s1 c in \<open>simp_all add: solve_call_def\<close>)
next
  case (expire s i k r e)
  show ?case
    using expire(1) await_invD(4) [OF expire(2), of i k] by (intro await_inv_phase [OF expire(2)]) simp_all
next
  case (end_wait s i k r)
  note d = await_invD [OF end_wait(2)]
  have "await_inv (s\<lparr>aw_map := mdel k (aw_map s), aw_calls := aw_calls s, aw_solved := aw_solved s\<rparr>)"
    using d(1) by (intro await_inv_map [OF end_wait(2)]) (auto split: if_splits)
  then have s1: "await_inv (s\<lparr>aw_map := mdel k (aw_map s)\<rparr>)" by simp
  show ?case
    using end_wait(1) d(4) [of i k] unfolding await_end_def by (intro await_inv_phase [OF s1]) simp_all
qed

lemma await_steps_inv: "await_steps s s' \<Longrightarrow> await_inv s \<Longrightarrow> await_inv s'"
  by (induction rule: await_steps.induct) (blast intro: await_inv_step)+

lemma NewAwaiter_inv: "await_inv NewAwaiter"
  by (simp add: await_inv_def NewAwaiter_def)

section \<open>A wait that is alone is solved\<close>

text \<open>The wait of \<open>i\<close> is registered.\<close>

definition registered :: "'k awaiter \<Rightarrow> nat \<Rightarrow> 'k \<Rightarrow> bool" where
  "registered s i k \<longleftrightarrow> (\<exists>d. aw_pc s i = Waiting k VerifyResultNone d) \<and> mget (aw_map s) k = Some i"

lemma solve_wakes:
  assumes "registered s i k"
  shows "aw_pc (solve_call (i, k, r) (solve_take k r s)) i = Waiting k r True" "(i, k, r) \<in> set (aw_calls (solve_take k r s))"
  using assms by (auto simp: registered_def awaiter_defs Let_def)

section \<open>Properties\<close>



text \<open>
  two waits on the same key disturb each other. There is a reachable state in which a wait is
  still running and has no entry in the map: it began before a second one on the same key, or another
  wait on the key has ended and removed its entry. Whatever a solver then gives for the key, the
  wait is not woken: only the end of its context ends it, with the result None.
\<close>

theorem await_lost_wakeup:
  "\<exists>s s'. await_steps NewAwaiter s \<and> aw_pc s 0 = Waiting k VerifyResultNone False \<and> mget (aw_map s) k = Some 1 \<and>
     await_steps NewAwaiter s' \<and> aw_pc s' 1 = Waiting k VerifyResultNone False \<and> mget (aw_map s') k = None \<and>
     aw_pc (solve_take k r s') 1 = Waiting k VerifyResultNone False \<and> aw_calls (solve_take k r s') = []"
proof -
  let ?s = "await_begin 1 k (await_begin 0 k NewAwaiter)"
  let ?t = "set_pc 0 (Waiting k VerifyResultNone True) ?s"
  let ?u = "await_end 0 k VerifyResultNone ?t"
  have s: "await_steps NewAwaiter ?s"
    by (intro await_steps.step [OF await_steps.step [OF await_steps.refl]])
      (rule begin_wait, simp add: NewAwaiter_def, rule begin_wait, simp add: awaiter_defs NewAwaiter_def)
  moreover have "await_steps NewAwaiter ?u"
    by (intro await_steps.step [OF await_steps.step [OF s]])
      (rule expire [where i = 0 and k = k and r = VerifyResultNone and d = False], simp add: awaiter_defs, rule end_wait, simp add: awaiter_defs)
  moreover have "aw_pc ?s 0 = Waiting k VerifyResultNone False" "mget (aw_map ?s) k = Some 1"
    "aw_pc ?u 1 = Waiting k VerifyResultNone False" "mget (aw_map ?u) k = None"
    "aw_pc (solve_take k r ?u) 1 = Waiting k VerifyResultNone False" "aw_calls (solve_take k r ?u) = []"
    by (simp_all add: awaiter_defs NewAwaiter_def Let_def)
  ultimately show ?thesis by blast
qed

end
