(* ===== verification/Rule_Order.thy ===== *)
theory Rule_Order
  imports Server_Laws "HOL-Library.Sublist"
begin

text \<open>
  The order of the rules: what the counters of a request say about its rules. A request meets the rules of
  the policy in the order of the policy, a rule before its children, each at most once, and the default
  rule last; so its work is bounded by the size of the policy, whatever the request is.
\<close>

section \<open>The log of the rules\<close>

text \<open>The names of the rules that were counted as hit or missed, in the order they were counted.\<close>

definition metric_rule :: "metric \<Rightarrow> string list" where
  "metric_rule m = (case m of MetricRule name result \<Rightarrow> [name] | _ \<Rightarrow> [])"

definition rule_log :: "world \<Rightarrow> string list" where
  "rule_log w = concat (map metric_rule (w_metrics w))"

text \<open>The names of a rule and of its children, the rule first.\<close>

fun rule_order :: "rule_state \<Rightarrow> string list" where
  "rule_order (RuleState name hash condition action h children) = name # concat (map rule_order children)"

definition rules_order :: "rule_state list \<Rightarrow> string list" where
  "rules_order rules = concat (map rule_order rules)"

text \<open>What was added to the log is a part of the given names, in their order.\<close>

definition logs :: "string list \<Rightarrow> world \<Rightarrow> world \<Rightarrow> bool" where
  "logs names w w' \<longleftrightarrow> (\<exists>new. rule_log w' = rule_log w @ new \<and> subseq new names)"

section \<open>Steps that count no rule\<close>

lemma rule_log_metrics: "w_metrics w' = w_metrics w \<Longrightarrow> rule_log w' = rule_log w"
  by (simp add: rule_log_def)

lemma rule_log_steps [simp]:
  "rule_log (RuleHit n w) = rule_log w @ [n]" "rule_log (RuleMiss n w) = rule_log w @ [n]"
  "rule_log (ActionHit a w) = rule_log w" "rule_log (ChallengeFailed reg w) = rule_log w"
  "rule_log (ChallengePassed reg w) = rule_log w" "rule_log (ChallengeChecked reg w) = rule_log w"
  "rule_log (record_result reg r w) = rule_log w" "rule_log (emit e w) = rule_log w" "rule_log (set_header k v w) = rule_log w"
  "rule_log (set_req g w) = rule_log w" "rule_log (set_data f w) = rule_log w" "rule_log (w\<lparr>w_header := h\<rparr>) = rule_log w"
  "rule_log (no_cache w) = rule_log w" "rule_log (serve h' w) = rule_log w"
  by (simp_all add: rule_log_def callback_defs record_result_def metric_rule_def no_cache_def serve_def split: http_handler.split)

lemma writes_rule_log: "writes es w w' \<Longrightarrow> rule_log w' = rule_log w"
  by (auto simp: writes_def intro: rule_log_metrics)

lemma ResponseHeaders_rule_log [simp]: "rule_log (ResponseHeaders env w) = rule_log w"
  by (rule writes_rule_log [OF ResponseHeaders_writes])

definition fin_quiet :: "done_func \<Rightarrow> bool" where
  "fin_quiet fin \<longleftrightarrow> (\<forall>w. rule_log (snd (fin w)) = rule_log w)"

text \<open>A handler that returns has counted no rule.\<close>

definition quiet :: "world \<Rightarrow> handled \<Rightarrow> bool" where
  "quiet w out \<longleftrightarrow> (\<forall>r w'. out = Ret r w' \<longrightarrow> rule_log w' = rule_log w)"

lemma quiet_simps [simp]: "quiet w (Ret r w') \<longleftrightarrow> rule_log w' = rule_log w" "quiet w (Panic e w')"
  by (simp_all add: quiet_def)

lemma quiet_same: "rule_log w' = rule_log w \<Longrightarrow> quiet w' out = quiet w out"
  by (simp add: quiet_def)

lemma fin_serve: "fin_quiet fin \<Longrightarrow> fin w = (h, w') \<Longrightarrow> rule_log w' = rule_log w"
  unfolding fin_quiet_def by (metis snd_conv)

lemma handle_proxy_quiet: "fin_quiet fin \<Longrightarrow> quiet w (handle_proxy env rewrite name fin w)"
  by (auto simp: handle_proxy_def Let_def dest: fin_serve split: option.split prod.split)

lemma handle_deny_quiet: "quiet w (handle_deny env code hash w)"
  using ErrorPage_cases [of env code "Err (''access denied: denied by administrative rule '' @ hex_encode (d_id (w_data w)) @ ''/'' @ hash)" "[]" w]
  by (auto simp: handle_deny_def dest: writes_rule_log)

lemma check_loop_quiet:
  assumes "\<forall>w. quiet w (pass w)"
  shows "check_loop env cont passAction pass regs w = Some out \<Longrightarrow> quiet w out"
proof (induction regs)
  case (Cons reg regs)
  have "quiet w (pass (ActionHit passAction (ChallengeChecked reg w)))"
    using spec [OF assms, of "ActionHit passAction (ChallengeChecked reg w)"] by (subst (asm) quiet_same) simp_all
  with Cons show ?case by (auto simp: valid_branch_def Let_def split: if_splits)
qed simp

lemma issue_loop_quiet:
  assumes pass: "\<forall>w. quiet w (pass w)" and fail: "\<forall>w. quiet w (fail w)" and code: "200 \<le> e_response_code env"
  shows "quiet w (issue_loop env cont passAction pass failAction fail regs w)"
proof (induction regs arbitrary: w)
  case Nil
  show ?case using spec [OF fail, of "ActionHit failAction w"] by (subst (asm) quiet_same) simp_all
next
  case (Cons reg regs)
  have rest: "quiet w (issue_loop env cont passAction pass failAction fail regs w1)" if "rule_log w1 = rule_log w" for w1
    using Cons.IH [of w1] quiet_same [OF that] by simp
  have p: "quiet w (pass w1)" "quiet w (fail w1)" if "rule_log w1 = rule_log w" for w1
    using spec [OF pass, of w1] spec [OF fail, of w1] quiet_same [OF that] by simp_all
  show ?case
  proof (cases "skipped reg w")
    case True
    then show ?thesis using rest by simp
  next
    case False
    let ?e = "Expiration (d_time (w_data w)) (reg_duration reg)"
    show ?thesis
    proof (cases "IssueChallenge env reg (GetChallengeKeyForRequest env reg ?e w) ?e w")
      case (Panic e w1)
      then show ?thesis using False by (simp add: Let_def)
    next
      case (Ret r w1)
      have s: "rule_log w1 = rule_log w"
        using IssueChallenge_issued [OF Ret code] by (auto simp: issued_def same_request_def intro: rule_log_metrics)
      show ?thesis using False Ret s rest p by (cases r) (simp_all add: Let_def)
    qed
  qed
qed

lemma Handle_quiet:
  assumes "fin_quiet fin" "200 \<le> e_response_code env"
  shows "quiet w (Handle h env fin w)"
proof (induction h arbitrary: w)
  case (HChallenge hash code cont regs passAction pass failAction fail)
  then have "\<forall>w. quiet w (Handle pass env fin w)" "\<forall>w. quiet w (Handle fail env fin w)" by simp_all
  then show ?case
    using check_loop_quiet issue_loop_quiet [OF _ _ assms(2)] by (auto simp: handle_challenge_def split: option.split)
next
  case (HDeny code hash)
  then show ?case by (simp add: handle_deny_quiet)
next
  case (HProxy rewrite name)
  then show ?case by (simp add: handle_proxy_quiet [OF assms(1)])
next
  case HPass
  then show ?case by (auto simp: handle_pass_def dest: fin_serve [OF assms(1)] split: prod.split)
qed (simp_all add: handle_block_def handle_drop_def handle_code_def handle_context_def Let_def)

section \<open>Rules in their order\<close>

lemma logs_refl [simp]: "logs names w w"
  by (simp add: logs_def)

lemma logs_same: "rule_log w' = rule_log w \<Longrightarrow> logs names w w'"
  by (simp add: logs_def)

lemma logs_one: "rule_log w' = rule_log w @ [n] \<Longrightarrow> logs (n # names) w w'"
  by (simp add: logs_def)

lemma logs_append:
  assumes "logs as w w1" "logs bs w1 w2"
  shows "logs (as @ bs) w w2"
proof -
  obtain a b where "rule_log w1 = rule_log w @ a" "subseq a as" "rule_log w2 = rule_log w1 @ b" "subseq b bs"
    using assms unfolding logs_def by blast
  then have "rule_log w2 = rule_log w @ (a @ b)" "subseq (a @ b) (as @ bs)" by (simp_all add: list_emb_append_mono)
  then show ?thesis unfolding logs_def by blast
qed

lemma logs_mono: "logs as w w' \<Longrightarrow> subseq as bs \<Longrightarrow> logs bs w w'"
  unfolding logs_def using subseq_order.trans by blast

lemma logs_left: "logs as w w' \<Longrightarrow> logs (as @ bs) w w'"
  by (erule logs_mono) (metis list_emb_append2 append_Nil2 list_emb_append_mono subseq_order.order_refl list_emb_Nil)

definition run_logs :: "string list \<Rightarrow> world \<Rightarrow> ('a, world) outcome \<Rightarrow> bool" where
  "run_logs names w out \<longleftrightarrow> (\<forall>r w'. out = Ret r w' \<longrightarrow> logs names w w')"

lemma run_logs_simps [simp]: "run_logs names w (Ret r w') \<longleftrightarrow> logs names w w'" "run_logs names w (Panic e w')"
  by (simp_all add: run_logs_def)

lemma run_logs_append: "logs as w w1 \<Longrightarrow> run_logs bs w1 out \<Longrightarrow> run_logs (as @ bs) w out"
  by (auto simp: run_logs_def intro: logs_append)

lemma run_handler_logs:
  assumes "fin_quiet fin" "200 \<le> e_response_code env" "run_handler env fin rule w = Ret r w'"
  shows "rule_log w' = rule_log w @ [rs_name rule]"
proof -
  have "rule_log (snd (rule_done n hash a fin x)) = rule_log x" for n hash a x
    using assms(1) unfolding rule_done_def fin_quiet_def by simp
  then have "fin_quiet (rule_done (rs_name rule) (rs_hash rule) (rs_action rule) fin)" by (simp add: fin_quiet_def)
  from Handle_quiet [OF this assms(2), of "ActionHit (rs_action rule) (RuleHit (rs_name rule) w)" "rs_handler rule"] assms(3)
  show ?thesis by (simp add: run_handler_def)
qed

lemma Evaluate_logs:
  shows "fin_quiet fin \<Longrightarrow> 200 \<le> e_response_code env \<Longrightarrow> run_logs (rule_order rule) w (Evaluate env fin rule w)"
    and "fin_quiet fin \<Longrightarrow> 200 \<le> e_response_code env \<Longrightarrow> run_logs (rules_order children) w (evaluate_children env fin hash children w)"
proof (induction env fin rule w and env fin hash children w rule: Evaluate_evaluate_children.induct)
  case (1 env fin name hash condition action h children w)
  let ?rule = "RuleState name hash condition action h children"
  show ?case
  proof (cases "condition_value env condition w = Inr (Some (CelBool True))")
    case True
    show ?thesis
    proof (cases "run_handler env fin ?rule w")
      case (Panic e w1)
      then show ?thesis using True by simp
    next
      case (Ret q w1)
      have l: "rule_log w1 = rule_log w @ [name]" using run_handler_logs [OF "1.prems" Ret] by simp
      then have hit: "logs [name] w w1" "logs (name # ns) w w1" for ns by (simp_all add: logs_one)
      consider e where "q = Inl e" | "q = Inr False" | "q = Inr True" by (cases q) auto
      then show ?thesis
      proof cases
        case 3
        then have "run_logs (rules_order children) w1 (evaluate_children env fin hash children w1)"
          using "1.IH" True Ret "1.prems" by simp
        from run_logs_append [OF hit(1) this] show ?thesis using True Ret 3 by (simp add: rules_order_def)
      qed (use True Ret hit(2) in simp_all)
    qed
  next
    case False
    then show ?thesis by (auto intro: logs_one split: sum.split option.split cel_value.split bool.split)
  qed
next
  case (2 env fin hash w)
  then show ?case by simp
next
  case (3 env fin hash child children w)
  show ?case
  proof (cases "Evaluate env fin child w")
    case (Panic e w1)
    then show ?thesis by simp
  next
    case (Ret q w1)
    have c: "logs (rule_order child) w w1" using "3.IH"(1) [OF "3.prems"] Ret by simp
    consider e where "q = Inl e" | "q = Inr False" | "q = Inr True" by (cases q) auto
    then show ?thesis
    proof cases
      case 3
      then have "run_logs (rules_order children) w1 (evaluate_children env fin hash children w1)"
        using "3.IH"(2) Ret "3.prems" by simp
      from run_logs_append [OF c this] show ?thesis using Ret 3 by (simp add: rules_order_def)
    qed (use c Ret in \<open>simp_all add: rules_order_def logs_left\<close>)
  qed
qed

lemma request_done_quiet:
  assumes "GetBackend env host = Some b"
  shows "fin_quiet (request_done env b host f n a)"
proof -
  have "rule_log (cleanup_request env f n a w) = rule_log w" for w by (simp add: cleanup_request_def Let_def)
  then show ?thesis
    unfolding fin_quiet_def using request_done_backend [OF assms] by (metis snd_conv)
qed

lemma run_rules_logs:
  assumes "GetBackend env host = Some b" "200 \<le> e_response_code env"
  shows "run_logs (rules_order rules) w (run_rules env b host rules w)"
proof (induction rules arbitrary: w)
  case (Cons rule rules)
  let ?fin = "request_done env b host True (rs_name rule) (rs_action rule)"
  have c: "run_logs (rule_order rule) w (Evaluate env ?fin rule w)"
    by (rule Evaluate_logs(1) [OF request_done_quiet [OF assms(1)] assms(2)])
  show ?case
  proof (cases "Evaluate env ?fin rule w")
    case (Panic e w1)
    then show ?thesis by simp
  next
    case (Ret q w1)
    then have l: "logs (rule_order rule) w w1" using c by simp
    consider e where "q = Inl e" | "q = Inr False" | "q = Inr True" by (cases q) auto
    then show ?thesis
    proof cases
      case (1 e)
      then show ?thesis using Ret by (auto simp: run_logs_def obind_Ret_iff)
    next
      case 2
      then show ?thesis using Ret l by (simp add: rules_order_def logs_left)
    next
      case 3
      then show ?thesis using Ret run_logs_append [OF l Cons.IH [of w1]] by (simp add: rules_order_def)
    qed
  qed
qed simp

lemma handleRequest_logs:
  assumes "200 \<le> e_response_code env"
  shows "run_logs (rules_order rules @ [''DEFAULT'']) w (handleRequest env rules w)"
proof (cases "GetBackend env (r_host (w_req w))")
  case None
  then show ?thesis by (simp add: handleRequest_def logs_same)
next
  case (Some b)
  let ?host = "r_host (w_req w)"
  show ?thesis
  proof (cases "run_rules env b ?host rules w")
    case (Panic e w1)
    then show ?thesis using Some by (simp add: handleRequest_def)
  next
    case (Ret nx w1)
    then have l: "logs (rules_order rules) w w1" using run_rules_logs [OF Some assms, of rules w] by simp
    let ?fin = "request_done env b ?host False ''DEFAULT'' ''PASS''"
    let ?w = "ActionHit ''PASS'' (RuleHit ''DEFAULT'' w1)"
    have "logs [''DEFAULT''] w1 (serve (fst (?fin ?w)) (snd (?fin ?w)))"
      using request_done_quiet [OF Some, of False "''DEFAULT''" "''PASS''"] by (intro logs_one) (simp add: fin_quiet_def)
    from logs_append [OF l this] show ?thesis
      using Ret Some l by (auto simp: handleRequest_def handle_pass_def logs_left split: prod.split)
  qed
qed

section \<open>Evaluating the challenges counts no rule\<close>

lemma verifyChallenge_metrics: "verifyChallenge env reg k w = (res, w') \<Longrightarrow> w_metrics w' = w_metrics w"
proof -
  assume v: "verifyChallenge env reg k w = (res, w')"
  show ?thesis
  proof (cases "mget (d_map (w_data w)) (reg_name reg)")
    case None
    then show ?thesis using v by (auto simp: verifyChallenge_def)
  next
    case (Some token)
    obtain r s err w1 where t: "VerifyChallengeToken env reg token k w = ((r, s, err), w1)" by (metis prod.collapse)
    have "w_metrics w1 = w_metrics w" using VerifyChallengeToken_frame [OF t] by (auto simp: only_ticks_def)
    then have "w_metrics w1 = w_metrics w" "w_metrics (ClearChallengeToken reg w1) = w_metrics w"
      by (simp_all add: ClearChallengeToken_def)
    then show ?thesis
      using v Some t unfolding verifyChallenge_def Let_def
      by (auto split: option.splits if_splits sum.splits cel_value.splits bool.splits)
  qed
qed

lemma evaluate_all_metrics: "w_metrics (evaluate_all env rs w) = w_metrics w"
proof -
  have "w_metrics (evaluate_one env reg w) = w_metrics w" for reg w
  proof -
    let ?k = "GetChallengeKeyForRequest env reg (Expiration (d_time (w_data w)) (reg_duration reg)) w"
    obtain r s err w1 where v: "verifyChallenge env reg ?k w = ((r, s, err), w1)" by (metis prod.collapse)
    then show ?thesis
      using verifyChallenge_metrics [OF v] by (simp add: evaluate_one_def Let_def ClearChallengeToken_def)
  qed
  then show ?thesis by (induction env rs w rule: evaluate_all.induct) simp_all
qed

lemma EvaluateChallenges_log [simp]: "rule_log (EvaluateChallenges env w) = rule_log w"
proof (rule rule_log_metrics)
  have "w_metrics (load_state env w) = w_metrics w" by (rule load_state_cases [of env w]) simp
  then show "w_metrics (EvaluateChallenges env w) = w_metrics w" by (simp add: EvaluateChallenges_def evaluate_all_metrics)
qed

lemma with_data_log [simp]: "rule_log (with_data env fp w) = rule_log w"
  by (rule rule_log_metrics) (simp add: with_data_def)

section \<open>The property\<close>

text \<open>
  C7: a request meets the rules in the order of the policy. The rules that are counted while the server
  works on a request are a part of the rules of the policy, a rule before its children and the children in
  their order, followed by the default rule; none is met twice. So the work on a request ends after as many
  rules as the policy has, and one.
\<close>

theorem rules_in_order:
  assumes "ServeHTTP env rules fp w = Ret () w'" "mux_dispatch (setupRoutes env) (w_req w) = Found RouteRequest"
    and "200 \<le> e_response_code env"
  shows "\<exists>met. rule_log w' = rule_log w @ met \<and> subseq met (rules_order rules @ [''DEFAULT'']) \<and>
    length met \<le> length (rules_order rules) + 1"
proof -
  define w1 where "w1 = EvaluateChallenges env (with_data env fp w)"
  have "handleRequest env rules w1 = Ret () w'"
    using assms(1,2) by (simp add: ServeHTTP_with_data w1_def mux_serve_def serve_dispatch_def serve_route_def)
  then have "logs (rules_order rules @ [''DEFAULT'']) w1 w'" using handleRequest_logs [OF assms(3), of rules w1] by simp
  moreover have "rule_log w1 = rule_log w" by (simp add: w1_def)
  ultimately obtain met where m: "rule_log w' = rule_log w @ met" "subseq met (rules_order rules @ [''DEFAULT''])"
    by (auto simp: logs_def)
  from list_emb_length [OF m(2)] have "length met \<le> length (rules_order rules) + 1" by simp
  with m show ?thesis by blast
qed

theorem rules_in_order_witness:
  "\<exists>w' met. ServeHTTP site_env [site_gate] None site_world = Ret () w' \<and> rule_log w' = met \<and>
     subseq met [''gate'', ''DEFAULT'']"
proof -
  obtain w' where w': "ServeHTTP site_env [site_gate] None site_world = Ret () w'" using site_served by auto
  have "rules_order [site_gate] @ [''DEFAULT''] = [''gate'', ''DEFAULT'']" by (simp add: rules_order_def site_gate_def)
  moreover have "rule_log site_world = []" by (simp add: rule_log_def site_world_def sample_world_def)
  ultimately show ?thesis using rules_in_order [OF w' site_dispatch] w' by auto
qed

end
