(* ===== verification/Spec2Isabelle.thy ===== *)
theory Spec2Isabelle
  imports Command_Line Metrics Texts Wasm_Tool Dnsbl_Sweep Embed Tls_Hook Listeners Awaiter Rule_Order
begin

text \<open>
  go-away: a reverse proxy that decides, by the rules of a policy, which requests reach a backend. A
  rule looks at a request through conditions and acts: it passes or refuses the request, sets options
  for it, or asks the client to solve a challenge. A client that has solved a challenge carries a token
  for it in a cookie that the server seals. This development is a shallow embedding of the Go sources
  under \<open>src/\<close>, with the theorems that make its parts correct. Names of definitions are the names of the
  code wherever Isabelle allows it.

  1. The parts of the program and where they are modelled.

  \<^item> Vocabulary. \<open>Prelude\<close>: bytes (\<open>8 word\<close>), strings, errors with wrapping, outcomes that may panic, Go maps
    as association lists, functions of \<open>strings\<close>. \<open>Hex\<close> (\<open>utils/inline/hex.go\<close>) and \<open>Mime\<close>
    (\<open>utils/inline/mime.go\<close>) are the two copies of the standard library that are compiled into the
    WebAssembly module. \<open>Strconv\<close>, \<open>Go_Time\<close>, \<open>Net_Addr\<close>, \<open>Query\<close>, \<open>Query_Raw\<close>, \<open>Url\<close> and \<open>Cookies\<close> hold what the
    program uses of the standard library, with the functions of \<open>utils/http.go\<close> and \<open>utils/cookie.go\<close> over it:
    expiration windows, client addresses, raw queries, the redirect filter, stripping of cookies.
  \<^item> Challenges. \<open>Challenge_Types\<close> (\<open>lib/challenge/types.go\<close>, \<open>key.go\<close>), \<open>Context\<close> (the data a request travels
    with, as the record \<open>world\<close>, and the environment \<open>env\<close> of a state), \<open>Register\<close> (\<open>register.go\<close>),
    \<open>Verifiers\<close> and \<open>Request_Data\<close> with \<open>Request_Laws\<close> (\<open>data.go\<close>: keys, tokens, the sealed cookie, evaluation of all
    challenges), \<open>Helper\<close> (\<open>helper.go\<close>: the verification URL and its handler), \<open>Runtimes\<close> with \<open>Runtime_Laws\<close> (the
    packages cookie, dnsbl, http, preload-link, refresh, resource-load and wasm), \<open>Awaiter\<close> (\<open>awaiter.go\<close>),
    \<open>Decay_Map\<close> (\<open>utils/decaymap.go\<close>), \<open>Dnsbl_Sweep\<close> (the goroutine of \<open>dnsbl.go\<close>), \<open>Wasm\<close> (the calls into a
    module, \<open>lib/challenge/wasm\<close>), \<open>Wasm_Tool\<close> (\<open>cmd/test-wasm-runtime\<close>) and \<open>Pow\<close> (the proof of work that runs
    inside a module).
  \<^item> Pages. \<open>Tags\<close> (\<open>utils/tagfetcher.go\<close>, \<open>fetchTags\<close> of \<open>lib/http.go\<close>), \<open>Pages\<close> (\<open>lib/template.go\<close>) and \<open>Texts\<close>
    (\<open>lib/settings/strings.go\<close>).
  \<^item> Rules. \<open>Actions\<close> with \<open>Action_Laws\<close> (\<open>lib/action\<close>) and \<open>Rules\<close> (\<open>lib/rule.go\<close>): handlers as a datatype, made
    from settings by \<open>new_handler\<close> and run by \<open>Handle\<close>; rules as trees that \<open>Evaluate\<close> walks. \<open>Rule_Order\<close> reads
    the order of a request through the rules off the counters, and \<open>Metrics\<close> (\<open>lib/metrics.go\<close>) exports these.
  \<^item> The server. \<open>Server\<close> with \<open>Server_Laws\<close> (\<open>lib/http.go\<close>): routes, \<open>ServeHTTP\<close>, \<open>handleRequest\<close>, and the clean-up
    of a request for its backend.
  \<^item> What conditions see. \<open>Cache\<close> (\<open>utils/cache.go\<close>), \<open>Radb\<close> (\<open>utils/radb.go\<close>), \<open>Networks\<close> (\<open>lib/policy/network.go\<close>, the
    loading in \<open>lib/state.go\<close>), \<open>Conditions\<close> (\<open>lib/conditions.go\<close>), \<open>Fingerprint\<close> and \<open>Tls_Hook\<close>
    (\<open>utils/fingerprint.go\<close>: the fingerprints, and how the connections of a server keep them).
  \<^item> From files to a running server. \<open>Policies\<close> (\<open>lib/policy/policy.go\<close>), \<open>Startup\<close> (\<open>NewState\<close> of \<open>lib/state.go\<close>),
    \<open>Embed\<close> (\<open>embed/embed.go\<close>), \<open>Backends\<close> (\<open>lib/settings/backend.go\<close>, \<open>bind.go\<close> and the abstract loop of loads),
    \<open>Command_Line\<close>, \<open>Process\<close> and \<open>Listeners\<close> (\<open>cmd/go-away/main.go\<close> from its flags to its servers, \<open>bind.go\<close>) and
    \<open>Site\<close>, which joins a policy to the laws of the server.
  \<^item> \<open>Sample\<close> is a concrete environment in which the theorems about requests are evaluated.

  2. How the parts interact. \<open>main_args\<close> parses the flags and runs \<open>main_run\<close>. \<open>main_run\<close> reads the settings and the seed, makes the backends, opens the cache
  and the listener, and serves (\<open>main_serve\<close> says until when); the loop of loads turns the policy file into a \<open>state\<close> with
  \<open>loadPolicyState\<close>, which is \<open>NewPolicy\<close> followed by \<open>NewState\<close>. A \<open>state\<close> holds an \<open>env\<close> (keys, register,
  template, backends, and the functions of third-party code), its rules and its networks. \<open>ServeHTTP\<close> takes
  a \<open>world\<close> (the request, the data attached to it, what has been written so far, the tag cache and the
  counters), makes the request data, evaluates the challenges from the cookie, and dispatches to a route; the
  route of the site is \<open>handleRequest\<close>, which runs the rules in their order with \<open>Evaluate\<close>. A \<open>Handle\<close> gets
  the rest of the request as a function (\<open>done_func\<close>), as the code does. Operations return the new
  world; a panic is an outcome of its own.

  3. What the lemmas show.

  \<^item> \<open>Site\<close> and \<open>Server_Laws\<close>: behind a gate of the policy, only requests with a valid token reach a backend;
    every request that reaches the rules is answered once; a backend sees no cookie and no argument of
    the program.
  \<^item> \<open>Request_Laws\<close>, \<open>Helper\<close>, \<open>Challenge_Types\<close>: a challenge counts as passed only with a token for the key of
    the request; a token that was issued keeps its challenge passed on the next request; what keys bind.
  \<^item> \<open>Rules\<close>, \<open>Rule_Order\<close>: the evaluation function agrees with an inductive semantics of rules (\<open>runs\<close>), and a
    request meets the rules in the order of the policy, each of them at most once.
  \<^item> \<open>Action_Laws\<close>, \<open>Runtime_Laws\<close>: handlers and runtimes answer at most once and touch only their own token.
  \<^item> \<open>Decay_Map\<close>, \<open>Dnsbl_Sweep\<close>, \<open>Cache\<close>, \<open>Awaiter\<close>, \<open>Conditions\<close>, \<open>Networks\<close>: caches are transparent, entries live as long as they
    should, and interleavings of the lock sections (\<open>map_step\<close>, \<open>await_step\<close>) keep the promised results.
    \<open>Cache\<close> and \<open>Wasm\<close> state their interfaces as locales (\<open>cache\<close>, \<open>prefixed\<close>, \<open>guest_memory\<close>), interpreted on
    the model's own definitions.
  \<^item> \<open>Startup\<close>, \<open>Policies\<close>, \<open>Process\<close>, \<open>Embed\<close>: a made state has exactly what the policy says, snippets never override,
    the loop of the program refines the abstract loop of \<open>Backends\<close>, and listeners are not leaked.
  \<^item> \<open>Command_Line\<close>, \<open>Listeners\<close>, \<open>Metrics\<close>, \<open>Tls_Hook\<close>, \<open>Texts\<close>: the parser of the flags always ends and reads back
    every spelling of an assignment, the counters are the numbers of events in any interleaving of requests,
    a request sees the fingerprints of its own connection, and no page asks for a text that is missing.
  \<^item> \<open>Pow\<close>, \<open>Wasm_Tool\<close>, \<open>Fingerprint\<close>, \<open>Hex\<close>, \<open>Query\<close>, \<open>Url\<close>: equivalence with a reference definition, invariance under
    reordering, round trips, and what the redirect filter guarantees.
  \<^item> Some theorems state what the code does where it does not do what it means to: the redirect
    filter that lets a path with two slashes through, the seed that is zeroes after a reload, the forgotten state
    after a failed reload, the difficulty that wraps, the ticker that ends the process when a timeout is
    shorter than three nanoseconds.

  4. Widths, bounds and termination. Bytes, addresses, ports, pointers of the module and sizes are words of
  their width, the difficulty of the proof of work goes through a 32-bit integer as in the WebAssembly
  build, numbers in text are bounded by the width they are parsed to, and file modes are cut to 32 bits.
  Times and durations are integers of nanoseconds; the arithmetic on them is not near the limits of 64
  bits. There is no fuel: recursion is structural or has a measure (\<open>Replace\<close> and the query parser by the
  length of the text, \<open>new_handler\<close> by the size of the settings), so these functions are total. The loop of
  the flag parser is a partial function (\<open>Parse\<close>), and that it ends for all arguments is a theorem. What can
  wait for ever in the code, the awaiter and the sweeper, is a step relation or a run of steps.

  5. Parameters. Code that is not in the repository is an argument: the hash functions and the key
  derivation, sealing and opening of tokens, evaluation and compilation of conditions (cel-go), regular
  expressions, the YAML and JSON decoders, jq, the country database, HTML parsing, the templates, the
  memory and the compiler of WebAssembly, DNS and HTTP clients, text of IPv6 addresses, the clock, random
  numbers, and the operating system (\<open>sys\<close>, \<open>os\<close>). Each theorem names what it needs of them; its witness
  gives a concrete function for which it holds.

  6. Not modelled: what the log says, the insides of the profiling handlers, the Prometheus client behind
  the counters, the stub of the module interface for other builds, and the timer that purges the cache of
  tags in the background (what a purge does is modelled). They carry no decision about a request.
\<close>

end
